(* ===== verification/Prelude.thy ===== *)
theory Prelude
  imports Main "HOL-Library.Word"
begin

unbundle bit_operations_syntax

text \<open>
  The shared layer of the development: the names of the C types at the widths of the target
  (a 32-bit ARM: \<open>int\<close>, \<open>long\<close> and pointers have 32 bits, \<open>char\<close> is an unsigned byte),
  the collections of rewrite rules the component proofs use, facts about words, and the
  generic notion of a reachable state with the locale that proves invariants of step
  relations.
\<close>

type_synonym u8 = "8 word"
type_synonym u16 = "16 word"
type_synonym u32 = "32 word"

named_theorems buf_simps \<open>rewrite rules for character buffers\<close>
named_theorems hist_simps \<open>what an operation does to the recorded history\<close>
named_theorems frame_simps \<open>the fields an operation leaves alone\<close>
named_theorems const_defs \<open>the numeric constants of the headers\<close>

subsection \<open>Masks on machine words\<close>

lemma or_and_absorb: "(x OR m) AND m = (m :: 'a::len word)"
  by (rule bit_word_eqI) (auto simp: bit_simps)

lemma and_not_and_zero: "(x AND NOT m) AND m = (0 :: 'a::len word)"
  by (rule bit_word_eqI) (auto simp: bit_simps)

lemma and_over_or: "(x OR y) AND m = (x AND m) OR (y AND (m :: 'a::len word))"
  by (rule bit_word_eqI) (auto simp: bit_simps)

lemma and_and_assoc: "(x AND y) AND m = x AND (y AND (m :: 'a::len word))"
  by (rule bit_word_eqI) (auto simp: bit_simps)

text \<open>
  Clearing the lowest set bit leaves nothing exactly for zero and the powers of two. The
  proof is an induction on the binary representation.
\<close>

lemma and_pred_even: "(2 * k :: nat) AND (2 * k - 1) = 2 * (k AND (k - 1))"
proof (cases k)
  case (Suc j)
  have "(2 * Suc j - 1) div 2 = j" by simp
  then show ?thesis using Suc and_rec [of "2 * k" "2 * k - 1"] by simp
qed simp

lemma and_pred_odd: "(2 * k + 1 :: nat) AND (2 * k) = 2 * k"
  using and_rec [of "2 * k + 1" "2 * k"] by simp

lemma even_power_of_two: "(\<exists>n. 2 * k = 2 ^ n) \<longleftrightarrow> (\<exists>n. k = 2 ^ n)" for k :: nat
proof
  assume "\<exists>n. 2 * k = 2 ^ n"
  then obtain n where n: "2 * k = 2 ^ n" by blast
  then obtain m where "n = Suc m" by (cases n) auto
  with n show "\<exists>n. k = 2 ^ n" by auto
next
  assume "\<exists>n. k = 2 ^ n"
  then show "\<exists>n. 2 * k = 2 ^ n" by (metis power_Suc)
qed

lemma odd_power_of_two: "(\<exists>n. 2 * k + 1 = 2 ^ n) \<longleftrightarrow> k = 0" for k :: nat
proof
  assume "\<exists>n. 2 * k + 1 = 2 ^ n"
  then obtain n where n: "2 * k + 1 = 2 ^ n" by blast
  have "n = 0"
  proof (rule ccontr)
    assume "n \<noteq> 0"
    then have "even ((2::nat) ^ n)" by simp
    with n show False by (metis even_plus_one_iff dvd_triv_left)
  qed
  with n show "k = 0" by simp
next
  assume "k = 0"
  then show "\<exists>n. 2 * k + 1 = 2 ^ n" by (intro exI [of _ 0]) simp
qed

lemma nat_and_pred_zero:
  "0 < x \<Longrightarrow> x AND (x - 1) = 0 \<longleftrightarrow> (\<exists>n. x = 2 ^ n)" for x :: nat
proof (induction x rule: less_induct)
  case (less x)
  show ?case
  proof (cases "even x")
    case True
    then obtain k where x: "x = 2 * k" by (elim evenE)
    with less.prems have "0 < k" "k < x" by auto
    with less.IH [of k] show ?thesis
      using and_pred_even [of k] even_power_of_two [of k] by (simp add: x)
  next
    case False
    then obtain k where x: "x = 2 * k + 1" by (elim oddE)
    then show ?thesis
      using and_pred_odd [of k] odd_power_of_two [of k] by simp
  qed
qed

lemma unat_two_power: "n < LENGTH('a) \<Longrightarrow> unat (2 ^ n :: 'a::len word) = 2 ^ n"
  using unat_of_nat [of "2 ^ n", where 'a = 'a] by (simp add: power_strict_increasing)

lemma word_and_pred_zero:
  "x AND (x - 1) = 0 \<longleftrightarrow> x = 0 \<or> (\<exists>n < LENGTH('a). x = 2 ^ n)" for x :: "'a::len word"
proof (cases "x = 0")
  case False
  then have pos: "0 < unat x" by (simp add: unat_gt_0)
  have pred: "unat (x - 1) = unat x - 1"
    using False by (rule unat_minus_one)
  have "x AND (x - 1) = 0 \<longleftrightarrow> unat x AND (unat x - 1) = 0"
    by (metis pred unsigned_0 unsigned_and_eq word_unat_eq_iff)
  also have "\<dots> \<longleftrightarrow> (\<exists>n. unat x = 2 ^ n)"
    by (rule nat_and_pred_zero [OF pos])
  also have "\<dots> \<longleftrightarrow> (\<exists>n < LENGTH('a). x = 2 ^ n)"
  proof
    assume "\<exists>n. unat x = 2 ^ n"
    then obtain n where n: "unat x = 2 ^ n" by blast
    have "unat x < 2 ^ LENGTH('a)" by (rule unsigned_less)
    with n have "n < LENGTH('a)" by simp
    moreover from this n have "x = 2 ^ n"
      by (simp add: word_unat_eq_iff unat_two_power)
    ultimately show "\<exists>n < LENGTH('a). x = 2 ^ n" by blast
  next
    assume "\<exists>n < LENGTH('a). x = 2 ^ n"
    then show "\<exists>n. unat x = 2 ^ n" by (auto simp: unat_two_power)
  qed
  finally show ?thesis using False by simp
qed simp

text \<open>Comparing the value of a word with a number.\<close>

lemma unat_eq_of_nat: "k < 2 ^ 32 \<Longrightarrow> unat w = k \<longleftrightarrow> w = of_nat k" for w :: u32
  by (auto simp: unat_of_nat)

lemma unat_eq_numeral:
  "(numeral k :: nat) < 2 ^ 32 \<Longrightarrow> unat w = numeral k \<longleftrightarrow> w = numeral k" for w :: u32
  using unat_eq_of_nat [of "numeral k" w] by simp

lemma unat_eq_one: "unat w = 1 \<longleftrightarrow> w = 1" for w :: u32
  using unat_eq_of_nat [of 1 w] by simp

text \<open>The single bits and the two-bit field the status words are tested for.\<close>

lemma mask_bits:
  "w AND 0x80 \<noteq> 0 \<longleftrightarrow> bit w 7" "w AND 0x2000 \<noteq> 0 \<longleftrightarrow> bit w 13"
  "w AND 0x1000 \<noteq> 0 \<longleftrightarrow> bit w 12" for w :: u32
  using and_exp_eq_0_iff_not_bit [of w 7] and_exp_eq_0_iff_not_bit [of w 13]
    and_exp_eq_0_iff_not_bit [of w 12]
  by simp_all

lemma two_bits_word:
  "drop_bit 14 w AND 3 = (if bit w 14 then 1 else 0) OR (if bit w 15 then 2 else 0)" for w :: u32
proof (rule bit_word_eqI)
  fix n assume "n < LENGTH(32)"
  have "bit (3::u32) n \<longleftrightarrow> n = 0 \<or> n = 1"
    using bit_mask_iff [of 2 n, where 'a = u32] by (simp add: mask_numeral) auto
  moreover have "bit (2::u32) n \<longleftrightarrow> n = 1" using bit_exp_iff [of 1 n, where 'a = u32] by auto
  ultimately show "bit (drop_bit 14 w AND 3) n = bit ((if bit w 14 then 1 else 0) OR (if bit w 15 then 2 else 0) :: u32) n"
    by (auto simp: bit_simps)
qed

lemma two_bits:
  "unat (drop_bit 14 w AND 3) = (if bit w 14 then 1 else 0) + (if bit w 15 then 2 else 0)" for w :: u32
  unfolding two_bits_word by simp

subsection \<open>Reachable states and invariants of step relations\<close>

inductive reach :: "('s \<Rightarrow> bool) \<Rightarrow> ('s \<Rightarrow> 's \<Rightarrow> bool) \<Rightarrow> 's \<Rightarrow> bool"
  for init :: "'s \<Rightarrow> bool" and step :: "'s \<Rightarrow> 's \<Rightarrow> bool" where
  reach_init: "init s \<Longrightarrow> reach init step s"
| reach_step: "reach init step s \<Longrightarrow> step s t \<Longrightarrow> reach init step t"

locale step_invariant =
  fixes init :: "'s \<Rightarrow> bool"
    and step :: "'s \<Rightarrow> 's \<Rightarrow> bool"
    and I :: "'s \<Rightarrow> bool"
  assumes init_I: "init s \<Longrightarrow> I s"
    and step_I: "I s \<Longrightarrow> step s t \<Longrightarrow> I t"
begin

lemma reach_I: "reach init step s \<Longrightarrow> I s"
  by (induction rule: reach.induct) (auto intro: init_I step_I)

lemma steps_I: "step\<^sup>*\<^sup>* s t \<Longrightarrow> I s \<Longrightarrow> I t"
  by (induction rule: rtranclp_induct) (auto intro: step_I)

end

lemma reach_rtranclp: "reach init step s \<Longrightarrow> step\<^sup>*\<^sup>* s t \<Longrightarrow> reach init step t"
  by (rotate_tac 1, induction rule: rtranclp_induct) (auto intro: reach_step)

text \<open>
  Forward simulation: a step of the concrete machine, in a state that satisfies its invariant, is
  matched by any number of steps of the abstract machine. Every reachable concrete state is then
  related to a reachable abstract one, so what holds of those carries over.
\<close>

locale forward_simulation = step_invariant +
  fixes ainit :: "'a \<Rightarrow> bool"
    and astep :: "'a \<Rightarrow> 'a \<Rightarrow> bool"
    and R :: "'s \<Rightarrow> 'a \<Rightarrow> bool"
  assumes sim_init: "init s \<Longrightarrow> \<exists>a. ainit a \<and> R s a"
    and sim_step: "I s \<Longrightarrow> R s a \<Longrightarrow> step s t \<Longrightarrow> \<exists>b. astep\<^sup>*\<^sup>* a b \<and> R t b"
begin

lemma reach_simulated: "reach init step s \<Longrightarrow> \<exists>a. reach ainit astep a \<and> R s a"
proof (induction rule: reach.induct)
  case (reach_init s)
  then show ?case using sim_init reach.reach_init by metis
next
  case (reach_step s t)
  then obtain a where a: "reach ainit astep a" "R s a" by blast
  with sim_step [OF reach_I [OF reach_step(1)] a(2) reach_step(2)] show ?case
    using reach_rtranclp by metis
qed

lemma simulated: "reach init step s \<Longrightarrow> (\<And>a. reach ainit astep a \<Longrightarrow> R s a \<Longrightarrow> P) \<Longrightarrow> P"
  using reach_simulated by blast

end

end
