(* ===== verification/C_Strings.thy ===== *)
theory C_Strings
  imports Prelude "HOL-Library.Sublist"
begin

text \<open>
  The part of the C library's string functions that the sources use. A \<open>char\<close> array is the
  list of its bytes, whole length included; the string in it ends at the first NUL. An
  access outside an array, which C leaves undefined, is the value \<open>None\<close>, so that a theorem
  saying that an operation returns \<open>Some\<close> also says that it stays inside its buffers.
\<close>

definition NUL :: char where
  "NUL = CHR 0x00"

definition cstr :: "string \<Rightarrow> string" where
  "cstr buf = takeWhile (\<lambda>c. c \<noteq> NUL) buf"

definition has_nul :: "string \<Rightarrow> bool" where
  "has_nul buf \<longleftrightarrow> NUL \<in> set buf"

text \<open>The array behind a string literal.\<close>

definition lit :: "string \<Rightarrow> string" where
  "lit s = s @ [NUL]"

definition zeros :: "nat \<Rightarrow> string" where
  "zeros n = replicate n NUL"

definition write_at :: "nat \<Rightarrow> string \<Rightarrow> string \<Rightarrow> string" where
  "write_at off xs buf = take off buf @ xs @ drop (off + length xs) buf"

text \<open>\<open>sprintf\<close> stores the characters it produced and a NUL after them.\<close>

definition c_store :: "string \<Rightarrow> nat \<Rightarrow> string \<Rightarrow> string option" where
  "c_store dst off s =
     (if off + length s + 1 \<le> length dst then Some (write_at off (s @ [NUL]) dst) else None)"

definition c_strcpy :: "string \<Rightarrow> nat \<Rightarrow> string \<Rightarrow> string option" where
  "c_strcpy dst off src = (if has_nul src then c_store dst off (cstr src) else None)"

definition c_strcat :: "string \<Rightarrow> string \<Rightarrow> string option" where
  "c_strcat dst src = (if has_nul dst then c_strcpy dst (length (cstr dst)) src else None)"

definition c_memcpy :: "string \<Rightarrow> string \<Rightarrow> nat \<Rightarrow> string option" where
  "c_memcpy dst src n =
     (if n \<le> length dst \<and> n \<le> length src then Some (take n src @ drop n dst) else None)"

text \<open>
  \<open>strstr\<close> looks at every position up to the NUL: the index of the match, \<open>Some None\<close> for a
  null result, \<open>None\<close> when the scan runs off the end of an array that holds no NUL.
\<close>

fun c_strstr :: "string \<Rightarrow> string \<Rightarrow> nat option option" where
  "c_strstr [] pat = (if pat = [] then Some (Some 0) else None)"
| "c_strstr (c # s) pat =
     (if prefix pat (c # s) then Some (Some 0)
      else if c = NUL then Some None
      else map_option (map_option Suc) (c_strstr s pat))"

definition isspace :: "char \<Rightarrow> bool" where
  "isspace c \<longleftrightarrow> c = CHR '' '' \<or> (9 \<le> (of_char c :: nat) \<and> (of_char c :: nat) \<le> 13)"

definition isdigit :: "char \<Rightarrow> bool" where
  "isdigit c \<longleftrightarrow> 48 \<le> (of_char c :: nat) \<and> (of_char c :: nat) \<le> 57"

text \<open>A \<open>%s\<close> conversion: skip white space, take what is not white space.\<close>

definition scan_token :: "string \<Rightarrow> (string \<times> string) option" where
  "scan_token s =
     (let r = dropWhile isspace s; tok = takeWhile (\<lambda>c. \<not> isspace c) r
      in if tok = [] then None else Some (tok, dropWhile (\<lambda>c. \<not> isspace c) r))"

subsection \<open>Numbers as text\<close>

definition digit_char :: "nat \<Rightarrow> char" where
  "digit_char d = (if d < 10 then char_of (48 + d) else char_of (87 + d))"

fun num_string :: "nat \<Rightarrow> nat \<Rightarrow> string" where
  "num_string b n =
     (if n < b \<or> b < 2 then [digit_char n] else num_string b (n div b) @ [digit_char (n mod b)])"

declare num_string.simps [simp del]

definition digit_val :: "char \<Rightarrow> nat option" where
  "digit_val c =
     (let n = of_char c
      in if 48 \<le> n \<and> n \<le> 57 then Some (n - 48)
         else if 97 \<le> n \<and> n \<le> 102 then Some (n - 87)
         else if 65 \<le> n \<and> n \<le> 70 then Some (n - 55)
         else None)"

definition is_digit_in :: "nat \<Rightarrow> char \<Rightarrow> bool" where
  "is_digit_in b c = (case digit_val c of None \<Rightarrow> False | Some d \<Rightarrow> d < b)"

definition num_value :: "nat \<Rightarrow> string \<Rightarrow> nat" where
  "num_value b s = foldl (\<lambda>n c. b * n + the (digit_val c)) 0 s"

text \<open>The conversions \<open>%d\<close>, \<open>%x\<close> and \<open>%02x\<close> on a 32-bit argument.\<close>

definition fmt_d :: "u32 \<Rightarrow> string" where
  "fmt_d w = (if sint w < 0 then ''-'' @ num_string 10 (nat (- sint w))
              else num_string 10 (nat (sint w)))"

definition fmt_x :: "u32 \<Rightarrow> string" where
  "fmt_x w = num_string 16 (unat w)"

definition fmt_02x :: "char \<Rightarrow> string" where
  "fmt_02x c = [digit_char (of_char c div 16), digit_char (of_char c mod 16)]"

subsection \<open>Buffers\<close>

lemma cstr_append_nul [buf_simps]: "NUL \<notin> set s \<Longrightarrow> cstr (s @ NUL # r) = s"
  by (induction s) (auto simp: cstr_def)

lemma cstr_lit [buf_simps]: "NUL \<notin> set s \<Longrightarrow> cstr (lit s) = s"
  by (simp add: lit_def cstr_append_nul)

lemma has_nul_lit [simp]: "has_nul (lit s)"
  by (simp add: lit_def has_nul_def)

lemma nul_notin_cstr [simp]: "NUL \<notin> set (cstr buf)"
  by (auto simp: cstr_def dest: set_takeWhileD)

lemma cstr_idem [buf_simps]: "cstr (cstr s) = cstr s"
  by (simp add: cstr_def)

lemma has_nul_length_cstr: "has_nul buf \<Longrightarrow> length (cstr buf) < length buf"
  by (induction buf) (auto simp: has_nul_def cstr_def)

lemma length_cstr_le: "length (cstr buf) \<le> length buf"
  by (simp add: cstr_def length_takeWhile_le)

lemma length_zeros [simp]: "length (zeros n) = n"
  by (simp add: zeros_def)

lemma has_nul_zeros [simp]: "has_nul (zeros n) \<longleftrightarrow> 0 < n"
  by (auto simp: zeros_def has_nul_def)

lemma cstr_zeros [buf_simps]: "cstr (zeros n) = []"
  by (cases n) (auto simp: zeros_def cstr_def)

lemma length_write_at [simp]:
  "off + length xs \<le> length buf \<Longrightarrow> length (write_at off xs buf) = length buf"
  by (simp add: write_at_def)

lemma cstr_drop_write_at:
  "off + length s < length buf \<Longrightarrow> NUL \<notin> set s \<Longrightarrow>
     cstr (drop off (write_at off (s @ [NUL]) buf)) = s"
  by (simp add: write_at_def cstr_append_nul)

lemma cstr_drop_write_at_other:
  assumes "off2 + length t \<le> length buf" and "off1 \<le> length buf"
    and "off1 + length (cstr (drop off1 buf)) < off2" and "off2 \<le> length buf"
  shows "cstr (drop off1 (write_at off2 t buf)) = cstr (drop off1 buf)"
proof -
  let ?b = "drop off1 buf" and ?k = "off2 - off1"
  have k: "length (cstr ?b) < ?k" "?k \<le> length ?b"
    using assms by auto
  have "takeWhile (\<lambda>c. c \<noteq> NUL) (take ?k ?b @ r) = takeWhile (\<lambda>c. c \<noteq> NUL) ?b" for r
  proof -
    have "?b ! length (cstr ?b) = NUL"
      using k nth_length_takeWhile [of "\<lambda>c. c \<noteq> NUL" ?b] by (auto simp: cstr_def)
    then have "NUL \<in> set (take ?k ?b)"
      using k by (metis in_set_conv_nth length_take min.absorb2 nth_take)
    then have "takeWhile (\<lambda>c. c \<noteq> NUL) (take ?k ?b @ r) = takeWhile (\<lambda>c. c \<noteq> NUL) (take ?k ?b)"
      by (rule takeWhile_append1) simp
    also have "\<dots> = takeWhile (\<lambda>c. c \<noteq> NUL) (take ?k ?b @ drop ?k ?b)"
      using \<open>NUL \<in> _\<close> by (subst takeWhile_append1) auto
    finally show ?thesis by (simp only: append_take_drop_id)
  qed
  moreover have "drop off1 (write_at off2 t buf)
      = take ?k ?b @ t @ drop (off2 + length t) buf"
    using assms by (simp add: write_at_def take_drop)
  ultimately show ?thesis by (simp add: cstr_def)
qed

lemma c_store_Some:
  "c_store dst off s = Some d \<longleftrightarrow>
     off + length s < length dst \<and> d = write_at off (s @ [NUL]) dst"
  by (auto simp: c_store_def)

lemma c_store_length: "c_store dst off s = Some d \<Longrightarrow> length d = length dst"
  by (auto simp: c_store_Some)

lemma c_store_read:
  "c_store dst off s = Some d \<Longrightarrow> NUL \<notin> set s \<Longrightarrow> cstr (drop off d) = s"
  by (auto simp: c_store_Some cstr_drop_write_at)

lemma c_store_read0: "c_store dst 0 s = Some d \<Longrightarrow> NUL \<notin> set s \<Longrightarrow> cstr d = s"
  using c_store_read [of dst 0 s d] by simp

lemma c_store_has_nul: "c_store dst off s = Some d \<Longrightarrow> has_nul d"
  by (auto simp: c_store_Some has_nul_def write_at_def)

lemma c_store_ok: "off + length s < length dst \<Longrightarrow> \<exists>d. c_store dst off s = Some d"
  by (simp add: c_store_def)

lemma c_strcpy_lit [buf_simps]:
  "NUL \<notin> set s \<Longrightarrow> c_strcpy dst off (lit s) = c_store dst off s"
  by (simp add: c_strcpy_def cstr_lit)

lemma c_strcpy_lit_fits:
  "NUL \<notin> set s \<Longrightarrow> off + length s < length dst \<Longrightarrow>
     c_strcpy dst off (lit s) = Some (write_at off (lit s) dst)"
  by (simp add: c_strcpy_lit c_store_def) (simp add: lit_def)

lemma c_strcpy_cstr: "c_strcpy dst off src = Some d \<Longrightarrow> cstr (drop off d) = cstr src"
  by (auto simp: c_strcpy_def split: if_splits dest: c_store_read)

lemma c_strcpy_length: "c_strcpy dst off src = Some d \<Longrightarrow> length d = length dst"
  by (auto simp: c_strcpy_def split: if_splits dest: c_store_length)

lemma c_strcpy_ok:
  "has_nul src \<Longrightarrow> off + length src \<le> length dst \<Longrightarrow> \<exists>d. c_strcpy dst off src = Some d"
  using has_nul_length_cstr [of src] by (auto simp: c_strcpy_def intro!: c_store_ok)

lemma c_memcpy_all: "length src = n \<Longrightarrow> length dst = n \<Longrightarrow> c_memcpy dst src n = Some src"
  by (simp add: c_memcpy_def)

subsection \<open>Searching\<close>

lemma c_strstr_found:
  "c_strstr s pat = Some (Some i) \<Longrightarrow> prefix pat (drop i s) \<and> i \<le> length s"
proof (induction s arbitrary: i)
  case (Cons c s)
  then show ?case by (auto split: if_splits)
qed (auto split: if_splits)

lemma c_strstr_terminated: "has_nul s \<Longrightarrow> \<exists>r. c_strstr s pat = Some r"
  by (induction s) (auto simp: has_nul_def)

lemma c_strstr_absent:
  "NUL \<notin> set s \<Longrightarrow> pat \<noteq> [] \<Longrightarrow> (\<nexists>i. prefix pat (drop i s)) \<Longrightarrow> c_strstr s pat = None"
proof (induction s)
  case (Cons c s)
  have "\<nexists>i. prefix pat (drop i s)" using Cons.prems(3) by (metis drop_Suc_Cons)
  with Cons show ?case by (metis (no_types, opaque_lifting) c_strstr.simps(2) drop0
        list.set_intros(1,2) option.map_disc_iff)
qed simp

lemma c_strstr_prefix: "prefix pat s \<Longrightarrow> c_strstr s pat = Some (Some 0)"
  by (cases s) auto

subsection \<open>Digits\<close>

lemma of_char_digit_char: "d < 16 \<Longrightarrow> of_char (digit_char d) = (if d < 10 then 48 + d else 87 + d)"
  by (simp add: digit_char_def)

lemma digit_val_digit_char [simp]: "d < 16 \<Longrightarrow> digit_val (digit_char d) = Some d"
  by (auto simp: digit_val_def of_char_digit_char)

lemma digit_char_not_nul [simp]: "d < 16 \<Longrightarrow> digit_char d \<noteq> NUL"
proof
  assume d: "d < 16" and "digit_char d = NUL"
  then have "of_char (digit_char d) = (0::nat)" by (simp add: NUL_def)
  with of_char_digit_char [OF d] show False by (simp split: if_splits)
qed

lemma isdigit_digit_char [simp]: "d < 10 \<Longrightarrow> isdigit (digit_char d)"
  by (simp add: isdigit_def of_char_digit_char)

lemma num_string_small: "n < b \<Longrightarrow> num_string b n = [digit_char n]"
  by (subst num_string.simps) simp

lemma num_string_step:
  "\<not> n < b \<Longrightarrow> 2 \<le> b \<Longrightarrow> num_string b n = num_string b (n div b) @ [digit_char (n mod b)]"
  by (subst num_string.simps) simp

lemma num_string_digits:
  "2 \<le> b \<Longrightarrow> b \<le> 16 \<Longrightarrow> \<forall>c \<in> set (num_string b n). \<exists>d < b. c = digit_char d"
proof (induction b n rule: num_string.induct)
  case (1 b n)
  show ?case
  proof (cases "n < b")
    case True
    then show ?thesis by (auto simp: num_string_small)
  next
    case False
    have "n mod b < b" using 1 mod_less_divisor [of b n] by linarith
    then have "\<exists>d < b. digit_char (n mod b) = digit_char d" by blast
    with 1 False show ?thesis by (simp add: num_string_step)
  qed
qed

lemma num_string_not_nil [simp]: "num_string b n \<noteq> []"
  by (subst num_string.simps) simp

lemma nul_notin_num_string [simp]: "2 \<le> b \<Longrightarrow> b \<le> 16 \<Longrightarrow> NUL \<notin> set (num_string b n)"
  using num_string_digits [of b n] by (metis digit_char_not_nul order_less_le_trans)

lemma num_value_snoc: "num_value b (s @ [c]) = b * num_value b s + the (digit_val c)"
  by (simp add: num_value_def)

text \<open>Reading back a printed number gives the number.\<close>

lemma num_value_num_string: "2 \<le> b \<Longrightarrow> b \<le> 16 \<Longrightarrow> num_value b (num_string b n) = n"
proof (induction b n rule: num_string.induct)
  case (1 b n)
  show ?case
  proof (cases "n < b")
    case True
    with 1 show ?thesis by (simp add: num_string_small num_value_def)
  next
    case False
    have "n mod b < 16" using 1 mod_less_divisor [of b n] by linarith
    with False 1 show ?thesis by (simp add: num_string_step num_value_snoc)
  qed
qed

lemma num_string_inj: "2 \<le> b \<Longrightarrow> b \<le> 16 \<Longrightarrow> num_string b m = num_string b n \<longleftrightarrow> m = n"
  by (metis num_value_num_string)

lemma length_num_string_le:
  "2 \<le> b \<Longrightarrow> 0 < k \<Longrightarrow> n < b ^ k \<Longrightarrow> length (num_string b n) \<le> k"
proof (induction k arbitrary: n)
  case (Suc k)
  show ?case
  proof (cases "n < b")
    case False
    with Suc.prems have k: "0 < k" by (cases k) auto
    have "n div b < b ^ k" using Suc.prems by (simp add: less_mult_imp_div_less mult.commute)
    with Suc.IH k Suc.prems have "length (num_string b (n div b)) \<le> k" by blast
    with False Suc.prems show ?thesis by (simp add: num_string_step)
  qed (simp add: num_string_small)
qed simp

text \<open>A printed number has no leading zero, unless it is zero.\<close>

lemma hd_num_string: "2 \<le> b \<Longrightarrow> b \<le> 16 \<Longrightarrow> 0 < n \<Longrightarrow> \<exists>d. 0 < d \<and> d < b \<and> hd (num_string b n) = digit_char d"
proof (induction b n rule: num_string.induct)
  case (1 b n)
  show ?case
  proof (cases "n < b")
    case True
    with 1 show ?thesis by (auto simp: num_string_small)
  next
    case False
    with 1 have "0 < n div b" by (simp add: div_greater_zero_iff)
    with False 1 show ?thesis by (simp add: num_string_step)
  qed
qed

lemma nul_notin_fmt_d [simp]: "NUL \<notin> set (fmt_d w)"
  using nul_notin_num_string [of 10] by (auto simp: fmt_d_def NUL_def)

end
