(* ===== verification/Platform.thy ===== *)
theory Platform
  imports C_Strings
begin

text \<open>
  The world around the program: device files, kernel services and commands. None of it is in
  the repository, so it enters the model as a parameter, the record \<open>env\<close> of response
  functions. Each response may depend on the whole history of calls the program has made,
  which leaves devices and kernel free to behave in any way, and every call is recorded in
  that history (\<open>hist\<close>), so a theorem can speak about what the program did, in which order
  and with which arguments.

  Fidelity: \<open>read\<close> is the list of bytes it stored (\<open>None\<close> for -1), \<open>popen\<close> the list of
  lines that \<open>fgets\<close> then delivers, \<open>ctime\<close> its string, \<open>msgrcv\<close> the type and the text of the
  message it took from the queue (at most the given number of bytes of text, of the given type
  unless that is 0, without waiting under \<open>IPC_NOWAIT\<close>), and the socket requests the 14 bytes \<open>sa_data\<close> of the
  address they filled in. \<open>e_garbage\<close> is what locals without an initial value hold.
\<close>

subsection \<open>Requests to device drivers\<close>

text \<open>The request numbers built by \<open>_IOW (magic, nr, type)\<close> and \<open>_IOR (magic, nr, type)\<close>.\<close>

datatype ioctl_req = IO_W char nat nat | IO_R char nat nat

record emifa_msg =
  addr :: u32
  tx_val :: u32
  rx_val :: u32

datatype effect =
    Ev_open string
  | Ev_close int
  | Ev_read int nat
  | Ev_ioctl int ioctl_req
  | Ev_emifa int ioctl_req emifa_msg
  | Ev_system string
  | Ev_sleep nat
  | Ev_usleep nat
  | Ev_clock_gettime u32
  | Ev_gettimeofday
  | Ev_socket
  | Ev_if_ioctl int nat "u32 option"
  | Ev_rt_ioctl int nat "u32 option"
  | Ev_popen string
  | Ev_pclose
  | Ev_msgget nat nat
  | Ev_msgctl_rmid int
  | Ev_msgrcv int nat u32 nat
  | Ev_msgsnd int string nat
  | Ev_overread string
  | Ev_thread string
  | Ev_sigaction string string
  | Ev_setitimer nat nat
  | Ev_mutex_init string
  | Ev_exit int

type_synonym history = "effect list"

record env =
  e_open :: "history \<Rightarrow> string \<Rightarrow> int"
  e_read :: "history \<Rightarrow> int \<Rightarrow> nat \<Rightarrow> string option"
  e_emifa :: "history \<Rightarrow> int \<Rightarrow> ioctl_req \<Rightarrow> emifa_msg \<Rightarrow> emifa_msg"
  e_clock_gettime :: "history \<Rightarrow> u32 \<Rightarrow> (int \<times> int) option"
  e_gettimeofday :: "history \<Rightarrow> int \<times> int"
  e_ctime :: "history \<Rightarrow> int \<Rightarrow> string"
  e_socket :: "history \<Rightarrow> int"
  e_if_ioctl :: "history \<Rightarrow> int \<Rightarrow> nat \<Rightarrow> (nat \<Rightarrow> char) option"
  e_rt_ioctl :: "history \<Rightarrow> int \<Rightarrow> nat \<Rightarrow> bool"
  e_popen :: "history \<Rightarrow> string \<Rightarrow> string list option"
  e_msgget :: "history \<Rightarrow> nat \<Rightarrow> nat \<Rightarrow> int"
  e_msgctl_rmid :: "history \<Rightarrow> int \<Rightarrow> int"
  e_msgrcv :: "history \<Rightarrow> int \<Rightarrow> nat \<Rightarrow> u32 \<Rightarrow> nat \<Rightarrow> (u32 \<times> string) option"
  e_msgsnd :: "history \<Rightarrow> int \<Rightarrow> int"
  e_behind :: "history \<Rightarrow> nat \<Rightarrow> char"
  e_thread :: "history \<Rightarrow> string \<Rightarrow> int"
  e_garbage :: "history \<Rightarrow> nat \<Rightarrow> u32"

record plat =
  hist :: history

definition emit :: "effect \<Rightarrow> 'z plat_scheme \<Rightarrow> 'z plat_scheme" where
  "emit e s = s\<lparr>hist := hist s @ [e]\<rparr>"

subsection \<open>System calls\<close>

text \<open>
  The flags of the message queue calls. \<open>IPC_EXCL\<close> without \<open>IPC_CREAT\<close> only looks the queue up.
\<close>

definition IPC_CREAT :: nat where
  "IPC_CREAT = 512"

definition IPC_EXCL :: nat where
  "IPC_EXCL = 1024"

definition IPC_NOWAIT :: nat where
  "IPC_NOWAIT = 2048"

definition sys_open :: "env \<Rightarrow> string \<Rightarrow> 'z plat_scheme \<Rightarrow> int \<times> 'z plat_scheme" where
  "sys_open E path s = (e_open E (hist s) path, emit (Ev_open path) s)"

definition sys_close :: "int \<Rightarrow> 'z plat_scheme \<Rightarrow> 'z plat_scheme" where
  "sys_close fd s = emit (Ev_close fd) s"

definition sys_read :: "env \<Rightarrow> int \<Rightarrow> nat \<Rightarrow> 'z plat_scheme \<Rightarrow> string option \<times> 'z plat_scheme" where
  "sys_read E fd n s = (e_read E (hist s) fd n, emit (Ev_read fd n) s)"

definition sys_ioctl :: "int \<Rightarrow> ioctl_req \<Rightarrow> 'z plat_scheme \<Rightarrow> 'z plat_scheme" where
  "sys_ioctl fd req s = emit (Ev_ioctl fd req) s"

definition sys_system :: "string \<Rightarrow> 'z plat_scheme \<Rightarrow> 'z plat_scheme" where
  "sys_system command s = emit (Ev_system command) s"

definition sys_usleep :: "nat \<Rightarrow> 'z plat_scheme \<Rightarrow> 'z plat_scheme" where
  "sys_usleep n s = emit (Ev_usleep n) s"

definition sys_sleep :: "nat \<Rightarrow> 'z plat_scheme \<Rightarrow> 'z plat_scheme" where
  "sys_sleep n s = emit (Ev_sleep n) s"

definition sys_clock_gettime ::
  "env \<Rightarrow> u32 \<Rightarrow> 'z plat_scheme \<Rightarrow> (int \<times> int) option \<times> 'z plat_scheme" where
  "sys_clock_gettime E clk s = (e_clock_gettime E (hist s) clk, emit (Ev_clock_gettime clk) s)"

definition sys_gettimeofday :: "env \<Rightarrow> 'z plat_scheme \<Rightarrow> (int \<times> int) \<times> 'z plat_scheme" where
  "sys_gettimeofday E s = (e_gettimeofday E (hist s), emit Ev_gettimeofday s)"

definition sys_socket :: "env \<Rightarrow> 'z plat_scheme \<Rightarrow> int \<times> 'z plat_scheme" where
  "sys_socket E s = (e_socket E (hist s), emit Ev_socket s)"

definition sys_if_ioctl ::
  "env \<Rightarrow> int \<Rightarrow> nat \<Rightarrow> u32 option \<Rightarrow> 'z plat_scheme \<Rightarrow> (nat \<Rightarrow> char) option \<times> 'z plat_scheme" where
  "sys_if_ioctl E fd req arg s =
     (e_if_ioctl E (hist s) fd req, emit (Ev_if_ioctl fd req arg) s)"

definition sys_rt_ioctl ::
  "env \<Rightarrow> int \<Rightarrow> nat \<Rightarrow> u32 option \<Rightarrow> 'z plat_scheme \<Rightarrow> bool \<times> 'z plat_scheme" where
  "sys_rt_ioctl E fd req gw s = (e_rt_ioctl E (hist s) fd req, emit (Ev_rt_ioctl fd req gw) s)"

definition sys_popen :: "env \<Rightarrow> string \<Rightarrow> 'z plat_scheme \<Rightarrow> string list option \<times> 'z plat_scheme" where
  "sys_popen E command s = (e_popen E (hist s) command, emit (Ev_popen command) s)"

definition sys_msgget :: "env \<Rightarrow> nat \<Rightarrow> nat \<Rightarrow> 'z plat_scheme \<Rightarrow> int \<times> 'z plat_scheme" where
  "sys_msgget E key flags s = (e_msgget E (hist s) key flags, emit (Ev_msgget key flags) s)"

definition sys_msgctl_rmid :: "env \<Rightarrow> int \<Rightarrow> 'z plat_scheme \<Rightarrow> int \<times> 'z plat_scheme" where
  "sys_msgctl_rmid E qid s = (e_msgctl_rmid E (hist s) qid, emit (Ev_msgctl_rmid qid) s)"

definition sys_msgrcv ::
  "env \<Rightarrow> int \<Rightarrow> nat \<Rightarrow> u32 \<Rightarrow> nat \<Rightarrow> 'z plat_scheme \<Rightarrow> (u32 \<times> string) option \<times> 'z plat_scheme" where
  "sys_msgrcv E qid n ty flags s =
     (e_msgrcv E (hist s) qid n ty flags, emit (Ev_msgrcv qid n ty flags) s)"

text \<open>
  \<open>msgsnd\<close> copies the type, a \<open>long\<close> of four bytes, and \<open>n\<close> bytes of text. When the buffer it is
  given is shorter, the kernel reads on behind the buffer: the bytes found there (\<open>e_behind\<close>) are
  recorded as an effect of their own, before the message.
\<close>

definition bytes_behind :: "env \<Rightarrow> history \<Rightarrow> nat \<Rightarrow> string" where
  "bytes_behind E h k = map (e_behind E h) [0..<k]"

definition sys_msgsnd ::
  "env \<Rightarrow> int \<Rightarrow> string \<Rightarrow> nat \<Rightarrow> 'z plat_scheme \<Rightarrow> int \<times> 'z plat_scheme" where
  "sys_msgsnd E qid m n s =
     (let t = (if length m < 4 + n then emit (Ev_overread (bytes_behind E (hist s) (4 + n - length m))) s
               else s)
      in (e_msgsnd E (hist t) qid, emit (Ev_msgsnd qid m n) t))"

lemma length_bytes_behind [simp]: "length (bytes_behind E h k) = k"
  by (simp add: bytes_behind_def)

definition sys_sigaction :: "string \<Rightarrow> string \<Rightarrow> 'z plat_scheme \<Rightarrow> 'z plat_scheme" where
  "sys_sigaction sig handler s = emit (Ev_sigaction sig handler) s"

definition sys_setitimer :: "nat \<Rightarrow> nat \<Rightarrow> 'z plat_scheme \<Rightarrow> 'z plat_scheme" where
  "sys_setitimer interval first s = emit (Ev_setitimer interval first) s"

definition sys_mutex_init :: "string \<Rightarrow> 'z plat_scheme \<Rightarrow> 'z plat_scheme" where
  "sys_mutex_init lock s = emit (Ev_mutex_init lock) s"

definition sys_thread :: "env \<Rightarrow> string \<Rightarrow> 'z plat_scheme \<Rightarrow> int \<times> 'z plat_scheme" where
  "sys_thread E name s = (e_thread E (hist s) name, emit (Ev_thread name) s)"

lemmas sys_defs = sys_open_def sys_close_def sys_read_def sys_ioctl_def sys_system_def
  sys_usleep_def sys_sleep_def sys_clock_gettime_def sys_gettimeofday_def sys_socket_def
  sys_if_ioctl_def sys_rt_ioctl_def sys_popen_def sys_msgget_def sys_msgctl_rmid_def
  sys_msgrcv_def sys_msgsnd_def sys_thread_def sys_sigaction_def
  sys_setitimer_def sys_mutex_init_def

lemma hist_emit [hist_simps]: "hist (emit e s) = hist s @ [e]"
  by (simp add: emit_def)

lemma more_emit [frame_simps]: "plat.more (emit e s) = plat.more s"
  by (simp add: emit_def)

lemma hist_update_self [simp]: "\<exists>h. s = s\<lparr>hist := h\<rparr>"
  by (rule exI [of _ "hist s"]) simp

subsection \<open>A quiet environment\<close>

text \<open>
  Every call succeeds and delivers zeros. The witnesses instantiate the parameter with it, or
  with a variant that differs in the calls they are about.
\<close>

definition idle_env :: env where
  "idle_env =
     \<lparr>e_open = (\<lambda>h p. 3),
      e_read = (\<lambda>h fd n. Some []),
      e_emifa = (\<lambda>h fd req m. m),
      e_clock_gettime = (\<lambda>h c. Some (0, 0)),
      e_gettimeofday = (\<lambda>h. (0, 0)),
      e_ctime = (\<lambda>h t. []),
      e_socket = (\<lambda>h. 3),
      e_if_ioctl = (\<lambda>h fd r. Some (\<lambda>i. CHR 0x00)),
      e_rt_ioctl = (\<lambda>h fd r. True),
      e_popen = (\<lambda>h c. Some []),
      e_msgget = (\<lambda>h k f. 0),
      e_msgctl_rmid = (\<lambda>h q. 0),
      e_msgrcv = (\<lambda>h q n ty f. None),
      e_msgsnd = (\<lambda>h q. 0),
      e_behind = (\<lambda>h i. CHR 0x00),
      e_thread = (\<lambda>h n. 0),
      e_garbage = (\<lambda>h i. 0)\<rparr>"

end
