(* ===== verification/Fpga_Ctl.thy ===== *)
theory Fpga_Ctl
  imports Platform
begin

text \<open>
  The FPGA access layer, \<open>fpga_ctl.c\<close> with \<open>fpga_ctl.h\<close> and \<open>led_ctl.h\<close>. Every function of it
  prepares the one global message \<open>fpga_msg\<close> and hands its address to the EMIFA driver, so
  each is modelled as the list of its statements on that message (\<open>fpga_stmt\<close>), executed one
  after the other. The statement lists are what two threads interleave.
\<close>

subsection \<open>Register addresses and requests\<close>

definition EMIFA_WRITE :: ioctl_req where
  "EMIFA_WRITE = IO_W (CHR ''E'') 0 12"

definition EMIFA_READ :: ioctl_req where
  "EMIFA_READ = IO_R (CHR ''E'') 1 12"

definition ADDR_VERSION :: u32 where
  "ADDR_VERSION = 0x00"

definition ADDR_WORK_STATUS :: u32 where
  "ADDR_WORK_STATUS = 0x01"

definition ADDR_CONFIG :: u32 where
  "ADDR_CONFIG = 0x02"

definition ADDR_FPGA_TIME :: u32 where
  "ADDR_FPGA_TIME = 0x04"

definition ADDR_PTP_TIME :: u32 where
  "ADDR_PTP_TIME = 0x0A"

definition ADDR_GPS_TIME :: u32 where
  "ADDR_GPS_TIME = 0x10"

definition ADDR_LOGIC_STATUS :: u32 where
  "ADDR_LOGIC_STATUS = 0x1C"

definition MPU_LED_ON :: ioctl_req where
  "MPU_LED_ON = IO_W (CHR ''L'') 0 4"

definition MPU_LED_OFF :: ioctl_req where
  "MPU_LED_OFF = IO_W (CHR ''L'') 1 4"

definition FPGA_CONFIGn_SET :: ioctl_req where
  "FPGA_CONFIGn_SET = IO_W (CHR ''L'') 2 4"

definition FPGA_CONFIGn_CLR :: ioctl_req where
  "FPGA_CONFIGn_CLR = IO_W (CHR ''L'') 3 4"

definition FPGA_CEn_SET :: ioctl_req where
  "FPGA_CEn_SET = IO_W (CHR ''L'') 4 4"

definition FPGA_CEn_CLR :: ioctl_req where
  "FPGA_CEn_CLR = IO_W (CHR ''L'') 5 4"

definition NETCLK_GPIO_SET :: ioctl_req where
  "NETCLK_GPIO_SET = IO_W (CHR ''L'') 6 4"

definition NETCLK_GPIO_CLR :: ioctl_req where
  "NETCLK_GPIO_CLR = IO_W (CHR ''L'') 7 4"

definition FPGA_RST_SET :: ioctl_req where
  "FPGA_RST_SET = IO_W (CHR ''L'') 8 4"

definition FPGA_RST_CLR :: ioctl_req where
  "FPGA_RST_CLR = IO_W (CHR ''L'') 9 4"

lemmas addr_defs [const_defs] = ADDR_VERSION_def ADDR_WORK_STATUS_def ADDR_CONFIG_def
  ADDR_FPGA_TIME_def ADDR_PTP_TIME_def ADDR_GPS_TIME_def ADDR_LOGIC_STATUS_def

lemmas req_defs [const_defs] = EMIFA_WRITE_def EMIFA_READ_def MPU_LED_ON_def MPU_LED_OFF_def
  FPGA_CONFIGn_SET_def FPGA_CONFIGn_CLR_def FPGA_CEn_SET_def FPGA_CEn_CLR_def
  NETCLK_GPIO_SET_def NETCLK_GPIO_CLR_def FPGA_RST_SET_def FPGA_RST_CLR_def

lemma emifa_requests_differ [simp]: "EMIFA_READ \<noteq> EMIFA_WRITE" "EMIFA_WRITE \<noteq> EMIFA_READ"
  by (simp_all add: const_defs)

subsection \<open>Statements on the shared message\<close>

record fpga_st = plat +
  fpga_msg :: emifa_msg

datatype fpga_stmt =
    Set_addr u32
  | Set_rx u32
  | Set_tx u32
  | Set_tx_or_rx u32
  | Emifa_ioctl ioctl_req

definition emifa_ioctl ::
  "env \<Rightarrow> int \<Rightarrow> ioctl_req \<Rightarrow> 'z fpga_st_scheme \<Rightarrow> 'z fpga_st_scheme" where
  "emifa_ioctl E fd req s =
     emit (Ev_emifa fd req (fpga_msg s))
       (s\<lparr>fpga_msg := e_emifa E (hist s) fd req (fpga_msg s)\<rparr>)"

fun exec_stmt :: "env \<Rightarrow> int \<Rightarrow> fpga_stmt \<Rightarrow> 'z fpga_st_scheme \<Rightarrow> 'z fpga_st_scheme" where
  "exec_stmt E fd (Set_addr a) s = s\<lparr>fpga_msg := (fpga_msg s)\<lparr>addr := a\<rparr>\<rparr>"
| "exec_stmt E fd (Set_rx v) s = s\<lparr>fpga_msg := (fpga_msg s)\<lparr>rx_val := v\<rparr>\<rparr>"
| "exec_stmt E fd (Set_tx v) s = s\<lparr>fpga_msg := (fpga_msg s)\<lparr>tx_val := v\<rparr>\<rparr>"
| "exec_stmt E fd (Set_tx_or_rx v) s =
     s\<lparr>fpga_msg := (fpga_msg s)\<lparr>tx_val := rx_val (fpga_msg s) OR v\<rparr>\<rparr>"
| "exec_stmt E fd (Emifa_ioctl req) s = emifa_ioctl E fd req s"

fun exec_stmts :: "env \<Rightarrow> int \<Rightarrow> fpga_stmt list \<Rightarrow> 'z fpga_st_scheme \<Rightarrow> 'z fpga_st_scheme" where
  "exec_stmts E fd [] s = s"
| "exec_stmts E fd (c # cs) s = exec_stmts E fd cs (exec_stmt E fd c s)"

text \<open>The body shared by all the reading functions, and by all the writing functions.\<close>

definition read_code :: "u32 \<Rightarrow> fpga_stmt list" where
  "read_code a = [Set_addr a, Set_rx 0, Emifa_ioctl EMIFA_READ]"

definition write_code :: "u32 \<Rightarrow> u32 \<Rightarrow> fpga_stmt list" where
  "write_code a v = [Set_addr a, Set_tx v, Emifa_ioctl EMIFA_WRITE]"

definition return_rx :: "'z fpga_st_scheme \<Rightarrow> u32 \<times> 'z fpga_st_scheme" where
  "return_rx s = (rx_val (fpga_msg s), s)"

subsection \<open>The functions\<close>

definition FPGA_enable :: "int \<Rightarrow> 'z plat_scheme \<Rightarrow> 'z plat_scheme" where
  "FPGA_enable fd s = sys_ioctl fd FPGA_CONFIGn_CLR (sys_ioctl fd FPGA_CEn_SET s)"

definition FPGA_disable :: "int \<Rightarrow> 'z plat_scheme \<Rightarrow> 'z plat_scheme" where
  "FPGA_disable fd s =
     sys_ioctl fd FPGA_CONFIGn_SET (sys_usleep 500 (sys_ioctl fd FPGA_CEn_CLR s))"

definition fpga_read_version ::
  "env \<Rightarrow> int \<Rightarrow> 'z fpga_st_scheme \<Rightarrow> u32 \<times> 'z fpga_st_scheme" where
  "fpga_read_version E fd s = return_rx (exec_stmts E fd (read_code ADDR_VERSION) s)"

definition fpga_rdwr_config ::
  "env \<Rightarrow> int \<Rightarrow> u32 \<Rightarrow> 'z fpga_st_scheme \<Rightarrow> 'z fpga_st_scheme" where
  "fpga_rdwr_config E fd val s =
     exec_stmts E fd
       [Set_addr ADDR_CONFIG, Set_rx 0, Emifa_ioctl EMIFA_READ,
        Set_tx_or_rx val, Emifa_ioctl EMIFA_WRITE] s"

definition fpga_read_work_status ::
  "env \<Rightarrow> int \<Rightarrow> 'z fpga_st_scheme \<Rightarrow> u32 \<times> 'z fpga_st_scheme" where
  "fpga_read_work_status E fd s = return_rx (exec_stmts E fd (read_code ADDR_WORK_STATUS) s)"

definition fpga_read_logic_status ::
  "env \<Rightarrow> int \<Rightarrow> 'z fpga_st_scheme \<Rightarrow> u32 \<times> 'z fpga_st_scheme" where
  "fpga_read_logic_status E fd s = return_rx (exec_stmts E fd (read_code ADDR_LOGIC_STATUS) s)"

definition fpga_read_fpga_time ::
  "env \<Rightarrow> int \<Rightarrow> nat \<Rightarrow> 'z fpga_st_scheme \<Rightarrow> u32 \<times> 'z fpga_st_scheme" where
  "fpga_read_fpga_time E fd offset s =
     return_rx (exec_stmts E fd (read_code (ADDR_FPGA_TIME + of_nat offset)) s)"

text \<open>\<open>buff\<close> is the caller's array; reading past its end is undefined (\<open>None\<close>).\<close>

definition fpga_write_ptp_time ::
  "env \<Rightarrow> int \<Rightarrow> u32 list \<Rightarrow> nat \<Rightarrow> 'z fpga_st_scheme \<Rightarrow> 'z fpga_st_scheme option" where
  "fpga_write_ptp_time E fd buff offset s =
     (if offset < length buff
      then Some (exec_stmts E fd (write_code (ADDR_PTP_TIME + of_nat offset) (buff ! offset)) s)
      else None)"

definition fpga_read_ptp_time ::
  "env \<Rightarrow> int \<Rightarrow> nat \<Rightarrow> 'z fpga_st_scheme \<Rightarrow> u32 \<times> 'z fpga_st_scheme" where
  "fpga_read_ptp_time E fd offset s =
     return_rx (exec_stmts E fd (read_code (ADDR_PTP_TIME + of_nat offset)) s)"

fun gps_time_loop :: "env \<Rightarrow> int \<Rightarrow> nat list \<Rightarrow> 'z fpga_st_scheme \<Rightarrow> 'z fpga_st_scheme" where
  "gps_time_loop E fd [] s = s"
| "gps_time_loop E fd (i # is) s =
     gps_time_loop E fd is (exec_stmts E fd (read_code (ADDR_GPS_TIME + of_nat i)) s)"

definition fpga_read_gps_time ::
  "env \<Rightarrow> int \<Rightarrow> 'z fpga_st_scheme \<Rightarrow> u32 \<times> 'z fpga_st_scheme" where
  "fpga_read_gps_time E fd s = (0, gps_time_loop E fd [0, 1, 2, 3, 4, 5] s)"

definition fpga_read_config ::
  "env \<Rightarrow> int \<Rightarrow> 'z fpga_st_scheme \<Rightarrow> u32 \<times> 'z fpga_st_scheme" where
  "fpga_read_config E fd s = return_rx (exec_stmts E fd (read_code ADDR_CONFIG) s)"

definition fpga_write_config ::
  "env \<Rightarrow> int \<Rightarrow> u32 \<Rightarrow> 'z fpga_st_scheme \<Rightarrow> 'z fpga_st_scheme" where
  "fpga_write_config E fd val s = exec_stmts E fd (write_code ADDR_CONFIG val) s"

lemmas fpga_fun_defs = fpga_read_version_def fpga_rdwr_config_def fpga_read_work_status_def
  fpga_read_logic_status_def fpga_read_fpga_time_def fpga_write_ptp_time_def
  fpga_read_ptp_time_def fpga_read_gps_time_def fpga_read_config_def fpga_write_config_def
  return_rx_def read_code_def write_code_def

subsection \<open>What the calls do to the history and to the rest of the state\<close>

lemma exec_stmts_append:
  "exec_stmts E fd (xs @ ys) s = exec_stmts E fd ys (exec_stmts E fd xs s)"
  by (induction xs arbitrary: s) auto

lemma hist_read_code [hist_simps]:
  "hist (exec_stmts E fd (read_code a) s) =
     hist s @ [Ev_emifa fd EMIFA_READ (\<lparr>addr = a, tx_val = tx_val (fpga_msg s), rx_val = 0\<rparr>)]"
  by (cases "fpga_msg s") (simp add: read_code_def emifa_ioctl_def hist_emit)

lemma hist_write_code [hist_simps]:
  "hist (exec_stmts E fd (write_code a v) s) =
     hist s @ [Ev_emifa fd EMIFA_WRITE (\<lparr>addr = a, tx_val = v, rx_val = rx_val (fpga_msg s)\<rparr>)]"
  by (cases "fpga_msg s") (simp add: write_code_def emifa_ioctl_def hist_emit)

lemma more_exec_stmt [frame_simps]: "fpga_st.more (exec_stmt E fd c s) = fpga_st.more s"
  by (cases c) (auto simp: emifa_ioctl_def emit_def)

lemma more_exec_stmts [frame_simps]: "fpga_st.more (exec_stmts E fd cs s) = fpga_st.more s"
  by (induction cs arbitrary: s) (auto simp: more_exec_stmt)

text \<open>Only the history and the message differ after a sequence of statements.\<close>

lemma exec_stmts_frame:
  obtains h m where "exec_stmts E fd cs s = s\<lparr>hist := h, fpga_msg := m\<rparr>"
proof
  show "exec_stmts E fd cs s =
      s\<lparr>hist := hist (exec_stmts E fd cs s), fpga_msg := fpga_msg (exec_stmts E fd cs s)\<rparr>"
    using more_exec_stmts [of E fd cs s] by (cases s, cases "exec_stmts E fd cs s") simp
qed

text \<open>The requests of a history that write a register, with the address and the value.\<close>

fun emifa_writes :: "history \<Rightarrow> (u32 \<times> u32) list" where
  "emifa_writes [] = []"
| "emifa_writes (Ev_emifa fd req m # h) =
     (if req = EMIFA_WRITE then (addr m, tx_val m) # emifa_writes h else emifa_writes h)"
| "emifa_writes (_ # h) = emifa_writes h"

lemma emifa_writes_append [simp]: "emifa_writes (g @ h) = emifa_writes g @ emifa_writes h"
  by (induction g rule: emifa_writes.induct) auto

subsection \<open>The contract of the EMIFA driver, and the configuration register as a port\<close>

text \<open>
  What the code relies on when it reads back the configuration it wrote: a read request
  delivers the register in \<open>rx_val\<close> and a write request stores \<open>tx_val\<close>; neither touches the
  other fields of the message; a write to the configuration register is what later reads
  deliver until the next write. All of it is a hypothesis about the driver.
\<close>

locale emifa_device =
  fixes E :: env
    and config_reg :: "history \<Rightarrow> u32"
  assumes read_config: "addr m = ADDR_CONFIG \<Longrightarrow>
      e_emifa E h fd EMIFA_READ m = m\<lparr>rx_val := config_reg h\<rparr>"
    and write_keeps: "e_emifa E h fd EMIFA_WRITE m = m"
    and reg_write: "addr m = ADDR_CONFIG \<Longrightarrow>
      config_reg (h @ [Ev_emifa fd EMIFA_WRITE m]) = tx_val m"
    and reg_read: "config_reg (h @ [Ev_emifa fd EMIFA_READ m]) = config_reg h"

text \<open>A register that can be read and written through operations on some state.\<close>

locale register_port =
  fixes rd :: "'s \<Rightarrow> u32 \<times> 's"
    and wr :: "u32 \<Rightarrow> 's \<Rightarrow> 's"
    and val :: "'s \<Rightarrow> u32"
  assumes rd_val: "fst (rd s) = val s"
    and rd_keeps: "val (snd (rd s)) = val s"
    and wr_val: "val (wr v s) = v"
begin

lemma read_back: "fst (rd (wr v s)) = v"
  by (simp add: rd_val wr_val)

text \<open>Read, set the bits of \<open>m\<close>, write: afterwards they are set and the others are as before.\<close>

lemma set_bits: "val (wr (fst (rd s) OR m) (snd (rd s))) = val s OR m"
  by (simp add: rd_val wr_val)

lemma clear_bits: "val (wr (fst (rd s) AND NOT m) (snd (rd s))) AND m = 0"
  by (simp add: rd_val wr_val and_not_and_zero)

end

context emifa_device
begin

lemma hist_read_config:
  "hist (snd (fpga_read_config E fd s)) = hist s @
     [Ev_emifa fd EMIFA_READ (\<lparr>addr = ADDR_CONFIG, tx_val = tx_val (fpga_msg s), rx_val = 0\<rparr>)]"
  by (simp add: fpga_read_config_def return_rx_def hist_read_code)

lemma rx_read_config: "fst (fpga_read_config E fd s) = config_reg (hist s)"
  by (simp add: fpga_read_config_def return_rx_def read_code_def emifa_ioctl_def emit_def
      read_config)

lemma config_after_write: "config_reg (hist (fpga_write_config E fd v s)) = v"
  by (simp add: fpga_write_config_def hist_write_code reg_write)

lemma reg_write_last:
  "addr m = ADDR_CONFIG \<Longrightarrow> config_reg (h @ [e, Ev_emifa fd EMIFA_WRITE m]) = tx_val m"
  using reg_write [of m "h @ [e]" fd] by simp

lemma config_after_rdwr: "config_reg (hist (fpga_rdwr_config E fd v s)) = config_reg (hist s) OR v"
  by (simp add: fpga_rdwr_config_def emifa_ioctl_def emit_def read_config reg_write_last)

end

text \<open>Whatever the device is, the code's read and write of the register form such a port.\<close>

sublocale emifa_device \<subseteq> config: register_port
  "fpga_read_config E fd" "fpga_write_config E fd" "\<lambda>s. config_reg (hist s)" for fd
  by unfold_locales (simp_all add: rx_read_config hist_read_config reg_read config_after_write)

text \<open>
  A driver over a plain register file: the register holds the last value written to it. It
  shows that the contract can be met, and witnesses instantiate the parameter with it.
\<close>

fun last_written :: "u32 \<Rightarrow> u32 \<Rightarrow> history \<Rightarrow> u32" where
  "last_written a v [] = v"
| "last_written a v (Ev_emifa fd req m # h) =
     (if req = EMIFA_WRITE \<and> addr m = a then last_written a (tx_val m) h
      else last_written a v h)"
| "last_written a v (_ # h) = last_written a v h"

definition reg_file_emifa ::
  "(u32 \<Rightarrow> u32) \<Rightarrow> history \<Rightarrow> int \<Rightarrow> ioctl_req \<Rightarrow> emifa_msg \<Rightarrow> emifa_msg" where
  "reg_file_emifa r0 h fd req m =
     (if req = EMIFA_READ then m\<lparr>rx_val := last_written (addr m) (r0 (addr m)) h\<rparr> else m)"

lemma last_written_snoc:
  "last_written a v (h @ [Ev_emifa fd req m]) =
     (if req = EMIFA_WRITE \<and> addr m = a then tx_val m else last_written a v h)"
  by (induction a v h rule: last_written.induct) auto

definition reg_env :: "(u32 \<Rightarrow> u32) \<Rightarrow> env" where
  "reg_env r0 = idle_env\<lparr>e_emifa := reg_file_emifa r0\<rparr>"

lemma reg_env_emifa [simp]: "e_emifa (reg_env r0) = reg_file_emifa r0"
  by (simp add: reg_env_def)

interpretation regs: emifa_device "reg_env r0" "last_written ADDR_CONFIG (r0 ADDR_CONFIG)" for r0
  by unfold_locales (simp_all add: reg_file_emifa_def last_written_snoc)

end
