(* ===== verification/Data_Trap.thy ===== *)
theory Data_Trap
  imports Fpga_Ctl
begin

text \<open>
  The shared parameter block, \<open>data_trap.c\<close> and \<open>data_trap.h\<close>: the version record, the block
  \<open>ClockParameter\<close> that the clock threads of \<open>main.c\<close> write and the management threads of
  \<open>snmp.c\<close> report, and the version strings.
\<close>

definition PARAM_LEN :: nat where
  "PARAM_LEN = 128"

definition DEVICE_NAME :: string where
  "DEVICE_NAME = ''Model:Clock_distribut''"

record app_version =
  bVerMajor :: u32
  bVerMinor :: u32
  bVerRevision :: u32
  bVerBuildId :: u32
  bVerBuildDay :: u32
  bVerBuildMonth :: u32
  wVerBuildYear :: u32

record clock_para =
  fpga_version :: string
  device_name :: string
  ptp_time :: string
  gps_time :: string
  recvport :: string
  device_mode :: u32
  device_fpgastate :: u32
  clock_source :: u32
  gps_lockstate :: u32
  ptp_lockstate :: u32
  net_connectstate :: u8
  arm_runstate :: u32

record dt_st = fpga_st +
  ArmVersion :: app_version
  ClockParameter :: clock_para

text \<open>Objects with static storage start as zeros.\<close>

definition clock_para_0 :: clock_para where
  "clock_para_0 =
     \<lparr>fpga_version = zeros PARAM_LEN, device_name = zeros PARAM_LEN,
      ptp_time = zeros PARAM_LEN, gps_time = zeros PARAM_LEN, recvport = zeros PARAM_LEN,
      device_mode = 0, device_fpgastate = 0, clock_source = 0, gps_lockstate = 0,
      ptp_lockstate = 0, net_connectstate = 0, arm_runstate = 0\<rparr>"

definition app_version_0 :: app_version where
  "app_version_0 =
     \<lparr>bVerMajor = 0, bVerMinor = 0, bVerRevision = 0, bVerBuildId = 0, bVerBuildDay = 0,
      bVerBuildMonth = 0, wVerBuildYear = 0\<rparr>"

definition cdd_get_clk_param :: "'z dt_st_scheme \<Rightarrow> clock_para" where
  "cdd_get_clk_param s = ClockParameter s"

text \<open>The assignments at the start of \<open>main\<close>, from the \<open>_VERSION_\<close> constants.\<close>

definition arm_version_built :: app_version where
  "arm_version_built =
     \<lparr>bVerMajor = 1, bVerMinor = 0, bVerRevision = 0, bVerBuildId = 1, bVerBuildDay = 27,
      bVerBuildMonth = 4, wVerBuildYear = 2018\<rparr>"

text \<open>
  The common format of both version functions. A null buffer is \<open>None\<close>; the result \<open>None\<close>
  is a write past the end of the buffer.
\<close>

definition version_text :: "app_version \<Rightarrow> string" where
  "version_text v =
     fmt_d (bVerMajor v) @ ''.'' @ fmt_d (bVerMinor v) @ ''.'' @ fmt_d (bVerRevision v) @ ''.'' @
     fmt_d (wVerBuildYear v) @ fmt_d (bVerBuildMonth v) @ fmt_d (bVerBuildDay v) @ ''_'' @
     fmt_d (bVerBuildId v)"

definition get_arm_version ::
  "app_version \<Rightarrow> string option \<Rightarrow> (int \<times> string option) option" where
  "get_arm_version v buffer =
     (case buffer of
        None \<Rightarrow> Some (-1, None)
      | Some b \<Rightarrow>
          (case c_store b 0 (version_text v) of
             None \<Rightarrow> None
           | Some b' \<Rightarrow> Some (int (length (version_text v)), Some b')))"

definition hardware_version :: app_version where
  "hardware_version =
     \<lparr>bVerMajor = 1, bVerMinor = 0, bVerRevision = 0, bVerBuildId = 0, bVerBuildDay = 12,
      bVerBuildMonth = 4, wVerBuildYear = 2018\<rparr>"

definition get_hardware_version :: "string option \<Rightarrow> (int \<times> string option) option" where
  "get_hardware_version buffer =
     (case buffer of
        None \<Rightarrow> Some (-1, None)
      | Some b \<Rightarrow>
          (case c_store b 0 (version_text hardware_version) of
             None \<Rightarrow> None
           | Some b' \<Rightarrow> Some (int (length (version_text hardware_version)), Some b')))"

subsection \<open>Well-formed parameter blocks\<close>

text \<open>Every string field keeps its declared size and is terminated inside it.\<close>

definition param_string :: "string \<Rightarrow> bool" where
  "param_string b \<longleftrightarrow> length b = PARAM_LEN \<and> has_nul b"

definition clock_para_wf :: "clock_para \<Rightarrow> bool" where
  "clock_para_wf p \<longleftrightarrow>
     param_string (fpga_version p) \<and> param_string (device_name p) \<and> param_string (ptp_time p) \<and>
     param_string (gps_time p) \<and> param_string (recvport p)"

lemma param_string_zeros [simp]: "param_string (zeros PARAM_LEN)"
  by (simp add: param_string_def PARAM_LEN_def)

lemma clock_para_wf_0: "clock_para_wf clock_para_0"
  by (simp add: clock_para_wf_def clock_para_0_def)

lemma param_string_store: "c_store b 0 s = Some b' \<Longrightarrow> param_string b \<Longrightarrow> param_string b'"
  by (auto simp: param_string_def dest: c_store_length c_store_has_nul)

lemma clock_para_wf_update:
  "clock_para_wf p \<Longrightarrow> param_string b \<Longrightarrow> clock_para_wf (p\<lparr>ptp_time := b\<rparr>)"
  "clock_para_wf p \<Longrightarrow> param_string b \<Longrightarrow> clock_para_wf (p\<lparr>gps_time := b\<rparr>)"
  "clock_para_wf p \<Longrightarrow> param_string b \<Longrightarrow> clock_para_wf (p\<lparr>recvport := b\<rparr>)"
  "clock_para_wf p \<Longrightarrow> param_string b \<Longrightarrow> clock_para_wf (p\<lparr>fpga_version := b\<rparr>)"
  by (simp_all add: clock_para_wf_def)

lemma clock_para_wf_status:
  "clock_para_wf (p\<lparr>device_mode := w\<rparr>) = clock_para_wf p"
  "clock_para_wf (p\<lparr>device_fpgastate := w\<rparr>) = clock_para_wf p"
  "clock_para_wf (p\<lparr>clock_source := w\<rparr>) = clock_para_wf p"
  "clock_para_wf (p\<lparr>gps_lockstate := w\<rparr>) = clock_para_wf p"
  "clock_para_wf (p\<lparr>ptp_lockstate := w\<rparr>) = clock_para_wf p"
  "clock_para_wf (p\<lparr>net_connectstate := b\<rparr>) = clock_para_wf p"
  "clock_para_wf (p\<lparr>arm_runstate := w\<rparr>) = clock_para_wf p"
  by (simp_all add: clock_para_wf_def)

subsection \<open>Version strings\<close>

lemma length_fmt_d: "length (fmt_d w) \<le> 11"
proof -
  have "sint w < 2 ^ 31" "- (2 ^ 31) \<le> sint w"
    using sint_lt [of w] sint_ge [of w] by simp_all
  then have "nat (sint w) < 10 ^ 10" "nat (- sint w) < 10 ^ 10" by auto
  then have "length (num_string 10 (nat (sint w))) \<le> 10"
    "length (num_string 10 (nat (- sint w))) \<le> 10"
    by (auto intro!: length_num_string_le)
  then show ?thesis by (simp add: fmt_d_def)
qed

lemma length_version_text: "length (version_text v) \<le> 81"
  using length_fmt_d [of "bVerMajor v"] length_fmt_d [of "bVerMinor v"]
    length_fmt_d [of "bVerRevision v"] length_fmt_d [of "wVerBuildYear v"]
    length_fmt_d [of "bVerBuildMonth v"] length_fmt_d [of "bVerBuildDay v"]
    length_fmt_d [of "bVerBuildId v"]
  by (simp add: version_text_def)

lemma nul_notin_version_text [simp]: "NUL \<notin> set (version_text v)"
  by (simp add: version_text_def) (simp add: NUL_def)

text \<open>Into any buffer of at least 82 bytes the version is stored whole and its length returned.\<close>

lemma get_arm_version_ok:
  assumes "82 \<le> length b"
  shows "\<exists>b'. get_arm_version v (Some b) = Some (int (length (version_text v)), Some b') \<and>
           length b' = length b \<and> cstr b' = version_text v \<and> has_nul b'"
proof -
  obtain b' where b': "c_store b 0 (version_text v) = Some b'"
    using c_store_ok [of 0 "version_text v" b] length_version_text [of v] assms by auto
  then show ?thesis
    by (auto simp: get_arm_version_def c_store_length c_store_read0 c_store_has_nul)
qed

lemma get_hardware_version_eq: "get_hardware_version b = get_arm_version hardware_version b"
  by (simp add: get_hardware_version_def get_arm_version_def)

lemma num_string_2digits:
  "n < 100 \<Longrightarrow> 10 \<le> n \<Longrightarrow> num_string 10 n = [digit_char (n div 10), digit_char (n mod 10)]"
  by (simp add: num_string_step num_string_small)

text \<open>
  the build date is printed without padding, so the string does not determine it. Two
  versions with the same text: 11 January and 1 November.
\<close>

definition version_on :: "u32 \<Rightarrow> u32 \<Rightarrow> app_version" where
  "version_on month day = arm_version_built\<lparr>bVerBuildMonth := month, bVerBuildDay := day\<rparr>"

lemma version_text_ambiguous: "version_text (version_on 1 11) = version_text (version_on 11 1)"
  by (simp add: version_text_def version_on_def arm_version_built_def fmt_d_def
      num_string_small num_string_2digits)

end
