(* ===== verification/Snmp_Types.thy ===== *)
theory Snmp_Types
  imports Data_Trap
begin

text \<open>
  The message formats of \<open>snmp.h\<close>: the command and operation codes, \<open>SNMP_MSG_T\<close> with its
  union, \<open>QUEUE_MSG_T\<close>, and their memory images. The queues and the kernel carry messages as
  bytes (the sources copy them with \<open>memcpy\<close>), so a message is encoded field by field, each
  32-bit field in little-endian order, and decoded back. The union is its largest member,
  1280 bytes; the strings and the trap records of the other members are written at their
  offsets in it.
\<close>

subsection \<open>Constants\<close>

definition CMD_GET :: u32 where
  "CMD_GET = 0x1000"

definition CMD_SET :: u32 where
  "CMD_SET = 0x2000"

definition CMD_ACK :: u32 where
  "CMD_ACK = 0x8000"

definition CMD_TRAP :: u32 where
  "CMD_TRAP = 0xA000"

definition KEY_ID_SEND :: nat where
  "KEY_ID_SEND = 4321"

definition KEY_ID_RECV :: nat where
  "KEY_ID_RECV = 5555"

definition KEY_ID_ACK :: nat where
  "KEY_ID_ACK = 6666"

text \<open>The operation codes that select a handler.\<close>

definition MSG_CODE_NET_IPADDR :: u32 where "MSG_CODE_NET_IPADDR = 0x01"

definition MSG_CODE_NET_MASK :: u32 where "MSG_CODE_NET_MASK = 0x02"

definition MSG_CODE_NET_GW :: u32 where "MSG_CODE_NET_GW = 0x03"

definition MSG_CODE_NET_MAC :: u32 where "MSG_CODE_NET_MAC = 0x04"

definition MSG_CODE_NET_DB_IP :: u32 where "MSG_CODE_NET_DB_IP = 0x05"

definition MSG_CODE_CDD_EQU_TYPE :: u32 where "MSG_CODE_CDD_EQU_TYPE = 0x32"

definition MSG_CODE_CDD_SORCE :: u32 where "MSG_CODE_CDD_SORCE = 0x36"

definition MSG_CODE_CDD_WORK_MODE :: u32 where "MSG_CODE_CDD_WORK_MODE = 0x60"

definition MSG_CODE_CDD_APP_VER :: u32 where "MSG_CODE_CDD_APP_VER = 0x61"

definition MSG_CODE_CDD_FPGA_VER :: u32 where "MSG_CODE_CDD_FPGA_VER = 0x62"

definition MSG_CODE_CDD_HW_VER :: u32 where "MSG_CODE_CDD_HW_VER = 0x63"

definition MSG_CODE_CDD_MODEL_STATE :: u32 where "MSG_CODE_CDD_MODEL_STATE = 0x64"

definition MSG_CODE_CDD_GPS_TIME :: u32 where "MSG_CODE_CDD_GPS_TIME = 0x65"

definition MSG_CODE_CDD_PTP_TIME :: u32 where "MSG_CODE_CDD_PTP_TIME = 0x66"

text \<open>The trap codes.\<close>

definition CDD_CLK_SOURCE_TRAP :: u32 where "CDD_CLK_SOURCE_TRAP = 0x70"

definition CDD_GPS_LOCK_TRAP :: u32 where "CDD_GPS_LOCK_TRAP = 0x71"

definition CDD_PTP_LOCK_TRAP :: u32 where "CDD_PTP_LOCK_TRAP = 0x72"

definition CDD_FPGA_WORK_TRAP :: u32 where "CDD_FPGA_WORK_TRAP = 0x73"

definition CDD_NET_LINK_TRAP :: u32 where "CDD_NET_LINK_TRAP = 0x74"

definition CDD_OMAP_RUN_TRAP :: u32 where "CDD_OMAP_RUN_TRAP = 0x75"

definition SNMPD_SOURCES_PROT :: string where
  "SNMPD_SOURCES_PROT = ''10062''"

definition SIZE :: nat where
  "SIZE = 128"

definition MAX_SIZE :: nat where
  "MAX_SIZE = 256"

lemmas cmd_defs [const_defs] = CMD_GET_def CMD_SET_def CMD_ACK_def CMD_TRAP_def

lemmas code_defs [const_defs] = MSG_CODE_NET_IPADDR_def MSG_CODE_NET_MASK_def
  MSG_CODE_NET_GW_def MSG_CODE_NET_MAC_def MSG_CODE_NET_DB_IP_def MSG_CODE_CDD_EQU_TYPE_def
  MSG_CODE_CDD_SORCE_def MSG_CODE_CDD_WORK_MODE_def MSG_CODE_CDD_APP_VER_def
  MSG_CODE_CDD_FPGA_VER_def MSG_CODE_CDD_HW_VER_def MSG_CODE_CDD_MODEL_STATE_def
  MSG_CODE_CDD_GPS_TIME_def MSG_CODE_CDD_PTP_TIME_def

lemmas trap_code_defs [const_defs] = CDD_CLK_SOURCE_TRAP_def CDD_GPS_LOCK_TRAP_def
  CDD_PTP_LOCK_TRAP_def CDD_FPGA_WORK_TRAP_def CDD_NET_LINK_TRAP_def CDD_OMAP_RUN_TRAP_def

subsection \<open>Messages\<close>

text \<open>The size of the union and of the whole message on the target.\<close>

definition U_DATA_LEN :: nat where
  "U_DATA_LEN = MAX_SIZE * 5"

definition QUEUE_LEN :: nat where
  "QUEUE_LEN = 12 + U_DATA_LEN"

record snmp_msg_t =
  oper_code :: u32
  error_code :: u32
  u_data :: string

record queue_msg_t =
  msg_type :: u32
  snmp_msg :: snmp_msg_t

definition msg_0 :: queue_msg_t where
  "msg_0 = \<lparr>msg_type = 0,
     snmp_msg = \<lparr>oper_code = 0, error_code = 0, u_data = zeros U_DATA_LEN\<rparr>\<rparr>"

definition msg_wf :: "queue_msg_t \<Rightarrow> bool" where
  "msg_wf m \<longleftrightarrow> length (u_data (snmp_msg m)) = U_DATA_LEN"

text \<open>\<open>msg_data_str\<close> and the state string of a trap start the union, the source follows it.\<close>

definition set_u_data :: "string \<Rightarrow> queue_msg_t \<Rightarrow> queue_msg_t" where
  "set_u_data b m = m\<lparr>snmp_msg := (snmp_msg m)\<lparr>u_data := b\<rparr>\<rparr>"

definition msg_data_str :: "queue_msg_t \<Rightarrow> string" where
  "msg_data_str m = cstr (u_data (snmp_msg m))"

definition trap_state :: "queue_msg_t \<Rightarrow> string" where
  "trap_state m = cstr (u_data (snmp_msg m))"

definition trap_source :: "queue_msg_t \<Rightarrow> string" where
  "trap_source m = cstr (drop SIZE (u_data (snmp_msg m)))"

subsection \<open>Memory images\<close>

definition le32 :: "u32 \<Rightarrow> string" where
  "le32 w = map char_of [unat w, unat w div 256, unat w div 65536, unat w div 16777216]"

definition of_le32 :: "string \<Rightarrow> u32" where
  "of_le32 bs = of_nat (of_char (bs ! 0) + 256 * of_char (bs ! 1) + 65536 * of_char (bs ! 2)
                        + 16777216 * of_char (bs ! 3))"

definition encode_msg :: "queue_msg_t \<Rightarrow> string" where
  "encode_msg m =
     le32 (msg_type m) @ le32 (oper_code (snmp_msg m)) @ le32 (error_code (snmp_msg m)) @
     u_data (snmp_msg m)"

definition decode_msg :: "string \<Rightarrow> queue_msg_t" where
  "decode_msg bs =
     \<lparr>msg_type = of_le32 (take 4 bs),
      snmp_msg = \<lparr>oper_code = of_le32 (take 4 (drop 4 bs)),
                  error_code = of_le32 (take 4 (drop 8 bs)),
                  u_data = drop 12 bs\<rparr>\<rparr>"

lemmas len_defs = QUEUE_LEN_def U_DATA_LEN_def MAX_SIZE_def SIZE_def PARAM_LEN_def

lemma length_le32 [simp]: "length (le32 w) = 4"
  by (simp add: le32_def)

lemma base256_digits:
  "(n :: nat) < 2 ^ 32 \<Longrightarrow>
     n mod 256 + 256 * (n div 256 mod 256) + 65536 * (n div 65536 mod 256)
       + 16777216 * (n div 16777216 mod 256) = n"
proof -
  assume n: "n < 2 ^ 32"
  define a where "a = n div 256"
  define b where "b = a div 256"
  define c where "c = b div 256"
  have ab: "n div 65536 = b" and c: "n div 16777216 = c"
    by (simp_all add: a_def b_def c_def flip: div_mult2_eq)
  have "c < 256" using n by (simp add: div_less_iff_less_mult flip: c)
  then have "c mod 256 = c" by simp
  moreover have "n = 256 * a + n mod 256" "a = 256 * b + a mod 256" "b = 256 * c + b mod 256"
    by (simp_all add: a_def b_def c_def)
  ultimately show ?thesis unfolding ab c a_def [symmetric] by linarith
qed

lemma of_le32_le32 [simp]: "of_le32 (le32 w) = w"
proof -
  have "unat w < 2 ^ 32" using unsigned_less [of w] by simp
  then have "of_le32 (le32 w) = of_nat (unat w)"
    by (simp only: of_le32_def le32_def list.map nth_Cons_0 nth_Cons_numeral of_char_of
        One_nat_def nth_Cons_Suc numeral_2_eq_2 numeral_3_eq_3 base256_digits)
  then show ?thesis by simp
qed

lemma msg_wf_0 [simp]: "msg_wf msg_0"
  by (simp add: msg_wf_def msg_0_def)

lemma length_encode_msg: "msg_wf m \<Longrightarrow> length (encode_msg m) = QUEUE_LEN"
  by (simp add: msg_wf_def encode_msg_def QUEUE_LEN_def)

lemma decode_encode_msg: "decode_msg (encode_msg m) = m"
  by (simp add: decode_msg_def encode_msg_def)

lemma set_u_data_simps [simp]:
  "u_data (snmp_msg (set_u_data b m)) = b"
  "msg_type (set_u_data b m) = msg_type m"
  "oper_code (snmp_msg (set_u_data b m)) = oper_code (snmp_msg m)"
  "error_code (snmp_msg (set_u_data b m)) = error_code (snmp_msg m)"
  by (simp_all add: set_u_data_def)

end
