(* ===== verification/Free_Lock_Queue.thy ===== *)
theory Free_Lock_Queue
  imports Snmp_Types
begin

text \<open>
  The message queues, \<open>freeLockQ.c\<close>: a bounded queue that drops its oldest message when it is
  full, written on top of the queue container of the libcstl package. The container is not
  part of the repository: its operations are the parameter \<open>cstl_ops\<close> and what its
  documentation promises is the locale \<open>cstl_queue\<close>. The locale \<open>bounded_fifo\<close> is the
  contract the management threads use; the sublocale shows that the functions of
  \<open>freeLockQ.c\<close> meet it over every container that keeps its promises.

  A \<open>queue_t *\<close> is \<open>None\<close> for a null pointer and \<open>Some\<close> of the container otherwise. A function
  that would copy outside an object or through a null node pointer has the result \<open>None\<close>.
\<close>

definition QUEUE_MAX_SIZE :: nat where
  "QUEUE_MAX_SIZE = 2048"

record sn_msg_param =
  cmd :: u16
  length_of :: u16
  data :: string

record 'q cstl_ops =
  create_queue :: "'q option"
  queue_init :: "'q \<Rightarrow> 'q"
  queue_size :: "'q \<Rightarrow> nat"
  queue_empty :: "'q \<Rightarrow> bool"
  queue_front :: "'q \<Rightarrow> sn_msg_param option"
  queue_push :: "'q \<Rightarrow> sn_msg_param \<Rightarrow> 'q"
  queue_pop :: "'q \<Rightarrow> 'q"
  queue_destroy :: "'q \<Rightarrow> 'q"

subsection \<open>The functions\<close>

definition SN_Free_Lock_Queue_full :: "'q cstl_ops \<Rightarrow> 'q option \<Rightarrow> int" where
  "SN_Free_Lock_Queue_full C pque_coll =
     (case pque_coll of
        None \<Rightarrow> -1
      | Some q \<Rightarrow> if queue_size C q \<ge> QUEUE_MAX_SIZE then 1 else 0)"

text \<open>The argument is the cell the new queue pointer is stored into.\<close>

definition SN_Free_Lock_Queue_Create ::
  "'q cstl_ops \<Rightarrow> 'q option option \<Rightarrow> int \<times> 'q option option" where
  "SN_Free_Lock_Queue_Create C pque_coll =
     (case pque_coll of
        None \<Rightarrow> (-1, None)
      | Some _ \<Rightarrow>
          (case create_queue C of
             None \<Rightarrow> (-1, Some None)
           | Some q \<Rightarrow> (0, Some (Some (queue_init C q)))))"

definition SN_Free_Lock_Queue_Get ::
  "'q cstl_ops \<Rightarrow> sn_msg_param option \<Rightarrow> 'q option \<Rightarrow> (int \<times> sn_msg_param option) option" where
  "SN_Free_Lock_Queue_Get C node pque_coll =
     (case pque_coll of
        None \<Rightarrow> Some (-1, node)
      | Some q \<Rightarrow>
          if queue_size C q \<le> 0 then Some (-1, node)
          else (case queue_front C q of
                  None \<Rightarrow> Some (-1, node)
                | Some p \<Rightarrow> (case node of None \<Rightarrow> None | Some _ \<Rightarrow> Some (0, Some p))))"

definition SN_Free_Lock_Queue_Pop :: "'q cstl_ops \<Rightarrow> 'q option \<Rightarrow> int \<times> 'q option" where
  "SN_Free_Lock_Queue_Pop C pque_coll =
     (case pque_coll of
        None \<Rightarrow> (-1, None)
      | Some q \<Rightarrow> if queue_empty C q then (-1, Some q) else (0, Some (queue_pop C q)))"

text \<open>
  \<open>stack\<close> is what the uninitialised local \<open>node.data\<close> holds before the copy. The trace output
  reads \<open>msg_type\<close>, the first four bytes of the message.
\<close>

definition SN_Free_Lock_Queue_Push ::
  "'q cstl_ops \<Rightarrow> string \<Rightarrow> string option \<Rightarrow> u16 \<Rightarrow> u16 \<Rightarrow> 'q option
     \<Rightarrow> (int \<times> 'q option) option" where
  "SN_Free_Lock_Queue_Push C stack msg len command pque_coll =
     (case (msg, pque_coll) of
        (Some bytes, Some q) \<Rightarrow>
          if length bytes < 4 then None
          else
            (let (ret, pq) = (if SN_Free_Lock_Queue_full C (Some q) = 1
                              then SN_Free_Lock_Queue_Pop C (Some q) else (0, Some q))
             in if ret = -1 then Some (-1, pq)
                else
                  (case c_memcpy stack bytes (unat len) of
                     None \<Rightarrow> None
                   | Some d \<Rightarrow>
                       let node = \<lparr>cmd = command, length_of = len, data = d\<rparr>
                       in Some (0, map_option (\<lambda>q'. queue_push C q' node) pq)))
      | _ \<Rightarrow> Some (-1, pque_coll))"

definition SN_Free_Lock_Queue_Destroy ::
  "'q cstl_ops \<Rightarrow> 'q option option \<Rightarrow> int \<times> 'q option option" where
  "SN_Free_Lock_Queue_Destroy C pque_coll =
     (case pque_coll of
        Some (Some q) \<Rightarrow> (0, Some (Some (queue_destroy C q)))
      | _ \<Rightarrow> (-1, pque_coll))"

subsection \<open>The promises of the container\<close>

locale cstl_queue =
  fixes C :: "'q cstl_ops"
    and items :: "'q \<Rightarrow> sn_msg_param list"
    and wfq :: "'q \<Rightarrow> bool"
  assumes size_items: "wfq q \<Longrightarrow> queue_size C q = length (items q)"
    and empty_items: "wfq q \<Longrightarrow> queue_empty C q = (items q = [])"
    and front_items: "wfq q \<Longrightarrow> items q \<noteq> [] \<Longrightarrow> queue_front C q = Some (hd (items q))"
    and push_items: "wfq q \<Longrightarrow> items (queue_push C q n) = items q @ [n]"
    and push_inv: "wfq q \<Longrightarrow> wfq (queue_push C q n)"
    and pop_items: "wfq q \<Longrightarrow> items q \<noteq> [] \<Longrightarrow> items (queue_pop C q) = tl (items q)"
    and pop_inv: "wfq q \<Longrightarrow> items q \<noteq> [] \<Longrightarrow> wfq (queue_pop C q)"
    and init_items: "create_queue C = Some q \<Longrightarrow> items (queue_init C q) = []"
    and init_inv: "create_queue C = Some q \<Longrightarrow> wfq (queue_init C q)"

subsection \<open>The contract of the bounded queue\<close>

text \<open>The specification: append, after dropping the head if the list is full.\<close>

definition bounded_push :: "nat \<Rightarrow> 'm \<Rightarrow> 'm list \<Rightarrow> 'm list" where
  "bounded_push cap m xs = (if length xs \<ge> cap then tl xs else xs) @ [m]"

definition last_n :: "nat \<Rightarrow> 'm list \<Rightarrow> 'm list" where
  "last_n n xs = drop (length xs - n) xs"

lemma length_bounded_push:
  "0 < cap \<Longrightarrow> length xs \<le> cap \<Longrightarrow> length (bounded_push cap m xs) \<le> cap"
  by (auto simp: bounded_push_def)

lemma bounded_push_last_n:
  "0 < cap \<Longrightarrow> bounded_push cap m (last_n cap xs) = last_n cap (xs @ [m])"
  by (cases "length xs < cap")
     (auto simp: bounded_push_def last_n_def not_less Suc_diff_le drop_Suc tl_drop)

text \<open>
  A client is a sequence of calls; \<open>spec_run\<close> says what they return and leave behind on a
  list, \<open>run_ops\<close> performs them through the operations it is given. \<open>blank\<close> is the node the
  client hands to the reading call.
\<close>

datatype 'm queue_op = Op_push 'm | Op_get | Op_pop

datatype 'm reply = R_push int | R_get int "'m option" | R_pop int

fun spec_op :: "nat \<Rightarrow> 'm \<Rightarrow> 'm queue_op \<Rightarrow> 'm list \<Rightarrow> 'm reply \<times> 'm list" where
  "spec_op cap blank (Op_push m) xs = (R_push 0, bounded_push cap m xs)"
| "spec_op cap blank Op_get xs =
     (case xs of [] \<Rightarrow> (R_get (-1) (Some blank), []) | x # ys \<Rightarrow> (R_get 0 (Some x), xs))"
| "spec_op cap blank Op_pop xs = (case xs of [] \<Rightarrow> (R_pop (-1), []) | x # ys \<Rightarrow> (R_pop 0, ys))"

fun spec_run :: "nat \<Rightarrow> 'm \<Rightarrow> 'm queue_op list \<Rightarrow> 'm list \<Rightarrow> 'm reply list \<times> 'm list" where
  "spec_run cap blank [] xs = ([], xs)"
| "spec_run cap blank (c # cs) xs =
     (let r = spec_op cap blank c xs; rest = spec_run cap blank cs (snd r)
      in (fst r # fst rest, snd rest))"

fun run_op ::
  "('m \<Rightarrow> 'p \<Rightarrow> (int \<times> 'p) option) \<Rightarrow> ('m option \<Rightarrow> 'p \<Rightarrow> (int \<times> 'm option) option) \<Rightarrow>
     ('p \<Rightarrow> int \<times> 'p) \<Rightarrow> 'm \<Rightarrow> 'm queue_op \<Rightarrow> 'p \<Rightarrow> ('m reply \<times> 'p) option" where
  "run_op push get pop blank (Op_push m) p = map_option (\<lambda>(r, p'). (R_push r, p')) (push m p)"
| "run_op push get pop blank Op_get p =
     map_option (\<lambda>(r, n). (R_get r n, p)) (get (Some blank) p)"
| "run_op push get pop blank Op_pop p = (case pop p of (r, p') \<Rightarrow> Some (R_pop r, p'))"

fun run_ops ::
  "('m \<Rightarrow> 'p \<Rightarrow> (int \<times> 'p) option) \<Rightarrow> ('m option \<Rightarrow> 'p \<Rightarrow> (int \<times> 'm option) option) \<Rightarrow>
     ('p \<Rightarrow> int \<times> 'p) \<Rightarrow> 'm \<Rightarrow> 'm queue_op list \<Rightarrow> 'p \<Rightarrow> ('m reply list \<times> 'p) option" where
  "run_ops push get pop blank [] p = Some ([], p)"
| "run_ops push get pop blank (c # cs) p =
     (case run_op push get pop blank c p of
        None \<Rightarrow> None
      | Some (r, p') \<Rightarrow> map_option (\<lambda>(rs, p''). (r # rs, p'')) (run_ops push get pop blank cs p'))"

fun op_valid :: "('m \<Rightarrow> bool) \<Rightarrow> 'm queue_op \<Rightarrow> bool" where
  "op_valid valid (Op_push m) = valid m"
| "op_valid valid _ = True"

lemma spec_run_pushes:
  "0 < cap \<Longrightarrow> snd (spec_run cap blank (map Op_push ms) (last_n cap xs)) = last_n cap (xs @ ms)"
  by (induction ms arbitrary: xs) (simp_all add: bounded_push_last_n Let_def)

locale bounded_fifo =
  fixes push :: "'m \<Rightarrow> 'p \<Rightarrow> (int \<times> 'p) option"
    and get :: "'m option \<Rightarrow> 'p \<Rightarrow> (int \<times> 'm option) option"
    and pop :: "'p \<Rightarrow> int \<times> 'p"
    and content :: "'p \<Rightarrow> 'm list"
    and ok :: "'p \<Rightarrow> bool"
    and valid :: "'m \<Rightarrow> bool"
    and cap :: nat
  assumes cap_pos: "0 < cap"
    and push_spec: "ok p \<Longrightarrow> valid m \<Longrightarrow>
      \<exists>p'. push m p = Some (0, p') \<and> ok p' \<and> content p' = bounded_push cap m (content p)"
    and get_empty: "ok p \<Longrightarrow> content p = [] \<Longrightarrow> get node p = Some (-1, node)"
    and get_head: "ok p \<Longrightarrow> content p \<noteq> [] \<Longrightarrow> get (Some n) p = Some (0, Some (hd (content p)))"
    and pop_empty: "ok p \<Longrightarrow> content p = [] \<Longrightarrow> pop p = (-1, p)"
    and pop_head: "ok p \<Longrightarrow> content p \<noteq> [] \<Longrightarrow>
      fst (pop p) = 0 \<and> ok (snd (pop p)) \<and> content (snd (pop p)) = tl (content p)"
    and ok_bound: "ok p \<Longrightarrow> length (content p) \<le> cap"
begin

text \<open>Each call refines its specification on lists, and so does every sequence of calls.\<close>

lemma run_op_refines:
  "ok p \<Longrightarrow> op_valid valid c \<Longrightarrow>
     \<exists>p'. run_op push get pop blank c p = Some (fst (spec_op cap blank c (content p)), p') \<and>
          ok p' \<and> content p' = snd (spec_op cap blank c (content p))"
proof (cases c)
  case (Op_push m)
  assume "ok p" "op_valid valid c"
  with Op_push push_spec [of p m] show ?thesis by auto
next
  case Op_get
  assume "ok p"
  with Op_get show ?thesis
    by (cases "content p") (simp_all add: get_empty get_head)
next
  case Op_pop
  assume "ok p"
  with Op_pop pop_empty [of p] pop_head [of p] show ?thesis
    by (cases "content p"; cases "pop p") auto
qed

lemma run_ops_refines:
  "ok p \<Longrightarrow> list_all (op_valid valid) cs \<Longrightarrow>
     \<exists>p'. run_ops push get pop blank cs p = Some (fst (spec_run cap blank cs (content p)), p') \<and>
          ok p' \<and> content p' = snd (spec_run cap blank cs (content p))"
proof (induction cs arbitrary: p)
  case (Cons c cs)
  obtain p' where p': "run_op push get pop blank c p = Some (fst (spec_op cap blank c (content p)), p')"
    "ok p'" "content p' = snd (spec_op cap blank c (content p))"
    using run_op_refines [of p c blank] Cons.prems by auto
  with Cons.IH [of p'] Cons.prems show ?case by (auto simp: Let_def)
qed simp

end

subsection \<open>The functions meet the contract\<close>

definition node_ok :: "sn_msg_param \<Rightarrow> bool" where
  "node_ok n \<longleftrightarrow> unat (length_of n) = QUEUE_LEN \<and> length (data n) = QUEUE_LEN"

text \<open>The message a caller passes to the push function is the data of the node.\<close>

definition push_node ::
  "'q cstl_ops \<Rightarrow> string \<Rightarrow> sn_msg_param \<Rightarrow> 'q option \<Rightarrow> (int \<times> 'q option) option" where
  "push_node C stack n p = SN_Free_Lock_Queue_Push C stack (Some (data n)) (length_of n) (cmd n) p"

fun queue_content :: "('q \<Rightarrow> sn_msg_param list) \<Rightarrow> 'q option \<Rightarrow> sn_msg_param list" where
  "queue_content items None = []"
| "queue_content items (Some q) = items q"

definition queue_ok :: "('q \<Rightarrow> sn_msg_param list) \<Rightarrow> ('q \<Rightarrow> bool) \<Rightarrow> 'q option \<Rightarrow> bool" where
  "queue_ok items wfq p \<longleftrightarrow>
     (case p of None \<Rightarrow> False | Some q \<Rightarrow> wfq q \<and> length (items q) \<le> QUEUE_MAX_SIZE)"

context cstl_queue
begin

lemma full_iff:
  "wfq q \<Longrightarrow> SN_Free_Lock_Queue_full C (Some q) = 1 \<longleftrightarrow> QUEUE_MAX_SIZE \<le> length (items q)"
  by (simp add: SN_Free_Lock_Queue_full_def size_items)

lemma pop_Some:
  "wfq q \<Longrightarrow> SN_Free_Lock_Queue_Pop C (Some q) =
     (if items q = [] then (-1, Some q) else (0, Some (queue_pop C q)))"
  by (simp add: SN_Free_Lock_Queue_Pop_def empty_items)

text \<open>A push returns 0, stays in bounds and appends, dropping the oldest message when full.\<close>

lemma push_Some:
  assumes "wfq q" and "4 \<le> length bytes" and "unat len \<le> length bytes"
    and "unat len \<le> length stack"
  shows "\<exists>q'. SN_Free_Lock_Queue_Push C stack (Some bytes) len command (Some q) = Some (0, Some q')
     \<and> wfq q'
     \<and> items q' = bounded_push QUEUE_MAX_SIZE
          \<lparr>cmd = command, length_of = len, data = take (unat len) bytes @ drop (unat len) stack\<rparr>
          (items q)"
proof (cases "QUEUE_MAX_SIZE \<le> length (items q)")
  case True
  then have ne: "items q \<noteq> []" by (auto simp: QUEUE_MAX_SIZE_def)
  with True assms show ?thesis
    by (auto simp: SN_Free_Lock_Queue_Push_def full_iff pop_Some c_memcpy_def push_items push_inv
        pop_items pop_inv bounded_push_def)
next
  case False
  with assms show ?thesis
    by (auto simp: SN_Free_Lock_Queue_Push_def full_iff c_memcpy_def push_items push_inv
        bounded_push_def)
qed

lemma get_Some:
  "wfq q \<Longrightarrow> SN_Free_Lock_Queue_Get C node (Some q) =
     (if items q = [] then Some (-1, node)
      else (case node of None \<Rightarrow> None | Some _ \<Rightarrow> Some (0, Some (hd (items q)))))"
  by (auto simp: SN_Free_Lock_Queue_Get_def size_items front_items)

end

sublocale cstl_queue \<subseteq> sn: bounded_fifo
  "push_node C (zeros QUEUE_LEN)"
  "SN_Free_Lock_Queue_Get C" "SN_Free_Lock_Queue_Pop C"
  "queue_content items" "queue_ok items wfq" node_ok QUEUE_MAX_SIZE
proof
  show "0 < QUEUE_MAX_SIZE" by (simp add: QUEUE_MAX_SIZE_def)
next
  fix p :: "'q option" and m
  assume ok: "queue_ok items wfq p" and m: "node_ok m"
  then obtain q where p: "p = Some q" and q: "wfq q" "length (items q) \<le> QUEUE_MAX_SIZE"
    by (auto simp: queue_ok_def split: option.splits)
  have "4 \<le> QUEUE_LEN" "0 < QUEUE_MAX_SIZE" by (simp_all add: len_defs QUEUE_MAX_SIZE_def)
  then show "\<exists>p'. push_node C (zeros QUEUE_LEN) m p = Some (0, p') \<and> queue_ok items wfq p' \<and>
      queue_content items p' = bounded_push QUEUE_MAX_SIZE m (queue_content items p)"
    using m push_Some [of q "data m" "length_of m" "zeros QUEUE_LEN" "cmd m"] q
    by (cases m) (auto simp: p push_node_def node_ok_def queue_ok_def length_bounded_push)
qed (auto simp: queue_ok_def get_Some pop_Some pop_items pop_inv split: option.splits)

text \<open>The client's lemma, for every container.\<close>

context cstl_queue
begin

lemmas queue_run_refines = sn.run_ops_refines
lemmas queue_bound = sn.ok_bound

end

subsection \<open>A container over lists\<close>

text \<open>It shows that the promises can be kept; the witnesses instantiate the parameter with it.\<close>

definition list_cstl :: "sn_msg_param list cstl_ops" where
  "list_cstl =
     \<lparr>create_queue = Some [], queue_init = (\<lambda>q. []), queue_size = length,
      queue_empty = (\<lambda>q. q = []),
      queue_front = (\<lambda>q. case q of [] \<Rightarrow> None | x # _ \<Rightarrow> Some x),
      queue_push = (\<lambda>q n. q @ [n]), queue_pop = tl, queue_destroy = (\<lambda>q. [])\<rparr>"

interpretation lq: cstl_queue list_cstl "\<lambda>q. q" "\<lambda>q. True"
  by unfold_locales (auto simp: list_cstl_def split: list.splits)

subsection \<open>Properties\<close>

text \<open>
  C11. Refinement: over every container that keeps its promises, any sequence of push, get
  and pop calls on a queue in bounds runs without an access outside an object, returns what
  the bounded list specification returns, leaves the content the specification leaves and
  keeps the length at most 2048.
\<close>

theorem queue_refines_bounded_list:
  assumes "cstl_queue C items wfq" and "queue_ok items wfq p"
    and "list_all (op_valid node_ok) cs"
  shows "\<exists>p'. run_ops (push_node C (zeros QUEUE_LEN)) (SN_Free_Lock_Queue_Get C)
                (SN_Free_Lock_Queue_Pop C) blank cs p
              = Some (fst (spec_run QUEUE_MAX_SIZE blank cs (queue_content items p)), p')
         \<and> queue_content items p' = snd (spec_run QUEUE_MAX_SIZE blank cs (queue_content items p))
         \<and> length (queue_content items p') \<le> 2048"
proof -
  from cstl_queue.queue_run_refines [OF assms(1,2,3), of blank]
  obtain p' where "run_ops (push_node C (zeros QUEUE_LEN)) (SN_Free_Lock_Queue_Get C)
      (SN_Free_Lock_Queue_Pop C) blank cs p
        = Some (fst (spec_run QUEUE_MAX_SIZE blank cs (queue_content items p)), p')"
    and ok: "queue_ok items wfq p'"
    and "queue_content items p' = snd (spec_run QUEUE_MAX_SIZE blank cs (queue_content items p))"
    by blast
  with cstl_queue.queue_bound [OF assms(1) ok] show ?thesis by (auto simp: QUEUE_MAX_SIZE_def)
qed

definition sample_node :: sn_msg_param where
  "sample_node = \<lparr>cmd = 0, length_of = of_nat QUEUE_LEN, data = zeros QUEUE_LEN\<rparr>"

lemma sample_node_ok: "node_ok sample_node"
  by (simp add: sample_node_def node_ok_def len_defs)

theorem queue_refines_bounded_list_witness:
  "\<exists>p'. run_ops (push_node list_cstl (zeros QUEUE_LEN)) (SN_Free_Lock_Queue_Get list_cstl)
          (SN_Free_Lock_Queue_Pop list_cstl) sample_node
          [Op_push sample_node, Op_get, Op_pop, Op_pop] (Some [])
        = Some ([R_push 0, R_get 0 (Some sample_node), R_pop 0, R_pop (-1)], p')
      \<and> queue_content (\<lambda>q. q) p' = []"
proof -
  have "queue_ok (\<lambda>q. q) (\<lambda>q. True) (Some [])" by (simp add: queue_ok_def)
  moreover have "list_all (op_valid node_ok) [Op_push sample_node, Op_get, Op_pop, Op_pop]"
    by (simp add: sample_node_ok)
  ultimately show ?thesis
    using queue_refines_bounded_list [OF lq.cstl_queue_axioms,
        of "Some []" "[Op_push sample_node, Op_get, Op_pop, Op_pop]" sample_node]
    by (auto simp: Let_def bounded_push_def QUEUE_MAX_SIZE_def)
qed

text \<open>
  Overflow: pushing any list of well-sized messages onto an empty queue succeeds every
  time and leaves the newest 2048 of them, oldest first; nothing else is lost.
\<close>

theorem queue_keeps_newest:
  assumes "cstl_queue C items wfq" and "wfq q" and "items q = []" and "\<forall>m \<in> set ms. node_ok m"
  shows "\<exists>rs p'. run_ops (push_node C (zeros QUEUE_LEN)) (SN_Free_Lock_Queue_Get C)
                (SN_Free_Lock_Queue_Pop C) blank (map Op_push ms) (Some q) = Some (rs, p')
         \<and> queue_content items p' = drop (length ms - 2048) ms"
proof -
  have "queue_ok items wfq (Some q)" using assms by (simp add: queue_ok_def)
  moreover have "list_all (op_valid node_ok) (map Op_push ms)"
    using assms(4) by (simp add: list_all_iff)
  ultimately obtain p' where
    "run_ops (push_node C (zeros QUEUE_LEN)) (SN_Free_Lock_Queue_Get C)
       (SN_Free_Lock_Queue_Pop C) blank (map Op_push ms) (Some q)
     = Some (fst (spec_run QUEUE_MAX_SIZE blank (map Op_push ms) []), p')"
    "queue_content items p' = snd (spec_run QUEUE_MAX_SIZE blank (map Op_push ms) [])"
    using cstl_queue.queue_run_refines [OF assms(1), of "Some q" _ blank] assms(3) by fastforce
  then show ?thesis
    using spec_run_pushes [of QUEUE_MAX_SIZE blank ms "[]"]
    by (auto simp: last_n_def QUEUE_MAX_SIZE_def)
qed

theorem queue_keeps_newest_witness:
  "\<exists>rs p'. run_ops (push_node list_cstl (zeros QUEUE_LEN)) (SN_Free_Lock_Queue_Get list_cstl)
          (SN_Free_Lock_Queue_Pop list_cstl) sample_node (map Op_push (replicate 3000 sample_node))
          (Some []) = Some (rs, p')
      \<and> queue_content (\<lambda>q. q) p' = replicate 2048 sample_node"
  using queue_keeps_newest [OF lq.cstl_queue_axioms, of "[]" "replicate 3000 sample_node" sample_node]
  by (auto simp: sample_node_ok drop_replicate)

end
