(* ===== verification/C_Inet.thy ===== *)
theory C_Inet
  imports C_Strings
begin

text \<open>
  The C library's address functions as the sources use them: \<open>inet_aton\<close> (one to four parts
  separated by dots, each decimal, octal or hexadecimal, the last part filling the remaining
  bytes, white space allowed behind), \<open>inet_ntoa\<close>, and the conversion
  \<open>sscanf (s, "%u.%u.%u.%u", ...)\<close>. An address is its value in host order.
\<close>

definition base_prefix :: "string \<Rightarrow> nat \<times> string" where
  "base_prefix s =
     (if 3 \<le> length s \<and> s ! 0 = CHR ''0'' \<and> (s ! 1 = CHR ''x'' \<or> s ! 1 = CHR ''X'') \<and>
         is_digit_in 16 (s ! 2) then (16, drop 2 s)
      else if s \<noteq> [] \<and> hd s = CHR ''0'' then (8, s)
      else (10, s))"

definition strtoul0 :: "string \<Rightarrow> nat \<times> string" where
  "strtoul0 s =
     (let (b, r) = base_prefix s
      in (num_value b (takeWhile (is_digit_in b) r), dropWhile (is_digit_in b) r))"

text \<open>\<open>k\<close> counts the dots that may still follow.\<close>

fun aton_parts :: "nat \<Rightarrow> string \<Rightarrow> nat list option" where
  "aton_parts k s =
     (case s of
        [] \<Rightarrow> None
      | c # _ \<Rightarrow>
          if \<not> isdigit c then None
          else (case strtoul0 s of (v, r) \<Rightarrow>
            if v > 0xffffffff then None
            else (case r of
                    [] \<Rightarrow> Some [v]
                  | d # r' \<Rightarrow>
                      if d = CHR ''.'' then
                        (case k of
                           0 \<Rightarrow> None
                         | Suc k' \<Rightarrow> if v > 255 then None else map_option ((#) v) (aton_parts k' r'))
                      else if isspace d then Some [v] else None)))"

declare aton_parts.simps [simp del]

definition aton_limit :: "nat \<Rightarrow> nat" where
  "aton_limit n = (if n = 1 then 0xffffffff else if n = 2 then 0xffffff
                   else if n = 3 then 0xffff else 0xff)"

fun aton_value :: "nat list \<Rightarrow> nat" where
  "aton_value [a] = a"
| "aton_value [a, b] = 16777216 * a + b"
| "aton_value [a, b, c] = 16777216 * a + 65536 * b + c"
| "aton_value [a, b, c, d] = 16777216 * a + 65536 * b + 256 * c + d"
| "aton_value _ = 0"

definition inet_aton :: "string \<Rightarrow> u32 option" where
  "inet_aton s =
     (case aton_parts 3 s of
        None \<Rightarrow> None
      | Some ps \<Rightarrow> if last ps > aton_limit (length ps) then None else Some (of_nat (aton_value ps)))"

definition addr_byte :: "nat \<Rightarrow> u32 \<Rightarrow> nat" where
  "addr_byte i a = unat a div 256 ^ i mod 256"

definition inet_ntoa :: "u32 \<Rightarrow> string" where
  "inet_ntoa a =
     num_string 10 (addr_byte 3 a) @ ''.'' @ num_string 10 (addr_byte 2 a) @ ''.'' @
     num_string 10 (addr_byte 1 a) @ ''.'' @ num_string 10 (addr_byte 0 a)"

text \<open>The conversion \<open>%u\<close>: \<open>strtoul\<close> in base 10 saturates, a minus sign negates modulo \<open>2 ^ 32\<close>.\<close>

definition scan_digits :: "string \<Rightarrow> (u32 \<times> string) option" where
  "scan_digits s =
     (let ds = takeWhile isdigit s; v = num_value 10 ds
      in if ds = [] then None
         else Some (if v > 0xffffffff then - 1 else of_nat v, dropWhile isdigit s))"

definition scan_u :: "string \<Rightarrow> (u32 \<times> string) option" where
  "scan_u s =
     (case dropWhile isspace s of
        [] \<Rightarrow> None
      | c # r \<Rightarrow>
          if c = CHR ''-'' then map_option (\<lambda>(v, t). (if num_value 10 (takeWhile isdigit r) > 0xffffffff
                                                   then v else - v, t)) (scan_digits r)
          else if c = CHR ''+'' then scan_digits r
          else scan_digits (c # r))"

fun scan_dotted :: "nat \<Rightarrow> string \<Rightarrow> u32 list" where
  "scan_dotted 0 s = []"
| "scan_dotted (Suc k) s =
     (case scan_u s of
        None \<Rightarrow> []
      | Some (v, r) \<Rightarrow>
          v # (if k = 0 then []
               else (case r of [] \<Rightarrow> [] | c # t \<Rightarrow> if c = CHR ''.'' then scan_dotted k t else [])))"

subsection \<open>Printed numbers are read back\<close>

lemma is_digit_in_char [simp]: "d < b \<Longrightarrow> b \<le> 16 \<Longrightarrow> is_digit_in b (digit_char d)"
  by (simp add: is_digit_in_def)

lemma not_digit_dot [simp]:
  "\<not> is_digit_in b (CHR ''.'')" "\<not> isdigit (CHR ''.'')" "\<not> isspace (CHR ''.'')"
  by (simp_all add: is_digit_in_def digit_val_def isdigit_def isspace_def)

lemma digit_char_0 [simp]: "digit_char 0 = CHR ''0''"
  by code_simp

lemma digit_char_zero: "d < 10 \<Longrightarrow> digit_char d = CHR ''0'' \<longleftrightarrow> d = 0"
proof
  assume "d < 10" "digit_char d = CHR ''0''"
  then show "d = 0" using of_char_digit_char [of d] by simp
qed simp

text \<open>What follows a printed number in an address: nothing, or a dot.\<close>

definition num_end :: "string \<Rightarrow> bool" where
  "num_end r \<longleftrightarrow> r = [] \<or> hd r = CHR ''.''"

lemma num_string_span:
  assumes "b = 10 \<or> (b = 8 \<and> n < 8)" and "num_end r"
  shows "takeWhile (is_digit_in b) (num_string 10 n @ r) = num_string 10 n"
    and "dropWhile (is_digit_in b) (num_string 10 n @ r) = r"
proof -
  have ds: "\<forall>c \<in> set (num_string 10 n). is_digit_in b c"
    using assms(1) num_string_digits [of 10 n] num_string_small [of n 10] by fastforce
  have "takeWhile (is_digit_in b) r = []" "dropWhile (is_digit_in b) r = r"
    using assms(2) by (cases r; auto simp: num_end_def)+
  with ds show "takeWhile (is_digit_in b) (num_string 10 n @ r) = num_string 10 n"
    and "dropWhile (is_digit_in b) (num_string 10 n @ r) = r"
    by (simp_all add: takeWhile_append2 dropWhile_append2)
qed

lemma num_string_0 [simp]: "num_string 10 0 = ''0''"
  by (simp add: num_string_small)

lemma num_string_all_digits: "\<forall>c \<in> set (num_string 10 n). isdigit c"
  using num_string_digits [of 10 n] by fastforce

lemma hd_num_string_digit: "isdigit (hd (num_string 10 n))"
  using num_string_all_digits [of n] by simp

lemma base_prefix_num_string:
  "num_end r \<Longrightarrow> base_prefix (num_string 10 n @ r) = (if n = 0 then 8 else 10, num_string 10 n @ r)"
proof (cases "n = 0")
  case True
  assume "num_end r"
  with True show ?thesis by (cases r) (auto simp: base_prefix_def num_end_def)
next
  case False
  then obtain d where "0 < d" "d < 10" "hd (num_string 10 n) = digit_char d"
    using hd_num_string [of 10 n] by auto
  then have "hd (num_string 10 n) \<noteq> CHR ''0''" by (simp add: digit_char_zero)
  with False show ?thesis
    by (simp add: base_prefix_def nth_append hd_append hd_conv_nth [symmetric])
qed

lemma strtoul0_num_string: "num_end r \<Longrightarrow> strtoul0 (num_string 10 n @ r) = (n, r)"
proof (cases "n = 0")
  case True
  assume "num_end r"
  with True num_string_span [of 8 0 r] base_prefix_num_string [of r 0] show ?thesis
    by (simp add: strtoul0_def) (simp add: num_value_def digit_val_def)
next
  case False
  assume "num_end r"
  with False num_string_span [of 10 n r] base_prefix_num_string [of r n] show ?thesis
    by (simp add: strtoul0_def num_value_num_string)
qed

lemma num_string_cons: "\<exists>c t. num_string 10 n = c # t \<and> isdigit c"
  using hd_num_string_digit [of n] by (cases "num_string 10 n") auto

lemma aton_parts_last: "n \<le> 255 \<Longrightarrow> aton_parts k (num_string 10 n) = Some [n]"
  using num_string_cons [of n] strtoul0_num_string [of "[]" n]
  by (subst aton_parts.simps) (auto simp: num_end_def)

lemma aton_parts_dot:
  "n \<le> 255 \<Longrightarrow>
     aton_parts (Suc k) (num_string 10 n @ CHR ''.'' # r) = map_option ((#) n) (aton_parts k r)"
  using num_string_cons [of n] strtoul0_num_string [of "CHR ''.'' # r" n]
  by (subst aton_parts.simps) (auto simp: num_end_def)

lemma addr_byte_le [simp]: "addr_byte i a \<le> 255"
proof -
  have "addr_byte i a < 256" by (simp add: addr_byte_def)
  then show ?thesis by simp
qed

lemma addr_bytes_sum:
  "16777216 * addr_byte 3 a + 65536 * addr_byte 2 a + 256 * addr_byte 1 a + addr_byte 0 a = unat a"
proof -
  define n where "n = unat a"
  have "n < 2 ^ 32" using unsigned_less [of a] by (simp add: n_def)
  define x where "x = n div 256"
  define y where "y = x div 256"
  define z where "z = y div 256"
  have y: "n div 65536 = y" and z: "n div 16777216 = z"
    by (simp_all add: x_def y_def z_def flip: div_mult2_eq)
  have "z < 256" using \<open>n < 2 ^ 32\<close> by (simp add: div_less_iff_less_mult flip: z)
  then have "z mod 256 = z" by simp
  moreover have "n = 256 * x + n mod 256" "x = 256 * y + x mod 256" "y = 256 * z + y mod 256"
    by (simp_all add: x_def y_def z_def)
  moreover have "addr_byte 0 a = n mod 256" "addr_byte 1 a = x mod 256"
    "addr_byte 2 a = y mod 256" "addr_byte 3 a = z mod 256"
    by (simp_all add: addr_byte_def n_def [symmetric] x_def [symmetric] y z)
  ultimately show ?thesis unfolding n_def [symmetric] by linarith
qed

text \<open>Reading a printed address gives the address.\<close>

lemma inet_aton_ntoa: "inet_aton (inet_ntoa a) = Some a"
proof -
  have "aton_parts 3 (inet_ntoa a)
      = Some [addr_byte 3 a, addr_byte 2 a, addr_byte 1 a, addr_byte 0 a]"
    by (simp add: inet_ntoa_def numeral_3_eq_3 aton_parts_dot aton_parts_last)
  moreover have "\<not> addr_byte 0 a > aton_limit (Suc (Suc (Suc (Suc 0))))" by (simp add: aton_limit_def not_less)
  moreover have "(of_nat (aton_value [addr_byte 3 a, addr_byte 2 a, addr_byte 1 a, addr_byte 0 a]) :: u32)
      = of_nat (unat a)"
    by (simp only: aton_value.simps addr_bytes_sum)
  ultimately show ?thesis
    by (simp only: inet_aton_def option.case last.simps list.simps if_False list.size) simp
qed

lemma num_string_isdigit: "num_end r \<Longrightarrow>
    takeWhile isdigit (num_string 10 n @ r) = num_string 10 n \<and>
    dropWhile isdigit (num_string 10 n @ r) = r"
proof -
  assume r: "num_end r"
  note ds = num_string_all_digits [of n]
  have "takeWhile isdigit r = []" "dropWhile isdigit r = r"
    using r by (cases r; auto simp: num_end_def)+
  with ds show ?thesis by (simp add: takeWhile_append2 dropWhile_append2)
qed

lemma isdigit_not_space: "isdigit c \<Longrightarrow> \<not> isspace c \<and> c \<noteq> CHR ''-'' \<and> c \<noteq> CHR ''+''"
  by (auto simp: isdigit_def isspace_def)

lemma scan_u_num_string:
  "num_end r \<Longrightarrow> n \<le> 255 \<Longrightarrow> scan_u (num_string 10 n @ r) = Some (of_nat n, r)"
proof -
  assume r: "num_end r" and n: "n \<le> 255"
  obtain c t where c: "num_string 10 n = c # t" "isdigit c"
    using num_string_cons [of n] by blast
  then have "scan_u (num_string 10 n @ r) = scan_digits (num_string 10 n @ r)"
    by (simp add: scan_u_def isdigit_not_space)
  also have "\<dots> = Some (of_nat n, r)"
    using num_string_isdigit [OF r, of n] n by (simp add: scan_digits_def num_value_num_string)
  finally show ?thesis .
qed

lemma scan_dotted_dot:
  "n \<le> 255 \<Longrightarrow>
     scan_dotted (Suc (Suc k)) (num_string 10 n @ CHR ''.'' # r) = of_nat n # scan_dotted (Suc k) r"
  using scan_u_num_string [of "CHR ''.'' # r" n] by (simp add: num_end_def)

lemma scan_dotted_last: "n \<le> 255 \<Longrightarrow> scan_dotted (Suc 0) (num_string 10 n) = [of_nat n]"
  using scan_u_num_string [of "[]" n] by (simp add: num_end_def)

lemma scan_dotted_ntoa:
  "scan_dotted 4 (inet_ntoa a) =
     [of_nat (addr_byte 3 a), of_nat (addr_byte 2 a), of_nat (addr_byte 1 a), of_nat (addr_byte 0 a)]"
proof -
  have four: "(4::nat) = Suc (Suc (Suc (Suc 0)))" by simp
  show ?thesis
    by (simp add: four inet_ntoa_def scan_dotted_dot scan_dotted_last del: scan_dotted.simps)
qed

lemma nul_notin_inet_ntoa [simp]: "NUL \<notin> set (inet_ntoa a)"
  by (simp add: inet_ntoa_def) (simp add: NUL_def)

lemma length_inet_ntoa: "length (inet_ntoa a) \<le> 15"
proof -
  have "length (num_string 10 (addr_byte i a)) \<le> 3" for i
    using length_num_string_le [of 10 3 "addr_byte i a"] addr_byte_le [of i a] by simp
  from this [of 0] this [of 1] this [of 2] this [of 3] show ?thesis
    by (simp add: inet_ntoa_def)
qed

end
