(* ===== verification/Snmp_Net.thy ===== *)
theory Snmp_Net
  imports Platform C_Inet
begin

text \<open>
  The network configuration part of \<open>snmp.c\<close>: validation of addresses and netmasks, reading
  and setting the address of the interface, reading and replacing the default gateway. The
  kernel's answers come from the environment, the requests are recorded in the history.
\<close>

subsection \<open>Socket requests\<close>

definition SIOCADDRT :: nat where "SIOCADDRT = 0x890B"

definition SIOCDELRT :: nat where "SIOCDELRT = 0x890C"

definition SIOCGIFFLAGS :: nat where "SIOCGIFFLAGS = 0x8913"

definition SIOCSIFFLAGS :: nat where "SIOCSIFFLAGS = 0x8914"

definition SIOCGIFADDR :: nat where "SIOCGIFADDR = 0x8915"

definition SIOCSIFADDR :: nat where "SIOCSIFADDR = 0x8916"

definition SIOCGIFNETMASK :: nat where "SIOCGIFNETMASK = 0x891b"

definition SIOCSIFNETMASK :: nat where "SIOCSIFNETMASK = 0x891c"

definition SIOCGIFHWADDR :: nat where "SIOCGIFHWADDR = 0x8927"

lemmas sioc_defs [const_defs] = SIOCADDRT_def SIOCDELRT_def SIOCGIFFLAGS_def SIOCSIFFLAGS_def
  SIOCGIFADDR_def SIOCSIFADDR_def SIOCGIFNETMASK_def SIOCSIFNETMASK_def SIOCGIFHWADDR_def

subsection \<open>Validation\<close>

definition is_valid_ip :: "string \<Rightarrow> int" where
  "is_valid_ip ipaddr = (case inet_aton ipaddr of None \<Rightarrow> -1 | Some a \<Rightarrow> 0)"

text \<open>
  The four numbers are locals without an initial value; \<open>garbage\<close> is what \<open>n[0]\<close> to \<open>n[3]\<close>
  hold when \<open>sscanf\<close> does not reach them. \<open>sscanf\<close> fills them from the last to the first.
\<close>

definition scanned_parts :: "u32 list \<Rightarrow> u32 list \<Rightarrow> u32 list" where
  "scanned_parts garbage vs = rev (vs @ drop (length vs) (rev garbage))"

fun sum_shifted :: "nat \<Rightarrow> u32 list \<Rightarrow> u32" where
  "sum_shifted i [] = 0"
| "sum_shifted i (n # ns) = push_bit (i * 8) n + sum_shifted (Suc i) ns"

definition is_valid_netmask :: "u32 list \<Rightarrow> string \<Rightarrow> int" where
  "is_valid_netmask garbage netmask =
     (if is_valid_ip netmask = 0 then
        (let b = sum_shifted 0 (scanned_parts garbage (scan_dotted 4 netmask));
             b = NOT b + 1
         in if b AND (b - 1) = 0 then 0 else -1)
      else -1)"

subsection \<open>Interface parameters\<close>

text \<open>\<open>sin_addr\<close> is bytes 2 to 5 of \<open>sa_data\<close>, in network order.\<close>

definition sin_addr :: "(nat \<Rightarrow> char) \<Rightarrow> u32" where
  "sin_addr sa = of_nat (16777216 * of_char (sa 2) + 65536 * of_char (sa 3)
                         + 256 * of_char (sa 4) + of_char (sa 5))"

definition mac_text :: "(nat \<Rightarrow> char) \<Rightarrow> string" where
  "mac_text sa =
     fmt_02x (sa 0) @ '':'' @ fmt_02x (sa 1) @ '':'' @ fmt_02x (sa 2) @ '':'' @
     fmt_02x (sa 3) @ '':'' @ fmt_02x (sa 4) @ '':'' @ fmt_02x (sa 5)"

definition get_net_parameter ::
  "env \<Rightarrow> string option \<Rightarrow> nat \<Rightarrow> 'z plat_scheme \<Rightarrow> (int \<times> string option \<times> 'z plat_scheme) option" where
  "get_net_parameter E para_get flag s =
     (case para_get of
        None \<Rightarrow> Some (-1, None, s)
      | Some buf \<Rightarrow>
          (let (socket_get, s) = sys_socket E s
           in if socket_get = -1 then Some (-1, Some buf, s)
              else
                (let (reply, s) = sys_if_ioctl E socket_get flag None s
                 in case reply of
                      None \<Rightarrow> Some (-1, Some buf, s)
                    | Some sa \<Rightarrow>
                        map_option (\<lambda>buf'. (0, Some buf', sys_close socket_get s))
                          (if flag = SIOCGIFHWADDR then c_store buf 0 (mac_text sa)
                           else c_store buf 0 (inet_ntoa (sin_addr sa))))))"

text \<open>
  \<open>sockfd_0\<close> is the uninitialised descriptor that is used when \<open>flag\<close> is 0. The update of
  \<open>ifr_flags\<close> at the end only changes a local that is not used again.
\<close>

definition set_net_parameter ::
  "env \<Rightarrow> int \<Rightarrow> string option \<Rightarrow> nat \<Rightarrow> 'z plat_scheme \<Rightarrow> int \<times> 'z plat_scheme" where
  "set_net_parameter E sockfd_0 addr_text flag s =
     (case addr_text of
        None \<Rightarrow> (-1, s)
      | Some text \<Rightarrow>
          (let (sockfd, s) = (if flag \<noteq> 0 then sys_socket E s else (sockfd_0, s))
           in if sockfd = -1 then (-1, s)
              else
                (let (reply, s) = sys_if_ioctl E sockfd SIOCGIFFLAGS None s
                 in if reply = None then (-1, sys_close sockfd s)
                    else
                      (let sin = (case inet_aton text of None \<Rightarrow> 0 | Some a \<Rightarrow> a);
                           (reply, s) = sys_if_ioctl E sockfd flag (Some sin) s
                       in if reply = None then (-1, sys_close sockfd s)
                          else (0, sys_close sockfd s)))))"

definition set_netmask ::
  "env \<Rightarrow> string \<Rightarrow> 'z plat_scheme \<Rightarrow> int \<times> 'z plat_scheme" where
  "set_netmask E netmask s =
     (if is_valid_netmask (map (e_garbage E (hist s)) [0, 1, 2, 3]) netmask \<noteq> 0 then (-1, s)
      else set_net_parameter E 0 (Some netmask) SIOCSIFNETMASK s)"

definition set_ipaddress :: "env \<Rightarrow> string \<Rightarrow> 'z plat_scheme \<Rightarrow> int \<times> 'z plat_scheme" where
  "set_ipaddress E ip s =
     (if is_valid_ip ip \<noteq> 0 then (-1, s)
      else set_net_parameter E 0 (Some ip) SIOCSIFADDR s)"

subsection \<open>The default gateway\<close>

definition MAX_LINE :: nat where
  "MAX_LINE = 256"

text \<open>
  The loop stops at the first line that starts with \<open>default\<close> behind white space; \<open>buf\<close> then
  holds it, and otherwise the last line read. No line at all leaves \<open>buf\<close> without a value.
\<close>

definition is_default_line :: "string \<Rightarrow> bool" where
  "is_default_line l \<longleftrightarrow> prefix ''default'' (dropWhile isspace l)"

fun route_loop :: "string option \<Rightarrow> string list \<Rightarrow> string option" where
  "route_loop buf [] = buf"
| "route_loop buf (l # ls) =
     (if is_default_line l then Some l else route_loop (Some l) ls)"

text \<open>\<open>sscanf (buf, "%*s%*s%s", gateway)\<close>: the third word, if there is one.\<close>

definition third_word :: "string \<Rightarrow> string option" where
  "third_word s =
     (case scan_token s of
        None \<Rightarrow> None
      | Some (_, r) \<Rightarrow>
          (case scan_token r of
             None \<Rightarrow> None
           | Some (_, r') \<Rightarrow> map_option fst (scan_token r')))"

definition get_gateway ::
  "env \<Rightarrow> string \<Rightarrow> 'z plat_scheme \<Rightarrow> (int \<times> string \<times> 'z plat_scheme) option" where
  "get_gateway E gateway s =
     (let (fp, s) = sys_popen E ''ip route'' s
      in case fp of
           None \<Rightarrow> Some (-1, gateway, s)
         | Some ls \<Rightarrow>
             (case route_loop None ls of
                None \<Rightarrow> None
              | Some buf \<Rightarrow>
                  (case third_word buf of
                     None \<Rightarrow> Some (0, gateway, emit Ev_pclose s)
                   | Some w \<Rightarrow> map_option (\<lambda>g. (0, g, emit Ev_pclose s)) (c_store gateway 0 w))))"

definition set_gateway :: "env \<Rightarrow> string \<Rightarrow> 'z plat_scheme \<Rightarrow> int \<times> 'z plat_scheme" where
  "set_gateway E ip s =
     (if is_valid_ip ip < 0 then (-1, s)
      else
        (let (sockFd, s) = sys_socket E s
         in if sockFd < 0 then (-1, s)
            else
              (let (deleted, s) = sys_rt_ioctl E sockFd SIOCDELRT None s
               in if \<not> deleted then (-1, sys_close sockFd s)
                  else
                    (let gw = (case inet_aton ip of None \<Rightarrow> 0 | Some a \<Rightarrow> a);
                         (added, s) = sys_rt_ioctl E sockFd SIOCADDRT (Some gw) s
                     in if \<not> added then (-1, sys_close sockFd s) else (0, s)))))"

subsection \<open>Lemmas\<close>

lemma is_valid_ip_iff: "is_valid_ip s = 0 \<longleftrightarrow> inet_aton s \<noteq> None"
  by (auto simp: is_valid_ip_def split: option.splits)

lemma is_valid_ip_neg: "is_valid_ip s < 0 \<longleftrightarrow> inet_aton s = None"
  by (auto simp: is_valid_ip_def split: option.splits)

lemma scanned_parts_full: "length vs = length garbage \<Longrightarrow> scanned_parts garbage vs = rev vs"
  by (simp add: scanned_parts_def)

text \<open>The shifted sum over the bytes of an address is the address.\<close>

lemma push_bit_of_nat: "push_bit k (of_nat n :: u32) = of_nat (n * 2 ^ k)"
  by (simp add: push_bit_eq_mult mult.commute)

lemma sum_shifted_bytes:
  "sum_shifted 0 [of_nat (addr_byte 0 a), of_nat (addr_byte 1 a), of_nat (addr_byte 2 a),
      of_nat (addr_byte 3 a)] = a"
proof -
  have "sum_shifted 0 [of_nat (addr_byte 0 a), of_nat (addr_byte 1 a), of_nat (addr_byte 2 a),
      of_nat (addr_byte 3 a)]
      = of_nat (16777216 * addr_byte 3 a + 65536 * addr_byte 2 a + 256 * addr_byte 1 a
          + addr_byte 0 a)"
    by (simp add: push_bit_eq_mult ac_simps)
  also have "\<dots> = of_nat (unat a)" by (simp only: addr_bytes_sum)
  finally show ?thesis by simp
qed

lemma is_valid_netmask_ntoa:
  assumes "length garbage = 4"
  shows "is_valid_netmask garbage (inet_ntoa a) = 0 \<longleftrightarrow> (- a) AND (- a - 1) = 0"
proof -
  have "sum_shifted 0 (scanned_parts garbage (scan_dotted 4 (inet_ntoa a))) = a"
    using assms sum_shifted_bytes [of a] by (simp add: scan_dotted_ntoa scanned_parts_full)
  moreover have "NOT a = - a - 1" by (simp add: not_eq_complement)
  ultimately show ?thesis
    by (simp add: is_valid_netmask_def is_valid_ip_iff inet_aton_ntoa Let_def)
qed

text \<open>Network operations change nothing in the state but the history.\<close>

lemma set_net_parameter_frame:
  "set_net_parameter E g text flag s = (r, s') \<Longrightarrow> \<exists>h. s' = s\<lparr>hist := h\<rparr>"
  by (auto simp: set_net_parameter_def sys_defs emit_def Let_def split: option.splits if_splits)

lemma set_ipaddress_frame: "set_ipaddress E ip s = (r, s') \<Longrightarrow> \<exists>h. s' = s\<lparr>hist := h\<rparr>"
  by (auto simp: set_ipaddress_def dest: set_net_parameter_frame split: if_splits
      intro: exI [of _ "hist s"])

lemma set_netmask_frame: "set_netmask E ip s = (r, s') \<Longrightarrow> \<exists>h. s' = s\<lparr>hist := h\<rparr>"
  by (auto simp: set_netmask_def dest: set_net_parameter_frame split: if_splits
      intro: exI [of _ "hist s"])

lemma set_gateway_frame: "set_gateway E ip s = (r, s') \<Longrightarrow> \<exists>h. s' = s\<lparr>hist := h\<rparr>"
  by (auto simp: set_gateway_def sys_defs emit_def Let_def split: option.splits if_splits
      intro: exI [of _ "hist s"])

lemma get_net_parameter_frame:
  "get_net_parameter E b flag s = Some (r, b', s') \<Longrightarrow> \<exists>h. s' = s\<lparr>hist := h\<rparr>"
  by (auto simp: get_net_parameter_def sys_defs emit_def Let_def
      split: option.splits if_splits)

lemma get_gateway_frame:
  "get_gateway E g s = Some (r, g', s') \<Longrightarrow> \<exists>h. s' = s\<lparr>hist := h\<rparr>"
  by (auto simp: get_gateway_def sys_defs emit_def Let_def split: option.splits)

text \<open>Reading an interface parameter into a buffer of 18 bytes or more stays inside it.\<close>

lemma fmt_02x_props [simp]: "length (fmt_02x c) = 2" "NUL \<notin> set (fmt_02x c)"
proof -
  have "of_char c < (256 :: nat)" by simp
  then have "of_char c div 16 < (16 :: nat)" by (simp add: div_less_iff_less_mult)
  then have "digit_char (of_char c div 16) \<noteq> NUL" "digit_char (of_char c mod 16) \<noteq> NUL"
    by simp_all
  then show "NUL \<notin> set (fmt_02x c)" unfolding fmt_02x_def by (metis empty_iff empty_set set_ConsD)
qed (simp add: fmt_02x_def)

lemma mac_text_props: "length (mac_text sa) = 17" "NUL \<notin> set (mac_text sa)"
  by (simp_all add: mac_text_def) (simp add: NUL_def)

definition good_buffer :: "nat \<Rightarrow> nat \<Rightarrow> string \<Rightarrow> bool" where
  "good_buffer n k b \<longleftrightarrow> length b = n \<and> has_nul b \<and> length (cstr b) \<le> k"

lemma good_buffer_zeros: "0 < n \<Longrightarrow> good_buffer n k (zeros n)"
  by (simp add: good_buffer_def cstr_zeros)

lemma get_net_parameter_total:
  assumes "good_buffer n 17 buf" and "18 \<le> n"
  shows "\<exists>r buf' h. get_net_parameter E (Some buf) flag s = Some (r, Some buf', s\<lparr>hist := h\<rparr>) \<and>
           good_buffer n 17 buf'"
proof -
  have store: "\<exists>b. c_store buf 0 t = Some b \<and> good_buffer n 17 b"
    if "length t \<le> 17" "NUL \<notin> set t" for t
  proof -
    have "0 + length t < length buf" using assms that(1) by (simp add: good_buffer_def)
    then obtain b where "c_store buf 0 t = Some b" using c_store_ok by blast
    with that assms show ?thesis
      by (auto simp: good_buffer_def c_store_length c_store_read0 c_store_has_nul)
  qed
  show ?thesis
  proof (cases "e_if_ioctl E (hist s @ [Ev_socket]) (e_socket E (hist s)) flag")
    case None
    with assms(1) show ?thesis by (auto simp: get_net_parameter_def sys_defs emit_def)
  next
    case (Some sa)
    have "\<exists>b. (if flag = SIOCGIFHWADDR then c_store buf 0 (mac_text sa)
        else c_store buf 0 (inet_ntoa (sin_addr sa))) = Some b \<and> good_buffer n 17 b"
    proof (cases "flag = SIOCGIFHWADDR")
      case True
      then show ?thesis using store [of "mac_text sa"] mac_text_props [of sa] by simp
    next
      case False
      have "length (inet_ntoa (sin_addr sa)) \<le> 17" using length_inet_ntoa [of "sin_addr sa"] by simp
      with False show ?thesis using store [of "inet_ntoa (sin_addr sa)"] by simp
    qed
    with Some assms(1) show ?thesis
      by (auto simp: get_net_parameter_def sys_defs emit_def)
  qed
qed

text \<open>
  The address of the interface as a caller sees it who asks for it after the history \<open>h\<close>, with an
  empty buffer: nothing when there is no socket or the kernel refuses the request; and the calls
  this makes, without a close when the request is refused.
\<close>

definition address_text :: "env \<Rightarrow> history \<Rightarrow> string" where
  "address_text E h =
     (if e_socket E h = -1 then []
      else case e_if_ioctl E (h @ [Ev_socket]) (e_socket E h) SIOCGIFADDR of
             None \<Rightarrow> [] | Some sa \<Rightarrow> inet_ntoa (sin_addr sa))"

definition address_calls :: "env \<Rightarrow> history \<Rightarrow> history" where
  "address_calls E h =
     (if e_socket E h = -1 then [Ev_socket]
      else [Ev_socket, Ev_if_ioctl (e_socket E h) SIOCGIFADDR None] @
        (if e_if_ioctl E (h @ [Ev_socket]) (e_socket E h) SIOCGIFADDR = None then []
         else [Ev_close (e_socket E h)]))"

lemma get_address:
  assumes "18 \<le> n"
  obtains r b where "get_net_parameter E (Some (zeros n)) SIOCGIFADDR s =
       Some (r, Some b, s\<lparr>hist := hist s @ address_calls E (hist s)\<rparr>)"
    and "good_buffer n 17 b" and "cstr b = address_text E (hist s)"
proof (cases "e_if_ioctl E (hist s @ [Ev_socket]) (e_socket E (hist s)) SIOCGIFADDR")
  case None
  with that [of "-1" "zeros n"] assms show ?thesis
    by (auto simp: get_net_parameter_def sys_defs emit_def address_calls_def address_text_def
        good_buffer_zeros cstr_zeros)
next
  case (Some sa)
  let ?t = "inet_ntoa (sin_addr sa)"
  have l: "length ?t < length (zeros n)" using assms length_inet_ntoa [of "sin_addr sa"] by simp
  then obtain b where b: "c_store (zeros n) 0 ?t = Some b" using c_store_ok [of 0 ?t "zeros n"] by auto
  have g: "good_buffer n 17 b" "cstr b = ?t"
    using c_store_length [OF b] c_store_read0 [OF b] c_store_has_nul [OF b] length_inet_ntoa [of "sin_addr sa"]
    by (simp_all add: good_buffer_def)
  have "SIOCGIFADDR \<noteq> SIOCGIFHWADDR" by (simp add: sioc_defs)
  note defs = get_net_parameter_def sys_defs emit_def address_calls_def address_text_def
  show ?thesis
  proof (cases "e_socket E (hist s) = -1")
    case True
    with that [of "-1" "zeros n"] assms show ?thesis by (simp add: defs good_buffer_zeros cstr_zeros)
  next
    case False
    with that [of 0 b] g b Some \<open>SIOCGIFADDR \<noteq> SIOCGIFHWADDR\<close> show ?thesis by (simp add: defs)
  qed
qed

text \<open>
  Reading the gateway stays inside its buffers when the command delivers at least one line
  and every line is shorter than the caller's buffer.
\<close>

definition routes_ok :: "env \<Rightarrow> bool" where
  "routes_ok E \<longleftrightarrow>
     (\<forall>h c ls. e_popen E h c = Some ls \<longrightarrow>
        ls \<noteq> [] \<and> (\<forall>l \<in> set ls. length l < MAX_LINE \<and> NUL \<notin> set l))"

lemma scan_token_props:
  assumes "scan_token s = Some (tok, r)"
  shows "length tok \<le> length s" and "length r \<le> length s" and "set tok \<subseteq> set s" and "set r \<subseteq> set s"
proof -
  have tok: "tok = takeWhile (\<lambda>c. \<not> isspace c) (dropWhile isspace s)"
    and r: "r = dropWhile (\<lambda>c. \<not> isspace c) (dropWhile isspace s)"
    using assms by (auto simp: scan_token_def Let_def split: if_splits)
  show "length tok \<le> length s" "length r \<le> length s"
    unfolding tok r by (meson length_dropWhile_le length_takeWhile_le order_trans)+
  show "set tok \<subseteq> set s" "set r \<subseteq> set s"
    unfolding tok r by (meson set_dropWhileD set_takeWhileD subsetI)+
qed

lemma third_word_props:
  assumes "third_word s = Some w"
  shows "length w \<le> length s" and "set w \<subseteq> set s"
proof -
  obtain a r b r' r'' where "scan_token s = Some (a, r)" "scan_token r = Some (b, r')"
    "scan_token r' = Some (w, r'')"
    using assms by (auto simp: third_word_def split: option.splits)
  then show "length w \<le> length s" "set w \<subseteq> set s"
    using scan_token_props [of s a r] scan_token_props [of r b r'] scan_token_props [of r' w r'']
    by auto
qed

lemma route_loop_member: "route_loop buf ls = Some l \<Longrightarrow> buf = Some l \<or> l \<in> set ls"
  by (induction ls arbitrary: buf) (auto split: if_splits)

lemma route_loop_some: "ls \<noteq> [] \<or> buf \<noteq> None \<Longrightarrow> \<exists>l. route_loop buf ls = Some l"
  by (induction ls arbitrary: buf) auto

lemma get_gateway_total:
  assumes "routes_ok E" and "good_buffer MAX_LINE 255 g"
  shows "\<exists>r g' h. get_gateway E g s = Some (r, g', s\<lparr>hist := h\<rparr>) \<and> good_buffer MAX_LINE 255 g'"
proof (cases "e_popen E (hist s) ''ip route''")
  case None
  with assms(2) show ?thesis by (auto simp: get_gateway_def sys_popen_def emit_def)
next
  case (Some ls)
  with assms(1) have ls: "ls \<noteq> []" "\<forall>l \<in> set ls. length l < MAX_LINE \<and> NUL \<notin> set l"
    unfolding routes_ok_def by blast+
  then obtain l where l: "route_loop None ls = Some l" "l \<in> set ls"
    using route_loop_some [of ls None] route_loop_member [of None ls] by blast
  show ?thesis
  proof (cases "third_word l")
    case None
    with Some l assms(2) show ?thesis by (auto simp: get_gateway_def sys_popen_def emit_def)
  next
    case (Some w)
    with third_word_props [OF Some] ls(2) l(2)
    have w: "length w < MAX_LINE" "NUL \<notin> set w" by force+
    then obtain g' where g': "c_store g 0 w = Some g'"
      using c_store_ok [of 0 w g] assms(2) by (auto simp: good_buffer_def)
    have "good_buffer MAX_LINE 255 g'"
      using g' w assms(2)
      by (auto simp: good_buffer_def MAX_LINE_def c_store_length c_store_read0 c_store_has_nul)
    with g' Some l \<open>e_popen E (hist s) ''ip route'' = Some ls\<close> show ?thesis
      by (auto simp: get_gateway_def sys_popen_def emit_def)
  qed
qed

text \<open>The outcomes of setting an interface parameter, with the requests each one made.\<close>

lemma set_net_parameter_cases:
  assumes "flag \<noteq> 0" and "inet_aton text = Some a" and "fd = e_socket E (hist s)"
  shows "set_net_parameter E g (Some text) flag s =
    (if fd = -1 then (-1, emit Ev_socket s)
     else if e_if_ioctl E (hist s @ [Ev_socket]) fd SIOCGIFFLAGS = None
     then (-1, s\<lparr>hist := hist s @ [Ev_socket, Ev_if_ioctl fd SIOCGIFFLAGS None, Ev_close fd]\<rparr>)
     else
       ((if e_if_ioctl E (hist s @ [Ev_socket, Ev_if_ioctl fd SIOCGIFFLAGS None]) fd flag = None
         then -1 else 0),
        s\<lparr>hist := hist s @ [Ev_socket, Ev_if_ioctl fd SIOCGIFFLAGS None,
                            Ev_if_ioctl fd flag (Some a), Ev_close fd]\<rparr>))"
  using assms by (simp add: set_net_parameter_def sys_defs emit_def Let_def)

subsection \<open>Properties\<close>

lemma neg_power_mask: "- a = 2 ^ n \<longleftrightarrow> a = NOT (mask n)" for a :: u32
proof
  assume "- a = 2 ^ n"
  then have "a = - (2 ^ n)" by (metis minus_minus)
  then show "a = NOT (mask n)" by (simp add: mask_eq_exp_minus_1 not_eq_complement)
next
  assume "a = NOT (mask n)"
  then show "- a = 2 ^ n" by (simp add: mask_eq_exp_minus_1 not_eq_complement)
qed

lemma not_mask_32: "NOT (mask 32) = (0 :: u32)"
  by (rule bit_word_eqI) (simp add: bit_simps)

text \<open>
  C34. The netmask test accepts a dotted quad exactly when it denotes ones followed by zeros:
  32 - n leading ones for some n up to 32 (so 0.0.0.0 and 255.255.255.255 are accepted).
\<close>

theorem netmask_accepts_contiguous:
  assumes "length garbage = 4"
  shows "is_valid_netmask garbage (inet_ntoa a) = 0 \<longleftrightarrow> (\<exists>n \<le> 32. a = NOT (mask n))"
proof -
  have "is_valid_netmask garbage (inet_ntoa a) = 0 \<longleftrightarrow> - a = 0 \<or> (\<exists>n < 32. - a = 2 ^ n)"
    using is_valid_netmask_ntoa [OF assms, of a] word_and_pred_zero [of "- a"] by simp
  also have "\<dots> \<longleftrightarrow> a = NOT (mask 32) \<or> (\<exists>n < 32. a = NOT (mask n))"
    by (simp add: neg_power_mask not_mask_32)
  also have "\<dots> \<longleftrightarrow> (\<exists>n \<le> 32. a = NOT (mask n))"
    by (auto simp: le_less)
  finally show ?thesis .
qed

theorem netmask_accepts_contiguous_witness:
  "is_valid_netmask [1, 2, 3, 4] (inet_ntoa (NOT (mask 8))) = 0"
proof -
  have "length [1, 2, 3, 4 :: u32] = 4" by simp
  from netmask_accepts_contiguous [OF this, of "NOT (mask 8)"] show ?thesis
    by (metis numeral_le_iff semiring_norm(68) semiring_norm(69) semiring_norm(71))
qed

lemma short_form_parts: "aton_parts 3 ''255.255.0'' = Some [255, 255, 0]"
  by (simp add: aton_parts.simps strtoul0_def base_prefix_def is_digit_in_def digit_val_def
      num_value_def isdigit_def)

lemma short_form_scan: "scan_dotted 4 ''255.255.0'' = [255, 255, 0]"
proof -
  have four: "(4::nat) = Suc (Suc (Suc (Suc 0)))" by simp
  show ?thesis
    unfolding four by (simp add: scan_u_def scan_digits_def num_value_def digit_val_def
        isdigit_def isspace_def Let_def)
qed

text \<open>
  An address that \<open>inet_aton\<close> accepts in a shorter form leaves some of the four numbers of
  the netmask test unset, and the verdict then depends on what the stack held: 255.255.0,
  which denotes 255.255.0.0, is accepted with one value of \<open>n[0]\<close> and refused with another.
\<close>

theorem netmask_verdict_depends_on_garbage:
  "inet_aton ''255.255.0'' = Some 0xFFFF0000 \<and>
   is_valid_netmask [0, 0, 0, 0] ''255.255.0'' = 0 \<and>
   is_valid_netmask [1, 0, 0, 0] ''255.255.0'' = -1"
  by (simp add: short_form_parts short_form_scan is_valid_netmask_def is_valid_ip_def inet_aton_def
      aton_limit_def scanned_parts_def)

text \<open>
  C36. Reading an interface address is a round trip: on success the buffer holds the text of
  the address the kernel delivered, \<open>inet_aton\<close> reads that text back to the same address, and
  the socket is closed again.
\<close>

theorem get_net_parameter_address:
  assumes "16 \<le> length buf" and "flag \<noteq> SIOCGIFHWADDR" and "e_socket E (hist s) = fd"
    and "fd \<noteq> -1" and "e_if_ioctl E (hist s @ [Ev_socket]) fd flag = Some sa"
  shows "\<exists>buf'. get_net_parameter E (Some buf) flag s =
             Some (0, Some buf', s\<lparr>hist := hist s @
                [Ev_socket, Ev_if_ioctl fd flag None, Ev_close fd]\<rparr>)
         \<and> length buf' = length buf \<and> inet_aton (cstr buf') = Some (sin_addr sa)"
proof -
  obtain buf' where buf': "c_store buf 0 (inet_ntoa (sin_addr sa)) = Some buf'"
    using c_store_ok [of 0 "inet_ntoa (sin_addr sa)" buf] length_inet_ntoa [of "sin_addr sa"]
      assms(1) by auto
  with assms show ?thesis
    by (auto simp: get_net_parameter_def sys_defs emit_def c_store_length c_store_read0
        inet_aton_ntoa)
qed

theorem get_net_parameter_address_witness:
  "\<exists>buf'. get_net_parameter idle_env (Some (zeros 256)) SIOCGIFADDR (\<lparr>hist = []\<rparr> :: plat)
      = Some (0, Some buf', \<lparr>hist =
           [Ev_socket, Ev_if_ioctl 3 SIOCGIFADDR None, Ev_close 3]\<rparr>)
    \<and> inet_aton (cstr buf') = Some (sin_addr (\<lambda>i. CHR 0x00))"
  using get_net_parameter_address [of "zeros 256" SIOCGIFADDR idle_env "\<lparr>hist = []\<rparr> :: plat" 3
      "\<lambda>i. CHR 0x00"]
  by (auto simp: idle_env_def sioc_defs)

text \<open>
  The failure path of the same function leaks: when the kernel refuses the request, it
  returns -1 with the socket it opened still open.
\<close>

theorem get_net_parameter_leaks_socket:
  assumes "e_socket E (hist s) = fd" and "fd \<noteq> -1"
    and "e_if_ioctl E (hist s @ [Ev_socket]) fd flag = None"
  shows "get_net_parameter E (Some buf) flag s =
           Some (-1, Some buf, s\<lparr>hist := hist s @ [Ev_socket, Ev_if_ioctl fd flag None]\<rparr>)"
  using assms by (simp add: get_net_parameter_def sys_defs emit_def)

definition no_if_env :: env where
  "no_if_env = idle_env\<lparr>e_if_ioctl := \<lambda>h fd r. None\<rparr>"

theorem get_net_parameter_leaks_socket_witness:
  "get_net_parameter no_if_env (Some []) SIOCGIFADDR (\<lparr>hist = []\<rparr> :: plat) =
     Some (-1, Some [], \<lparr>hist = [Ev_socket, Ev_if_ioctl 3 SIOCGIFADDR None]\<rparr>)"
  using get_net_parameter_leaks_socket [of no_if_env "\<lparr>hist = []\<rparr> :: plat" 3 SIOCGIFADDR "[]"]
  by (simp add: no_if_env_def idle_env_def)

text \<open>
  C37. Setting the address: a text that \<open>inet_aton\<close> refuses is rejected with -1 before any system
  call. The result 0 means that the text denotes an address, that exactly this address was
  requested for the interface, after the flags had been read, and that the socket was
  closed. The flags themselves are never written (no \<open>SIOCSIFFLAGS\<close> request).
\<close>

theorem set_ipaddress_result:
  "set_ipaddress E ip s = (r, s') \<Longrightarrow>
     (if inet_aton ip = None then r = -1 \<and> s' = s
      else r = 0 \<longrightarrow>
        (\<exists>a fd. inet_aton ip = Some a \<and> fd = e_socket E (hist s) \<and>
           hist s' = hist s @ [Ev_socket, Ev_if_ioctl fd SIOCGIFFLAGS None,
                               Ev_if_ioctl fd SIOCSIFADDR (Some a), Ev_close fd]))"
  by (auto simp: set_ipaddress_def is_valid_ip_iff set_net_parameter_cases [OF _ _ refl] sioc_defs
      split: if_splits)

theorem set_ipaddress_result_witness:
  "hist (snd (set_ipaddress idle_env (inet_ntoa 7) (\<lparr>hist = []\<rparr> :: plat))) =
     [Ev_socket, Ev_if_ioctl 3 SIOCGIFFLAGS None, Ev_if_ioctl 3 SIOCSIFADDR (Some 7), Ev_close 3]"
proof -
  have r: "set_ipaddress idle_env (inet_ntoa 7) (\<lparr>hist = []\<rparr> :: plat) =
      (0, snd (set_ipaddress idle_env (inet_ntoa 7) (\<lparr>hist = []\<rparr> :: plat)))"
    by (simp add: set_ipaddress_def is_valid_ip_iff inet_aton_ntoa set_net_parameter_cases [OF _ _ refl]
        sioc_defs idle_env_def)
  from set_ipaddress_result [OF r] show ?thesis
    by (simp add: inet_aton_ntoa idle_env_def)
qed

text \<open>
  Replacing the gateway. A valid address on a working socket: the default route is deleted
  first; if that fails, or if adding the new route fails, the result is -1 and the socket is
  closed, in the second case with the old route gone; on success the socket stays open.
\<close>

theorem set_gateway_result:
  assumes "inet_aton ip = Some gw" and "e_socket E (hist s) = fd" and "0 \<le> fd"
  shows "set_gateway E ip s =
    (if \<not> e_rt_ioctl E (hist s @ [Ev_socket]) fd SIOCDELRT
     then (-1, s\<lparr>hist := hist s @ [Ev_socket, Ev_rt_ioctl fd SIOCDELRT None, Ev_close fd]\<rparr>)
     else if \<not> e_rt_ioctl E (hist s @ [Ev_socket, Ev_rt_ioctl fd SIOCDELRT None]) fd SIOCADDRT
     then (-1, s\<lparr>hist := hist s @ [Ev_socket, Ev_rt_ioctl fd SIOCDELRT None,
                                  Ev_rt_ioctl fd SIOCADDRT (Some gw), Ev_close fd]\<rparr>)
     else (0, s\<lparr>hist := hist s @ [Ev_socket, Ev_rt_ioctl fd SIOCDELRT None,
                                 Ev_rt_ioctl fd SIOCADDRT (Some gw)]\<rparr>))"
  using assms by (simp add: set_gateway_def is_valid_ip_neg sys_defs emit_def Let_def)

theorem set_gateway_result_witness:
  "set_gateway idle_env (inet_ntoa 9) (\<lparr>hist = []\<rparr> :: plat) =
     (0, \<lparr>hist = [Ev_socket, Ev_rt_ioctl 3 SIOCDELRT None, Ev_rt_ioctl 3 SIOCADDRT (Some 9)]\<rparr>)"
  using set_gateway_result [of "inet_ntoa 9" 9 idle_env "\<lparr>hist = []\<rparr> :: plat" 3]
  by (simp add: inet_aton_ntoa idle_env_def)

lemma route_loop_default:
  "\<forall>l \<in> set ls1. \<not> is_default_line l \<Longrightarrow>
     is_default_line d \<Longrightarrow>
     route_loop buf (ls1 @ d # ls2) = Some d"
  by (induction ls1 arbitrary: buf) auto

lemma route_loop_no_default:
  "\<forall>l \<in> set ls. \<not> is_default_line l \<Longrightarrow> ls \<noteq> [] \<Longrightarrow>
     route_loop buf ls = Some (last ls)"
proof (induction ls arbitrary: buf)
  case (Cons l ls)
  then show ?case by (cases ls) auto
qed simp

text \<open>
  C39. Reading the gateway: with a default route in the routing table, the third word of its
  line is stored (the first such line counts); without one, the third word of the last line
  of the table is reported as the gateway, with the same result 0.
\<close>

theorem get_gateway_result:
  assumes "e_popen E (hist s) ''ip route'' = Some ls" and "ls \<noteq> []"
    and "line = (if \<exists>l \<in> set ls. is_default_line l
                 then hd (filter is_default_line ls)
                 else last ls)"
    and "third_word line = Some w" and "length w < length gateway" and "NUL \<notin> set w"
  shows "\<exists>g s'. get_gateway E gateway s = Some (0, g, s') \<and> cstr g = w"
proof -
  have loop: "route_loop None ls = Some line"
  proof (cases "\<exists>l \<in> set ls. is_default_line l")
    case True
    then obtain ls1 d ls2 where ls: "ls = ls1 @ d # ls2"
      and d: "is_default_line d"
      and ls1: "\<forall>l \<in> set ls1. \<not> is_default_line l"
      by (metis split_list_first_prop)
    have "filter is_default_line ls1 = []" using ls1 by (simp add: filter_empty_conv)
    with True ls d have "line = d" using assms(3) by simp
    with route_loop_default [OF ls1 d] ls show ?thesis by simp
  next
    case False
    with assms(2,3) show ?thesis by (simp add: route_loop_no_default)
  qed
  obtain g where g: "c_store gateway 0 w = Some g"
    using c_store_ok [of 0 w gateway] assms(5) by auto
  with loop assms(1,4,6) show ?thesis
    by (auto simp: get_gateway_def sys_popen_def c_store_read0)
qed

definition route_env :: env where
  "route_env = idle_env\<lparr>e_popen := \<lambda>h c. Some [''192.168.1.0/24 dev eth0 scope link'']\<rparr>"

theorem get_gateway_result_witness:
  "\<exists>g s'. get_gateway route_env (zeros 256) (\<lparr>hist = []\<rparr> :: plat) = Some (0, g, s') \<and>
     cstr g = ''eth0''"
proof -
  have w: "third_word ''192.168.1.0/24 dev eth0 scope link'' = Some ''eth0''"
    by (simp add: third_word_def scan_token_def isspace_def)
  have nd: "\<not> is_default_line ''192.168.1.0/24 dev eth0 scope link''"
    by (simp add: is_default_line_def isspace_def)
  show ?thesis
    using get_gateway_result [of route_env "\<lparr>hist = []\<rparr> :: plat"
        "[''192.168.1.0/24 dev eth0 scope link'']" _ "''eth0''" "zeros 256", OF _ _ refl] nd w
    by (simp add: route_env_def NUL_def)
qed

end
