(* ===== verification/Snmp_Handlers.thy ===== *)
theory Snmp_Handlers
  imports Free_Lock_Queue Snmp_Net "HOL-Library.Monad_Syntax"
begin

text \<open>
  The request side of \<open>snmp.c\<close>: the state of the management threads, the construction of
  acknowledgements and traps, one handler per operation code, the table that selects the
  handler, and one turn of the receiving thread. A handler is the function from the message
  and the state to its return code and the new state, or \<open>None\<close> when it would leave its
  buffers.
\<close>

subsection \<open>State\<close>

datatype handler =
    H_0x01 | H_0x02 | H_0x03 | H_0x04 | H_0x05 | H_0x32 | H_0x36
  | H_0x60 | H_0x61 | H_0x62 | H_0x63 | H_0x64 | H_0x65 | H_0x66

text \<open>The handlers in the order of the table, as the library's enumeration of the type.\<close>

instantiation handler :: enum
begin

definition enum_handler :: "handler list" where
  "enum_handler = [H_0x01, H_0x02, H_0x03, H_0x04, H_0x05, H_0x32, H_0x36,
     H_0x60, H_0x61, H_0x62, H_0x63, H_0x64, H_0x65, H_0x66]"

definition enum_all_handler :: "(handler \<Rightarrow> bool) \<Rightarrow> bool" where
  "enum_all_handler P = list_all P Enum.enum"

definition enum_ex_handler :: "(handler \<Rightarrow> bool) \<Rightarrow> bool" where
  "enum_ex_handler P = list_ex P Enum.enum"

instance
proof
  have all: "h \<in> set Enum.enum" for h :: handler by (cases h) (simp_all add: enum_handler_def)
  then show U: "UNIV = set (Enum.enum :: handler list)" by auto
  show "distinct (Enum.enum :: handler list)" by (simp add: enum_handler_def)
  show "Enum.enum_all P = Ball UNIV P" for P :: "handler \<Rightarrow> bool"
    using all by (auto simp: enum_all_handler_def list_all_iff)
  show "Enum.enum_ex P = Bex UNIV P" for P :: "handler \<Rightarrow> bool"
    using all by (auto simp: enum_ex_handler_def list_ex_iff)
qed

end

text \<open>
  The queues of \<open>objSnmp\<close>, its semaphore \<open>send_ack.sem\<close>, the semaphores \<open>sem_var.full\<close>,
  \<open>sem_var.mutex\<close> and \<open>trapsignal\<close> by their values, \<open>flag_trap\<close>, and the handler table.
\<close>

record 'q snmp_st = dt_st +
  send_queue :: "'q option"
  ack_queue :: "'q option"
  ack_sem :: nat
  sem_full :: nat
  sem_mutex :: nat
  trapsignal :: nat
  flag_trap :: bool
  SnmpData :: "handler option list"

subsection \<open>Tables of texts\<close>

definition trap_clk_source :: "string list" where
  "trap_clk_source = [''AutoClock'', ''GPSClock'', ''RS422Clock'', ''PTPClock'']"

definition trap_Lock_state :: "string list" where
  "trap_Lock_state = [''UnLock'', ''Lock'']"

definition trap_FPGA_Work_state :: "string list" where
  "trap_FPGA_Work_state = [''FPGAslaveState'', ''FPGAmasterState'', ''Error'']"

definition trap_Net_state :: "string list" where
  "trap_Net_state = [''Disconnected'', ''Connected'']"

definition trap_arm_run_state :: "string list" where
  "trap_arm_run_state = [''Run'', ''Stop'']"

definition param_work_mode :: "string list" where
  "param_work_mode = [''Master'', ''Slave'', ''Error'']"

text \<open>Reading a table outside its bounds is undefined.\<close>

definition table_at :: "string list \<Rightarrow> nat \<Rightarrow> string option" where
  "table_at t i = (if i < length t then Some (lit (t ! i)) else None)"

lemmas table_defs = trap_clk_source_def trap_Lock_state_def trap_FPGA_Work_state_def
  trap_Net_state_def trap_arm_run_state_def param_work_mode_def

subsection \<open>Acknowledgements\<close>

definition stamp_msg :: "u32 \<Rightarrow> u32 \<Rightarrow> u32 \<Rightarrow> queue_msg_t \<Rightarrow> queue_msg_t" where
  "stamp_msg ty err code m =
     m\<lparr>msg_type := ty, snmp_msg := (snmp_msg m)\<lparr>error_code := err, oper_code := code\<rparr>\<rparr>"

text \<open>The local node of the push function is overwritten in full, so its old content is zeros here.\<close>

definition push_msg ::
  "'q cstl_ops \<Rightarrow> queue_msg_t \<Rightarrow> 'q option \<Rightarrow> (int \<times> 'q option) option" where
  "push_msg C m q =
     SN_Free_Lock_Queue_Push C (zeros QUEUE_LEN) (Some (encode_msg m)) (of_nat QUEUE_LEN) 0 q"

definition snmp_data_set_ack ::
  "'q cstl_ops \<Rightarrow> queue_msg_t \<Rightarrow> u32 \<Rightarrow> u32 \<Rightarrow> ('q, 'z) snmp_st_scheme
     \<Rightarrow> (int \<times> ('q, 'z) snmp_st_scheme) option" where
  "snmp_data_set_ack C queue code err s =
     (case push_msg C (stamp_msg CMD_ACK err code queue) (ack_queue s) of
        None \<Rightarrow> None
      | Some (ret, q) \<Rightarrow>
          let s = s\<lparr>ack_queue := q\<rparr>
          in if ret = -1 then Some (-1, s) else Some (0, s\<lparr>ack_sem := ack_sem s + 1\<rparr>))"

definition snmp_data_ack ::
  "'q cstl_ops \<Rightarrow> queue_msg_t \<Rightarrow> u32 \<Rightarrow> ('q, 'z) snmp_st_scheme
     \<Rightarrow> (int \<times> ('q, 'z) snmp_st_scheme) option" where
  "snmp_data_ack C queue code s =
     (case push_msg C (stamp_msg CMD_ACK 0 code queue) (ack_queue s) of
        None \<Rightarrow> None
      | Some (ret, q) \<Rightarrow>
          let s = s\<lparr>ack_queue := q\<rparr>
          in if ret = -1 then Some (-1, s) else Some (0, s\<lparr>ack_sem := ack_sem s + 1\<rparr>))"

text \<open>Copy a string into the data of a cleared message and acknowledge with it.\<close>

definition ack_string ::
  "'q cstl_ops \<Rightarrow> string \<Rightarrow> u32 \<Rightarrow> ('q, 'z) snmp_st_scheme
     \<Rightarrow> (int \<times> ('q, 'z) snmp_st_scheme) option" where
  "ack_string C src code s =
     do { b \<leftarrow> c_strcpy (u_data (snmp_msg msg_0)) 0 src;
          snmp_data_ack C (set_u_data b msg_0) code s }"

subsection \<open>The handlers\<close>

definition snmp_data_0x01 ::
  "env \<Rightarrow> 'q cstl_ops \<Rightarrow> queue_msg_t \<Rightarrow> ('q, 'z) snmp_st_scheme
     \<Rightarrow> (int \<times> ('q, 'z) snmp_st_scheme) option" where
  "snmp_data_0x01 E C msg s =
     (if msg_type msg = CMD_GET then
        do { (ret, buffer, s) \<leftarrow> get_net_parameter E (Some (zeros 256)) SIOCGIFADDR s;
             b \<leftarrow> buffer;
             (ret, s) \<leftarrow> ack_string C b (oper_code (snmp_msg msg)) s;
             Some (0, s) }
      else if msg_type msg = CMD_SET then
        (if \<not> has_nul (u_data (snmp_msg msg)) then None
         else
           (let (ret, s) = set_ipaddress E (msg_data_str msg) s
            in do { (_, s) \<leftarrow> (if ret \<noteq> 0
                               then snmp_data_set_ack C msg_0 (oper_code (snmp_msg msg)) (- 1) s
                               else snmp_data_set_ack C msg_0 (oper_code (snmp_msg msg)) 0 s);
                    Some (if ret \<noteq> 0 then -1 else 0, s) }))
      else Some (-1, s))"

definition snmp_data_0x02 ::
  "env \<Rightarrow> 'q cstl_ops \<Rightarrow> queue_msg_t \<Rightarrow> ('q, 'z) snmp_st_scheme
     \<Rightarrow> (int \<times> ('q, 'z) snmp_st_scheme) option" where
  "snmp_data_0x02 E C msg s =
     (if msg_type msg = CMD_GET then
        do { (ret, buffer, s) \<leftarrow> get_net_parameter E (Some (zeros 256)) SIOCGIFNETMASK s;
             b \<leftarrow> buffer;
             (ret, s) \<leftarrow> ack_string C b (oper_code (snmp_msg msg)) s;
             Some (0, s) }
      else if msg_type msg = CMD_SET then
        (if \<not> has_nul (u_data (snmp_msg msg)) then None
         else
           (let (ret, s) = set_netmask E (msg_data_str msg) s
            in do { (_, s) \<leftarrow> (if ret \<noteq> 0
                               then snmp_data_set_ack C msg_0 (oper_code (snmp_msg msg)) (- 1) s
                               else snmp_data_set_ack C msg_0 (oper_code (snmp_msg msg)) 0 s);
                    Some (if ret \<noteq> 0 then -1 else 0, s) }))
      else Some (-1, s))"

definition snmp_data_0x03 ::
  "env \<Rightarrow> 'q cstl_ops \<Rightarrow> queue_msg_t \<Rightarrow> ('q, 'z) snmp_st_scheme
     \<Rightarrow> (int \<times> ('q, 'z) snmp_st_scheme) option" where
  "snmp_data_0x03 E C msg s =
     (if msg_type msg = CMD_GET then
        do { (ret, b, s) \<leftarrow> get_gateway E (zeros 256) s;
             (ret, s) \<leftarrow> ack_string C b (oper_code (snmp_msg msg)) s;
             Some (0, s) }
      else if msg_type msg = CMD_SET then
        (if \<not> has_nul (u_data (snmp_msg msg)) then None
         else
           (let (ret, s) = set_gateway E (msg_data_str msg) s
            in do { (_, s) \<leftarrow> (if ret \<noteq> 0
                               then snmp_data_set_ack C msg_0 (oper_code (snmp_msg msg)) (- 1) s
                               else snmp_data_set_ack C msg_0 (oper_code (snmp_msg msg)) 0 s);
                    Some (if ret \<noteq> 0 then -1 else 0, s) }))
      else Some (-1, s))"

text \<open>The hardware address is read into the local message, which is then dropped.\<close>

definition snmp_data_0x04 ::
  "env \<Rightarrow> queue_msg_t \<Rightarrow> ('q, 'z) snmp_st_scheme \<Rightarrow> (int \<times> ('q, 'z) snmp_st_scheme) option" where
  "snmp_data_0x04 E msg s =
     (if msg_type msg \<noteq> CMD_GET then Some (-1, s)
      else
        do { (ret, buffer, s) \<leftarrow> get_net_parameter E (Some (zeros 256)) SIOCGIFHWADDR s;
             b \<leftarrow> buffer;
             _ \<leftarrow> c_strcpy (u_data (snmp_msg msg_0)) 0 b;
             Some (0, s) })"

definition snmp_data_0x05 ::
  "queue_msg_t \<Rightarrow> ('q, 'z) snmp_st_scheme \<Rightarrow> (int \<times> ('q, 'z) snmp_st_scheme) option" where
  "snmp_data_0x05 msg s = Some (0, s)"

definition snmp_data_0x32 ::
  "'q cstl_ops \<Rightarrow> queue_msg_t \<Rightarrow> ('q, 'z) snmp_st_scheme
     \<Rightarrow> (int \<times> ('q, 'z) snmp_st_scheme) option" where
  "snmp_data_0x32 C msg s =
     (if msg_type msg = CMD_GET then
        do { (ret, s) \<leftarrow> ack_string C (lit ''CLKD'') (oper_code (snmp_msg msg)) s;
             Some (0, s) }
      else Some (-1, s))"

definition snmp_data_0x36 ::
  "env \<Rightarrow> 'q cstl_ops \<Rightarrow> queue_msg_t \<Rightarrow> ('q, 'z) snmp_st_scheme
     \<Rightarrow> (int \<times> ('q, 'z) snmp_st_scheme) option" where
  "snmp_data_0x36 E C msg s =
     (if msg_type msg = CMD_GET then
        do { (_, buffer, s) \<leftarrow> get_net_parameter E (Some (zeros 255)) SIOCGIFADDR s;
             b \<leftarrow> buffer;
             b \<leftarrow> c_strcat b (lit '':'');
             b \<leftarrow> c_strcat b (lit SNMPD_SOURCES_PROT);
             (_, s) \<leftarrow> ack_string C b (oper_code (snmp_msg msg)) s;
             Some (0, s) }
      else Some (0, s))"

definition snmp_data_0x60 ::
  "'q cstl_ops \<Rightarrow> queue_msg_t \<Rightarrow> ('q, 'z) snmp_st_scheme
     \<Rightarrow> (int \<times> ('q, 'z) snmp_st_scheme) option" where
  "snmp_data_0x60 C msg s =
     (let paramptr = cdd_get_clk_param s
      in if msg_type msg = CMD_GET then
           (let tmpnum = (if device_mode paramptr = 1 \<or> device_mode paramptr = 2
                          then unat (device_mode paramptr - 1) else 2)
            in do { src \<leftarrow> table_at param_work_mode tmpnum;
                    (_, s) \<leftarrow> ack_string C src (oper_code (snmp_msg msg)) s;
                    Some (0, s) })
         else Some (0, s))"

definition snmp_data_0x61 ::
  "'q cstl_ops \<Rightarrow> queue_msg_t \<Rightarrow> ('q, 'z) snmp_st_scheme
     \<Rightarrow> (int \<times> ('q, 'z) snmp_st_scheme) option" where
  "snmp_data_0x61 C msg s =
     (if msg_type msg = CMD_GET then
        do { (_, buffer) \<leftarrow> get_arm_version (ArmVersion s) (Some (u_data (snmp_msg msg_0)));
             b \<leftarrow> buffer;
             (_, s) \<leftarrow> snmp_data_ack C (set_u_data b msg_0) (oper_code (snmp_msg msg)) s;
             Some (0, s) }
      else Some (0, s))"

definition snmp_data_0x62 ::
  "'q cstl_ops \<Rightarrow> queue_msg_t \<Rightarrow> ('q, 'z) snmp_st_scheme
     \<Rightarrow> (int \<times> ('q, 'z) snmp_st_scheme) option" where
  "snmp_data_0x62 C msg s =
     (if msg_type msg = CMD_GET then
        do { (_, s) \<leftarrow> ack_string C (fpga_version (cdd_get_clk_param s))
                         (oper_code (snmp_msg msg)) s;
             Some (0, s) }
      else Some (0, s))"

definition snmp_data_0x63 ::
  "'q cstl_ops \<Rightarrow> queue_msg_t \<Rightarrow> ('q, 'z) snmp_st_scheme
     \<Rightarrow> (int \<times> ('q, 'z) snmp_st_scheme) option" where
  "snmp_data_0x63 C msg s =
     (if msg_type msg = CMD_GET then
        do { (_, buffer) \<leftarrow> get_hardware_version (Some (u_data (snmp_msg msg_0)));
             b \<leftarrow> buffer;
             (_, s) \<leftarrow> snmp_data_ack C (set_u_data b msg_0) (oper_code (snmp_msg msg)) s;
             Some (0, s) }
      else Some (0, s))"

definition snmp_data_0x64 ::
  "'q cstl_ops \<Rightarrow> queue_msg_t \<Rightarrow> ('q, 'z) snmp_st_scheme
     \<Rightarrow> (int \<times> ('q, 'z) snmp_st_scheme) option" where
  "snmp_data_0x64 C msg s =
     (if msg_type msg = CMD_GET then
        do { (_, s) \<leftarrow> ack_string C (lit DEVICE_NAME) (oper_code (snmp_msg msg)) s;
             Some (0, s) }
      else Some (0, s))"

definition snmp_data_0x65 ::
  "'q cstl_ops \<Rightarrow> queue_msg_t \<Rightarrow> ('q, 'z) snmp_st_scheme
     \<Rightarrow> (int \<times> ('q, 'z) snmp_st_scheme) option" where
  "snmp_data_0x65 C msg s =
     (if msg_type msg = CMD_GET then
        do { (_, s) \<leftarrow> ack_string C (gps_time (cdd_get_clk_param s)) (oper_code (snmp_msg msg)) s;
             Some (0, s) }
      else Some (0, s))"

definition snmp_data_0x66 ::
  "'q cstl_ops \<Rightarrow> queue_msg_t \<Rightarrow> ('q, 'z) snmp_st_scheme
     \<Rightarrow> (int \<times> ('q, 'z) snmp_st_scheme) option" where
  "snmp_data_0x66 C msg s =
     (if msg_type msg = CMD_GET then
        do { (_, s) \<leftarrow> ack_string C (ptp_time (cdd_get_clk_param s)) (oper_code (snmp_msg msg)) s;
             Some (0, s) }
      else Some (0, s))"

subsection \<open>The older single handler\<close>

text \<open>
  \<open>snmp_data_deal\<close> is still in the source, its only call is commented out. The version case
  falls through into the next one, and the work mode indexes the table without a check.
\<close>

definition snmp_data_deal ::
  "env \<Rightarrow> 'q cstl_ops \<Rightarrow> queue_msg_t \<Rightarrow> ('q, 'z) snmp_st_scheme
     \<Rightarrow> (int \<times> ('q, 'z) snmp_st_scheme) option" where
  "snmp_data_deal E C msg s =
     (let command = oper_code (snmp_msg msg); p = cdd_get_clk_param s;
          data0 = u_data (snmp_msg msg_0)
      in if msg_type msg = CMD_GET then
           do { (b, s) \<leftarrow>
                  (if command = MSG_CODE_CDD_WORK_MODE then
                     do { src \<leftarrow> table_at param_work_mode (unat (device_mode p - 1));
                          b \<leftarrow> c_strcpy data0 0 src; Some (b, s) }
                   else if command = MSG_CODE_CDD_APP_VER then
                     do { (_, buffer) \<leftarrow> get_arm_version (ArmVersion s) (Some data0);
                          b \<leftarrow> buffer;
                          b \<leftarrow> c_strcpy b 0 (fpga_version p); Some (b, s) }
                   else if command = MSG_CODE_CDD_FPGA_VER then
                     do { b \<leftarrow> c_strcpy data0 0 (fpga_version p); Some (b, s) }
                   else if command = MSG_CODE_CDD_HW_VER then
                     do { (_, buffer) \<leftarrow> get_hardware_version (Some data0);
                          b \<leftarrow> buffer; Some (b, s) }
                   else if command = MSG_CODE_CDD_MODEL_STATE then
                     do { b \<leftarrow> c_strcpy data0 0 (device_name p); Some (b, s) }
                   else if command = MSG_CODE_CDD_GPS_TIME then
                     do { b \<leftarrow> c_strcpy data0 0 (gps_time p); Some (b, s) }
                   else if command = MSG_CODE_CDD_PTP_TIME then
                     do { b \<leftarrow> c_strcpy data0 0 (ptp_time p); Some (b, s) }
                   else if command = MSG_CODE_CDD_SORCE then
                     do { (_, buffer, s) \<leftarrow> get_net_parameter E (Some (zeros 256)) SIOCGIFADDR s;
                          b \<leftarrow> buffer;
                          b \<leftarrow> c_strcat b (lit '':'');
                          b \<leftarrow> c_strcat b (lit ''1234'');
                          b \<leftarrow> c_strcpy data0 0 b; Some (b, s) }
                   else if command = MSG_CODE_CDD_EQU_TYPE then
                     do { b \<leftarrow> c_strcpy data0 0 (lit ''CLKD''); Some (b, s) }
                   else Some (data0, s));
                (_, s) \<leftarrow> snmp_data_ack C (set_u_data b msg_0) (oper_code (snmp_msg msg)) s;
                Some (0, s) }
         else Some (-1, s))"

subsection \<open>The handler table and the receiving thread\<close>

fun run_handler ::
  "env \<Rightarrow> 'q cstl_ops \<Rightarrow> handler \<Rightarrow> queue_msg_t \<Rightarrow> ('q, 'z) snmp_st_scheme
     \<Rightarrow> (int \<times> ('q, 'z) snmp_st_scheme) option" where
  "run_handler E C H_0x01 m s = snmp_data_0x01 E C m s"
| "run_handler E C H_0x02 m s = snmp_data_0x02 E C m s"
| "run_handler E C H_0x03 m s = snmp_data_0x03 E C m s"
| "run_handler E C H_0x04 m s = snmp_data_0x04 E m s"
| "run_handler E C H_0x05 m s = snmp_data_0x05 m s"
| "run_handler E C H_0x32 m s = snmp_data_0x32 C m s"
| "run_handler E C H_0x36 m s = snmp_data_0x36 E C m s"
| "run_handler E C H_0x60 m s = snmp_data_0x60 C m s"
| "run_handler E C H_0x61 m s = snmp_data_0x61 C m s"
| "run_handler E C H_0x62 m s = snmp_data_0x62 C m s"
| "run_handler E C H_0x63 m s = snmp_data_0x63 C m s"
| "run_handler E C H_0x64 m s = snmp_data_0x64 C m s"
| "run_handler E C H_0x65 m s = snmp_data_0x65 C m s"
| "run_handler E C H_0x66 m s = snmp_data_0x66 C m s"

definition SnmpData_0 :: "handler option list" where
  "SnmpData_0 = replicate 0x70 None"

definition init_SnmpData :: "handler option list \<Rightarrow> handler option list" where
  "init_SnmpData t = t
     [0x01 := Some H_0x01, 0x02 := Some H_0x02, 0x03 := Some H_0x03, 0x04 := Some H_0x04,
      0x05 := Some H_0x05, 0x32 := Some H_0x32, 0x36 := Some H_0x36, 0x60 := Some H_0x60,
      0x61 := Some H_0x61, 0x62 := Some H_0x62, 0x63 := Some H_0x63, 0x64 := Some H_0x64,
      0x65 := Some H_0x65, 0x66 := Some H_0x66]"

text \<open>What can go wrong in \<open>SnmpData[oper_code](&msg)\<close> and around it.\<close>

datatype fault = Table_overrun | Null_call | Buffer_overrun

definition dispatch ::
  "env \<Rightarrow> 'q cstl_ops \<Rightarrow> queue_msg_t \<Rightarrow> ('q, 'z) snmp_st_scheme
     \<Rightarrow> fault + (int \<times> ('q, 'z) snmp_st_scheme)" where
  "dispatch E C m s =
     (let code = unat (oper_code (snmp_msg m))
      in if length (SnmpData s) \<le> code then Inl Table_overrun
         else (case SnmpData s ! code of
                 None \<Rightarrow> Inl Null_call
               | Some h \<Rightarrow> (case run_handler E C h m s of
                             None \<Rightarrow> Inl Buffer_overrun
                           | Some r \<Rightarrow> Inr r)))"

text \<open>
  One turn of the loop. \<open>msgrcv\<close> is given the size of the whole message for its text, which
  it stores behind the type; a text longer than what follows the type overruns \<open>msg\<close>.
\<close>

definition received_msg :: "u32 \<Rightarrow> string \<Rightarrow> queue_msg_t option" where
  "received_msg ty txt =
     (if 4 + length txt \<le> QUEUE_LEN
      then Some (decode_msg (le32 ty @ txt @ zeros (QUEUE_LEN - 4 - length txt)))
      else None)"

definition snmp_recv_turn ::
  "env \<Rightarrow> 'q cstl_ops \<Rightarrow> int \<Rightarrow> ('q, 'z) snmp_st_scheme
     \<Rightarrow> fault + ('q, 'z) snmp_st_scheme" where
  "snmp_recv_turn E C Msg_recv s =
     (let (reply, s) = sys_msgrcv E Msg_recv QUEUE_LEN 0 0 s
      in case reply of
           None \<Rightarrow> Inr (sys_usleep 600000 s)
         | Some (ty, txt) \<Rightarrow>
             (case received_msg ty txt of
                None \<Rightarrow> Inl Buffer_overrun
              | Some m \<Rightarrow>
                  (let s = (if (msg_type m = CMD_GET \<or> msg_type m = CMD_SET) \<and> \<not> flag_trap s
                            then s\<lparr>flag_trap := True\<rparr> else s)
                   in map_sum id snd (dispatch E C m s))))"

text \<open>The thread, observed for \<open>n\<close> turns of its endless loop.\<close>

fun snmp_recv_turns ::
  "env \<Rightarrow> 'q cstl_ops \<Rightarrow> int \<Rightarrow> nat \<Rightarrow> ('q, 'z) snmp_st_scheme
     \<Rightarrow> fault + ('q, 'z) snmp_st_scheme" where
  "snmp_recv_turns E C Msg_recv 0 s = Inr s"
| "snmp_recv_turns E C Msg_recv (Suc n) s =
     (case snmp_recv_turn E C Msg_recv s of
        Inl f \<Rightarrow> Inl f | Inr s \<Rightarrow> snmp_recv_turns E C Msg_recv n s)"

definition pthread_snmp_recv ::
  "env \<Rightarrow> 'q cstl_ops \<Rightarrow> nat \<Rightarrow> ('q, 'z) snmp_st_scheme \<Rightarrow> fault + ('q, 'z) snmp_st_scheme" where
  "pthread_snmp_recv E C n s =
     (let (Msg_recv, s) = sys_msgget E KEY_ID_RECV IPC_EXCL s
      in if Msg_recv < 0 then Inr s else snmp_recv_turns E C Msg_recv n s)"

subsection \<open>Acknowledging\<close>

text \<open>
  The queue node that carries a message, and the effect of a successful acknowledgement: one
  node at the tail of the queue, whose message is stamped \<open>CMD_ACK\<close> with the operation code,
  the error code and the text, one more count on the semaphore, nothing else.
\<close>

definition node_of :: "queue_msg_t \<Rightarrow> sn_msg_param" where
  "node_of m = \<lparr>cmd = 0, length_of = of_nat QUEUE_LEN, data = encode_msg m\<rparr>"

definition ack_msg :: "u32 \<Rightarrow> u32 \<Rightarrow> string \<Rightarrow> queue_msg_t \<Rightarrow> bool" where
  "ack_msg code err txt m \<longleftrightarrow>
     msg_wf m \<and> msg_type m = CMD_ACK \<and> oper_code (snmp_msg m) = code \<and>
     error_code (snmp_msg m) = err \<and> msg_data_str m = txt"

definition replied ::
  "('q \<Rightarrow> sn_msg_param list) \<Rightarrow> ('q \<Rightarrow> bool) \<Rightarrow> u32 \<Rightarrow> u32 \<Rightarrow> string \<Rightarrow>
     ('q, 'z) snmp_st_scheme \<Rightarrow> ('q, 'z) snmp_st_scheme \<Rightarrow> bool" where
  "replied items wfq code err txt s s' \<longleftrightarrow>
     (\<exists>m q. ack_msg code err txt m \<and> queue_ok items wfq q \<and>
        queue_content items q =
          bounded_push QUEUE_MAX_SIZE (node_of m) (queue_content items (ack_queue s)) \<and>
        s' = s\<lparr>ack_queue := q, ack_sem := ack_sem s + 1\<rparr>)"

lemma node_of_ok: "msg_wf m \<Longrightarrow> node_ok (node_of m)"
  by (simp add: node_ok_def node_of_def length_encode_msg) (simp add: len_defs)

lemma push_msg_node: "push_msg C m q = push_node C (zeros QUEUE_LEN) (node_of m) q"
  by (simp add: push_msg_def push_node_def node_of_def)

lemma stamp_msg_wf [simp]: "msg_wf (stamp_msg ty err code m) = msg_wf m"
  by (simp add: msg_wf_def stamp_msg_def)

lemma stamp_ack_msg:
  "msg_wf m \<Longrightarrow> ack_msg code err (msg_data_str m) (stamp_msg CMD_ACK err code m)"
  by (simp add: ack_msg_def) (simp add: stamp_msg_def msg_data_str_def)

lemma snmp_data_ack_eq: "snmp_data_ack C m code s = snmp_data_set_ack C m code 0 s"
  by (simp add: snmp_data_ack_def snmp_data_set_ack_def)

lemma set_u_data_wf: "length b = U_DATA_LEN \<Longrightarrow> msg_wf (set_u_data b m)"
  by (simp add: msg_wf_def)

lemma length_u_data_0 [simp]: "length (u_data (snmp_msg msg_0)) = U_DATA_LEN"
  by (simp add: msg_0_def)

lemma msg_data_str_0 [simp]: "msg_data_str msg_0 = []"
  by (simp add: msg_data_str_def msg_0_def cstr_zeros)

lemma replied_ack_queue:
  "replied items wfq code err txt s s' \<Longrightarrow> queue_ok items wfq (ack_queue s')"
  by (auto simp: replied_def)

context cstl_queue
begin

lemma set_ack_replies:
  assumes "msg_wf m" and "queue_ok items wfq (ack_queue s)"
  shows "\<exists>s'. snmp_data_set_ack C m code err s = Some (0, s') \<and>
              replied items wfq code err (msg_data_str m) s s'"
proof -
  obtain q where "push_msg C (stamp_msg CMD_ACK err code m) (ack_queue s) = Some (0, q)"
    "queue_ok items wfq q" "queue_content items q =
       bounded_push QUEUE_MAX_SIZE (node_of (stamp_msg CMD_ACK err code m))
         (queue_content items (ack_queue s))"
    using sn.push_spec [OF assms(2), of "node_of (stamp_msg CMD_ACK err code m)"] assms(1)
    by (auto simp: node_of_ok push_msg_node)
  with stamp_ack_msg [OF assms(1), of code err] show ?thesis
    by (auto simp: snmp_data_set_ack_def replied_def)
qed

lemma ack_string_replies:
  assumes "queue_ok items wfq (ack_queue s)" and "has_nul src" and "length src \<le> U_DATA_LEN"
  shows "\<exists>s'. ack_string C src code s = Some (0, s') \<and> replied items wfq code 0 (cstr src) s s'"
proof -
  obtain b where b: "c_strcpy (u_data (snmp_msg msg_0)) 0 src = Some b"
    using c_strcpy_ok [of src 0] assms(2,3) by fastforce
  then have "msg_data_str (set_u_data b msg_0) = cstr src" "length b = U_DATA_LEN"
    using c_strcpy_cstr [OF b] c_strcpy_length [OF b] by (simp_all add: msg_data_str_def)
  with set_ack_replies [of "set_u_data b msg_0" s code 0] assms(1) b show ?thesis
    by (simp add: ack_string_def snmp_data_ack_eq set_u_data_wf)
qed

end

subsection \<open>What the handlers answer\<close>

text \<open>The answers that depend on nothing but the parameter block and the version record.\<close>

definition mode_text :: "u32 \<Rightarrow> string" where
  "mode_text w = (if w = 1 then ''Master'' else if w = 2 then ''Slave'' else ''Error'')"

definition answer :: "('q, 'z) snmp_st_scheme \<Rightarrow> u32 \<Rightarrow> string option" where
  "answer s code =
     (if code = MSG_CODE_CDD_EQU_TYPE then Some ''CLKD''
      else if code = MSG_CODE_CDD_WORK_MODE then Some (mode_text (device_mode (ClockParameter s)))
      else if code = MSG_CODE_CDD_APP_VER then Some (version_text (ArmVersion s))
      else if code = MSG_CODE_CDD_FPGA_VER then Some (cstr (fpga_version (ClockParameter s)))
      else if code = MSG_CODE_CDD_HW_VER then Some (version_text hardware_version)
      else if code = MSG_CODE_CDD_MODEL_STATE then Some DEVICE_NAME
      else if code = MSG_CODE_CDD_GPS_TIME then Some (cstr (gps_time (ClockParameter s)))
      else if code = MSG_CODE_CDD_PTP_TIME then Some (cstr (ptp_time (ClockParameter s)))
      else None)"

lemma work_mode_text:
  "table_at param_work_mode
     (if w = 1 \<or> w = 2 then unat (w - 1) else 2) = Some (lit (mode_text (w :: u32)))"
  by (auto simp: table_at_def param_work_mode_def mode_text_def)

lemma short_literals:
  "NUL \<notin> set (mode_text w)" "length (lit (mode_text w)) \<le> U_DATA_LEN"
  "NUL \<notin> set DEVICE_NAME" "length (lit DEVICE_NAME) \<le> U_DATA_LEN"
  "NUL \<notin> set ''CLKD''" "length (lit ''CLKD'') \<le> U_DATA_LEN"
  by (auto simp: mode_text_def DEVICE_NAME_def NUL_def lit_def len_defs)

lemma param_string_fits: "param_string b \<Longrightarrow> has_nul b \<and> length b \<le> U_DATA_LEN"
  by (simp add: param_string_def len_defs)

context cstl_queue
begin

text \<open>Storing a version straight into the cleared message and acknowledging it.\<close>

lemma version_ack_replies:
  assumes "queue_ok items wfq (ack_queue s)"
  shows "\<exists>b s'. get_arm_version v (Some (u_data (snmp_msg msg_0))) =
             Some (int (length (version_text v)), Some b) \<and>
           snmp_data_ack C (set_u_data b msg_0) code s = Some (0, s') \<and>
           replied items wfq code 0 (version_text v) s s'"
proof -
  have "82 \<le> length (u_data (snmp_msg msg_0))" by (simp add: len_defs)
  from get_arm_version_ok [OF this, of v] obtain b where b:
    "get_arm_version v (Some (u_data (snmp_msg msg_0)))
       = Some (int (length (version_text v)), Some b)"
    "length b = U_DATA_LEN" "cstr b = version_text v"
    by auto
  then have "msg_data_str (set_u_data b msg_0) = version_text v" by (simp add: msg_data_str_def)
  with set_ack_replies [of "set_u_data b msg_0" s code 0] assms b show ?thesis
    by (simp add: snmp_data_ack_eq set_u_data_wf)
qed

lemma string_handler_replies:
  assumes "queue_ok items wfq (ack_queue s)" and "param_string src"
  shows "\<exists>s'. ack_string C src code s = Some (0, s') \<and> replied items wfq code 0 (cstr src) s s'"
  using ack_string_replies [OF assms(1)] param_string_fits [OF assms(2)] by blast

lemma literal_handler_replies:
  assumes "queue_ok items wfq (ack_queue s)" and "NUL \<notin> set txt" and "length (lit txt) \<le> U_DATA_LEN"
  shows "\<exists>s'. ack_string C (lit txt) code s = Some (0, s') \<and> replied items wfq code 0 txt s s'"
  using ack_string_replies [OF assms(1) has_nul_lit assms(3)] assms(2) by (simp add: cstr_lit)

end

subsection \<open>Dispatch\<close>

definition handler_at :: "nat \<Rightarrow> handler option" where
  "handler_at i =
     (if i = 0x66 then Some H_0x66 else if i = 0x65 then Some H_0x65
      else if i = 0x64 then Some H_0x64 else if i = 0x63 then Some H_0x63
      else if i = 0x62 then Some H_0x62 else if i = 0x61 then Some H_0x61
      else if i = 0x60 then Some H_0x60 else if i = 0x36 then Some H_0x36
      else if i = 0x32 then Some H_0x32 else if i = 0x05 then Some H_0x05
      else if i = 0x04 then Some H_0x04 else if i = 0x03 then Some H_0x03
      else if i = 0x02 then Some H_0x02 else if i = 0x01 then Some H_0x01 else None)"

definition handled_codes :: "u32 list" where
  "handled_codes = [0x01, 0x02, 0x03, 0x04, 0x05, 0x32, 0x36, 0x60, 0x61, 0x62, 0x63, 0x64, 0x65, 0x66]"

lemma length_init_SnmpData [simp]: "length (init_SnmpData t) = length t"
  by (simp add: init_SnmpData_def)

lemma length_SnmpData_0 [simp]: "length SnmpData_0 = 0x70"
  by (simp add: SnmpData_0_def)

lemma init_SnmpData_nth: "i < 0x70 \<Longrightarrow> init_SnmpData SnmpData_0 ! i = handler_at i"
  by (simp add: init_SnmpData_def SnmpData_0_def nth_list_update handler_at_def)

lemma handler_at_None: "handler_at (unat code) = None \<longleftrightarrow> code \<notin> set handled_codes" for code :: u32
  using unat_eq_one [of code]
  by (auto simp: handler_at_def handled_codes_def unat_eq_numeral split: if_splits)

text \<open>The table holds every handler once, in the order of the codes.\<close>

lemma init_table_enum:
  "map (\<lambda>c. init_SnmpData SnmpData_0 ! unat c) handled_codes = map Some Enum.enum"
  by (simp add: handled_codes_def init_SnmpData_nth handler_at_def enum_handler_def)

lemma handler_reachable: "\<exists>!c. c \<in> set handled_codes \<and> init_SnmpData SnmpData_0 ! unat c = Some h"
proof (rule ex_ex1I)
  have "Some h \<in> set (map Some (Enum.enum :: handler list))" using in_enum [of h] by simp
  then show "\<exists>c. c \<in> set handled_codes \<and> init_SnmpData SnmpData_0 ! unat c = Some h"
    unfolding init_table_enum [symmetric] by auto
next
  have d: "distinct (map (\<lambda>c. init_SnmpData SnmpData_0 ! unat c) handled_codes)"
    unfolding init_table_enum by (simp add: distinct_map enum_distinct)
  then have inj: "inj_on (\<lambda>c. init_SnmpData SnmpData_0 ! unat c) (set handled_codes)"
    by (simp only: distinct_map)
  fix c c' assume "c \<in> set handled_codes \<and> init_SnmpData SnmpData_0 ! unat c = Some h"
    and "c' \<in> set handled_codes \<and> init_SnmpData SnmpData_0 ! unat c' = Some h"
  then show "c = c'" using inj_onD [OF inj, of c c'] by simp
qed

lemma dispatch_init:
  assumes "SnmpData s = init_SnmpData SnmpData_0"
  shows "dispatch E C m s =
    (if 0x70 \<le> unat (oper_code (snmp_msg m)) then Inl Table_overrun
     else (case handler_at (unat (oper_code (snmp_msg m))) of
             None \<Rightarrow> Inl Null_call
           | Some h \<Rightarrow> (case run_handler E C h m s of None \<Rightarrow> Inl Buffer_overrun | Some r \<Rightarrow> Inr r)))"
  using assms init_SnmpData_nth [of "unat (oper_code (snmp_msg m))"]
  by (simp add: dispatch_def Let_def)

text \<open>One lemma for each handler that answers from the parameter block.\<close>

context cstl_queue
begin

lemma replies_0x32:
  assumes "queue_ok items wfq (ack_queue s)" and "msg_type m = CMD_GET"
  shows "\<exists>s'. snmp_data_0x32 C m s = Some (0, s') \<and>
           replied items wfq (oper_code (snmp_msg m)) 0 ''CLKD'' s s'"
  using literal_handler_replies [OF assms(1) short_literals(5,6), of "oper_code (snmp_msg m)"]
    assms(2)
  by (auto simp: snmp_data_0x32_def)

lemma replies_0x60:
  assumes "queue_ok items wfq (ack_queue s)" and "msg_type m = CMD_GET"
  shows "\<exists>s'. snmp_data_0x60 C m s = Some (0, s') \<and>
           replied items wfq (oper_code (snmp_msg m)) 0
             (mode_text (device_mode (ClockParameter s))) s s'"
  using literal_handler_replies [OF assms(1) short_literals(1,2) [of "device_mode (ClockParameter s)"],
      of "oper_code (snmp_msg m)"] assms(2)
  unfolding snmp_data_0x60_def Let_def cdd_get_clk_param_def work_mode_text
  by auto

lemma replies_0x61:
  assumes "queue_ok items wfq (ack_queue s)" and "msg_type m = CMD_GET"
  shows "\<exists>s'. snmp_data_0x61 C m s = Some (0, s') \<and>
           replied items wfq (oper_code (snmp_msg m)) 0 (version_text (ArmVersion s)) s s'"
  using version_ack_replies [OF assms(1), of "ArmVersion s" "oper_code (snmp_msg m)"] assms(2)
  by (auto simp: snmp_data_0x61_def)

lemma replies_0x63:
  assumes "queue_ok items wfq (ack_queue s)" and "msg_type m = CMD_GET"
  shows "\<exists>s'. snmp_data_0x63 C m s = Some (0, s') \<and>
           replied items wfq (oper_code (snmp_msg m)) 0 (version_text hardware_version) s s'"
  using version_ack_replies [OF assms(1), of hardware_version "oper_code (snmp_msg m)"] assms(2)
  by (auto simp: snmp_data_0x63_def get_hardware_version_eq)

lemma replies_0x64:
  assumes "queue_ok items wfq (ack_queue s)" and "msg_type m = CMD_GET"
  shows "\<exists>s'. snmp_data_0x64 C m s = Some (0, s') \<and>
           replied items wfq (oper_code (snmp_msg m)) 0 DEVICE_NAME s s'"
  using literal_handler_replies [OF assms(1) short_literals(3,4), of "oper_code (snmp_msg m)"]
    assms(2)
  by (auto simp: snmp_data_0x64_def)

lemma replies_param:
  assumes "queue_ok items wfq (ack_queue s)" and "msg_type m = CMD_GET"
    and "clock_para_wf (ClockParameter s)"
  shows "\<exists>s'. snmp_data_0x62 C m s = Some (0, s') \<and>
           replied items wfq (oper_code (snmp_msg m)) 0 (cstr (fpga_version (ClockParameter s))) s s'"
    and "\<exists>s'. snmp_data_0x65 C m s = Some (0, s') \<and>
           replied items wfq (oper_code (snmp_msg m)) 0 (cstr (gps_time (ClockParameter s))) s s'"
    and "\<exists>s'. snmp_data_0x66 C m s = Some (0, s') \<and>
           replied items wfq (oper_code (snmp_msg m)) 0 (cstr (ptp_time (ClockParameter s))) s s'"
  using string_handler_replies [OF assms(1), of "fpga_version (ClockParameter s)" "oper_code (snmp_msg m)"]
    string_handler_replies [OF assms(1), of "gps_time (ClockParameter s)" "oper_code (snmp_msg m)"]
    string_handler_replies [OF assms(1), of "ptp_time (ClockParameter s)" "oper_code (snmp_msg m)"]
    assms(2,3)
  by (auto simp: snmp_data_0x62_def snmp_data_0x65_def snmp_data_0x66_def
      cdd_get_clk_param_def clock_para_wf_def)

end

subsection \<open>What a handler leaves alone\<close>

text \<open>
  Over any container and any environment, a handler changes at most the history, the
  acknowledgement queue and the count of its semaphore, which it never lowers.
\<close>

definition handler_frame :: "('q, 'z) snmp_st_scheme \<Rightarrow> ('q, 'z) snmp_st_scheme \<Rightarrow> bool" where
  "handler_frame s s' \<longleftrightarrow>
     (\<exists>h q k. s' = s\<lparr>hist := h, ack_queue := q, ack_sem := ack_sem s + k\<rparr>)"

lemma handler_frameI:
  "s' = s\<lparr>hist := h, ack_queue := q, ack_sem := ack_sem s + k\<rparr> \<Longrightarrow> handler_frame s s'"
  unfolding handler_frame_def by (intro exI)

lemma handler_frame_refl [intro]: "handler_frame s s"
  by (rule handler_frameI [of _ _ 0 "ack_queue s" "hist s"]) simp

lemma handler_frame_hist [intro]: "handler_frame s (s\<lparr>hist := h\<rparr>)"
  by (rule handler_frameI [of _ _ 0 "ack_queue s" h]) simp

lemma handler_frame_trans:
  assumes "handler_frame s t" and "handler_frame t u"
  shows "handler_frame s u"
proof -
  obtain h q k where t: "t = s\<lparr>hist := h, ack_queue := q, ack_sem := ack_sem s + k\<rparr>"
    using assms(1) unfolding handler_frame_def by blast
  obtain h' q' k' where u: "u = t\<lparr>hist := h', ack_queue := q', ack_sem := ack_sem t + k'\<rparr>"
    using assms(2) unfolding handler_frame_def by blast
  show ?thesis
    by (rule handler_frameI [of _ _ "k + k'" q' h']) (simp add: t u)
qed

lemma handler_frame_flag [dest]:
  assumes "handler_frame s s'"
  shows "flag_trap s' = flag_trap s" and "send_queue s' = send_queue s"
    and "ack_sem s \<le> ack_sem s'" and "ClockParameter s' = ClockParameter s"
    and "SnmpData s' = SnmpData s" and "sem_full s' = sem_full s"
    and "sem_mutex s' = sem_mutex s" and "trapsignal s' = trapsignal s"
    and "fpga_msg s' = fpga_msg s" and "ArmVersion s' = ArmVersion s"
  using assms by (auto simp: handler_frame_def)

lemma set_ack_frame: "snmp_data_set_ack C m code err s = Some (r, s') \<Longrightarrow> handler_frame s s'"
  using handler_frameI [of s' s "ack_sem s' - ack_sem s" "ack_queue s'" "hist s"]
  by (auto simp: snmp_data_set_ack_def Let_def split: option.splits if_splits)

lemma ack_frame: "snmp_data_ack C m code s = Some (r, s') \<Longrightarrow> handler_frame s s'"
  by (simp add: snmp_data_ack_eq set_ack_frame)

lemma ack_string_frame: "ack_string C b code s = Some (r, s') \<Longrightarrow> handler_frame s s'"
  by (auto simp: ack_string_def ack_frame split: bind_splits)

lemma net_frames:
  "get_net_parameter E b flag s = Some (r, b', s') \<Longrightarrow> handler_frame s s'"
  "get_gateway E g s = Some (r, g', s') \<Longrightarrow> handler_frame s s'"
  "set_ipaddress E ip s = (r, s') \<Longrightarrow> handler_frame s s'"
  "set_netmask E ip s = (r, s') \<Longrightarrow> handler_frame s s'"
  "set_gateway E ip s = (r, s') \<Longrightarrow> handler_frame s s'"
  using get_net_parameter_frame [of E b flag s r b' s'] get_gateway_frame [of E g s r g' s']
    set_ipaddress_frame [of E ip s r s'] set_netmask_frame [of E ip s r s']
    set_gateway_frame [of E ip s r s']
  by auto

lemmas handler_frames = ack_frame set_ack_frame ack_string_frame net_frames

lemmas handler_defs = snmp_data_0x01_def snmp_data_0x02_def snmp_data_0x03_def
  snmp_data_0x04_def snmp_data_0x05_def snmp_data_0x32_def snmp_data_0x36_def
  snmp_data_0x60_def snmp_data_0x61_def snmp_data_0x62_def snmp_data_0x63_def
  snmp_data_0x64_def snmp_data_0x65_def snmp_data_0x66_def

lemma run_handler_frame: "run_handler E C h m s = Some (r, s') \<Longrightarrow> handler_frame s s'"
  by (cases h)
     (auto simp: handler_defs Let_def split: bind_splits if_splits prod.splits
       dest!: handler_frames intro: handler_frame_trans)

subsection \<open>Every handler returns\<close>

lemma c_strcat_ok:
  assumes "has_nul dst" and "has_nul src" and "length (cstr dst) + length (cstr src) < length dst"
  shows "\<exists>d. c_strcat dst src = Some d \<and> length d = length dst \<and> has_nul d \<and>
           cstr d = cstr dst @ cstr src"
proof -
  obtain d where d: "c_store dst (length (cstr dst)) (cstr src) = Some d"
    using c_store_ok [of "length (cstr dst)" "cstr src" dst] assms(3) by auto
  moreover have "cstr d = cstr dst @ cstr src"
  proof -
    have *: "take (length (cstr dst)) dst = cstr dst" by (simp add: cstr_def takeWhile_eq_take [symmetric])
    from d have "d = cstr dst @ cstr src @ NUL # drop (length (cstr dst) + length (cstr src @ [NUL])) dst"
      by (simp add: c_store_def write_at_def * split: if_splits)
    then show ?thesis using cstr_append_nul [of "cstr dst @ cstr src"] by simp
  qed
  ultimately show ?thesis
    using assms(1,2) by (auto simp: c_strcat_def c_strcpy_def c_store_length c_store_has_nul)
qed

lemma good_buffer_fits: "good_buffer n k b \<Longrightarrow> n \<le> U_DATA_LEN \<Longrightarrow> has_nul b \<and> length b \<le> U_DATA_LEN"
  by (simp add: good_buffer_def)

text \<open>The text \<open>address:port\<close> of the trap source and of request 0x36 fits its buffer.\<close>

lemma source_text_ok:
  assumes "good_buffer 255 17 b"
  shows "\<exists>b1 b2. c_strcat b (lit '':'') = Some b1 \<and> c_strcat b1 (lit SNMPD_SOURCES_PROT) = Some b2 \<and>
           length b2 = 255 \<and> has_nul b2 \<and> cstr b2 = cstr b @ '':10062''"
proof -
  have b: "length b = 255" "has_nul b" "length (cstr b) \<le> 17"
    using assms by (simp_all add: good_buffer_def)
  have colon: "cstr (lit '':'') = '':''" by (simp add: cstr_lit NUL_def)
  have port: "cstr (lit SNMPD_SOURCES_PROT) = ''10062''"
    by (simp add: cstr_lit SNMPD_SOURCES_PROT_def NUL_def)
  obtain b1 where b1: "c_strcat b (lit '':'') = Some b1" "length b1 = 255" "has_nul b1"
    "cstr b1 = cstr b @ '':''"
    using c_strcat_ok [of b "lit '':''"] b colon by auto
  then obtain b2 where "c_strcat b1 (lit SNMPD_SOURCES_PROT) = Some b2" "length b2 = 255"
    "has_nul b2" "cstr b2 = cstr b1 @ ''10062''"
    using c_strcat_ok [of b1 "lit SNMPD_SOURCES_PROT"] b port by auto
  with b1 show ?thesis by auto
qed

definition request_ok :: "queue_msg_t \<Rightarrow> bool" where
  "request_ok m \<longleftrightarrow>
     oper_code (snmp_msg m) \<in> set handled_codes \<and>
     (msg_type m = CMD_SET \<longrightarrow> has_nul (u_data (snmp_msg m)))"

context cstl_queue
begin

lemma ack_string_total:
  assumes "queue_ok items wfq (ack_queue s)" and "has_nul src \<and> length src \<le> U_DATA_LEN"
  shows "\<exists>s'. ack_string C src code s = Some (0, s') \<and> queue_ok items wfq (ack_queue s')"
  using ack_string_replies [OF assms(1), of src code] assms(2) replied_ack_queue by blast

lemma set_ack_total:
  assumes "queue_ok items wfq (ack_queue s)"
  shows "\<exists>s'. snmp_data_set_ack C msg_0 code err s = Some (0, s') \<and>
           queue_ok items wfq (ack_queue s')"
  using set_ack_replies [OF msg_wf_0 assms, of code err] replied_ack_queue by blast

lemma address_total:
  assumes "queue_ok items wfq (ack_queue s)" and "18 \<le> n" and "n \<le> U_DATA_LEN"
  shows "\<exists>r b s' s''. get_net_parameter E (Some (zeros n)) flag s = Some (r, Some b, s') \<and>
           good_buffer n 17 b \<and> queue_ok items wfq (ack_queue s') \<and>
           ack_string C b code s' = Some (0, s'') \<and> queue_ok items wfq (ack_queue s'')"
proof -
  have "good_buffer n 17 (zeros n)" using assms(2) by (simp add: good_buffer_zeros)
  from get_net_parameter_total [OF this assms(2)] obtain r b h where
    b: "get_net_parameter E (Some (zeros n)) flag s = Some (r, Some b, s\<lparr>hist := h\<rparr>)"
    "good_buffer n 17 b" by blast
  moreover have "queue_ok items wfq (ack_queue (s\<lparr>hist := h\<rparr>))" using assms(1) by simp
  ultimately show ?thesis
    using ack_string_total [of "s\<lparr>hist := h\<rparr>" b code] good_buffer_fits [OF b(2) assms(3)]
    by blast
qed

end

text \<open>The SET requests, whose acknowledgement carries the result of the setter.\<close>

definition net_setter ::
  "env \<Rightarrow> u32 \<Rightarrow> string \<Rightarrow> ('q, 'z) snmp_st_scheme \<Rightarrow> int \<times> ('q, 'z) snmp_st_scheme" where
  "net_setter E code ip s =
     (if code = MSG_CODE_NET_IPADDR then set_ipaddress E ip s
      else if code = MSG_CODE_NET_MASK then set_netmask E ip s
      else set_gateway E ip s)"

definition net_codes :: "u32 list" where
  "net_codes = [MSG_CODE_NET_IPADDR, MSG_CODE_NET_MASK, MSG_CODE_NET_GW]"

definition net_handler :: "u32 \<Rightarrow> handler" where
  "net_handler code =
     (if code = MSG_CODE_NET_IPADDR then H_0x01 else if code = MSG_CODE_NET_MASK then H_0x02
      else H_0x03)"

lemma net_setter_frame: "net_setter E code ip s = (r, s1) \<Longrightarrow> \<exists>h. s1 = s\<lparr>hist := h\<rparr>"
  by (auto simp: net_setter_def dest: set_ipaddress_frame set_netmask_frame set_gateway_frame
      split: if_splits)

lemma cmd_differ [simp]: "CMD_GET \<noteq> CMD_SET" "CMD_SET \<noteq> CMD_GET"
  by (simp_all add: cmd_defs)

lemma net_set_handler:
  assumes "msg_type m = CMD_SET" and "has_nul (u_data (snmp_msg m))"
    and "oper_code (snmp_msg m) \<in> set net_codes"
    and "net_setter E (oper_code (snmp_msg m)) (msg_data_str m) s = (r, s1)"
  shows "run_handler E C (net_handler (oper_code (snmp_msg m))) m s =
    map_option (\<lambda>(_, s'). (if r \<noteq> 0 then -1 else 0, s'))
      (snmp_data_set_ack C msg_0 (oper_code (snmp_msg m)) (if r \<noteq> 0 then -1 else 0) s1)"
  using assms
  by (cases "snmp_data_set_ack C msg_0 (oper_code (snmp_msg m)) (if r \<noteq> 0 then -1 else 0) s1")
     (auto simp: net_codes_def net_handler_def net_setter_def code_defs handler_defs
       split: if_splits)

context cstl_queue
begin

lemma set_handler_total:
  assumes "queue_ok items wfq (ack_queue s)" and "msg_type m = CMD_SET"
    and "has_nul (u_data (snmp_msg m))" and "oper_code (snmp_msg m) \<in> set net_codes"
  shows "\<exists>r s'. run_handler E C (net_handler (oper_code (snmp_msg m))) m s = Some (r, s') \<and>
           queue_ok items wfq (ack_queue s')"
proof -
  obtain r s1 where n: "net_setter E (oper_code (snmp_msg m)) (msg_data_str m) s = (r, s1)"
    by fastforce
  with net_setter_frame [OF n] assms(1) have "queue_ok items wfq (ack_queue s1)" by auto
  from set_ack_total [OF this, of "oper_code (snmp_msg m)" "if r \<noteq> 0 then -1 else 0"]
  show ?thesis using net_set_handler [OF assms(2-4) n, of C] by auto
qed

text \<open>The GET side of the network handlers, and the remaining handlers.\<close>

lemma get_handler_total:
  assumes "queue_ok items wfq (ack_queue s)" and "msg_type m = CMD_GET" and "routes_ok E"
    and "clock_para_wf (ClockParameter s)"
  shows "\<exists>r s'. run_handler E C h m s = Some (r, s') \<and> queue_ok items wfq (ack_queue s')"
proof (cases h)
  case H_0x01
  with assms address_total [of s 256 E SIOCGIFADDR "oper_code (snmp_msg m)"] show ?thesis
    by (auto simp: snmp_data_0x01_def len_defs)
next
  case H_0x02
  with assms address_total [of s 256 E SIOCGIFNETMASK "oper_code (snmp_msg m)"] show ?thesis
    by (auto simp: snmp_data_0x02_def len_defs)
next
  case H_0x03
  have "good_buffer MAX_LINE 255 (zeros 256)" by (simp add: good_buffer_def MAX_LINE_def cstr_zeros)
  from get_gateway_total [OF assms(3) this, of s] obtain r g h where
    g: "get_gateway E (zeros 256) s = Some (r, g, s\<lparr>hist := h\<rparr>)" "good_buffer MAX_LINE 255 g"
    by blast
  then have "has_nul g \<and> length g \<le> U_DATA_LEN" by (simp add: good_buffer_def MAX_LINE_def len_defs)
  with ack_string_total [of "s\<lparr>hist := h\<rparr>" g "oper_code (snmp_msg m)"] assms g H_0x03
  show ?thesis by (auto simp: snmp_data_0x03_def)
next
  case H_0x04
  obtain r b s' where b: "get_net_parameter E (Some (zeros 256)) SIOCGIFHWADDR s = Some (r, Some b, s')"
    "good_buffer 256 17 b" "queue_ok items wfq (ack_queue s')"
    using address_total [of s 256 E SIOCGIFHWADDR 0] assms(1) by (auto simp: len_defs)
  then obtain d where "c_strcpy (u_data (snmp_msg msg_0)) 0 b = Some d"
    using c_strcpy_ok [of b 0 "u_data (snmp_msg msg_0)"] by (auto simp: good_buffer_def len_defs)
  with b H_0x04 assms(2) show ?thesis by (auto simp: snmp_data_0x04_def)
next
  case H_0x36
  have "good_buffer 255 17 (zeros 255)" by (simp add: good_buffer_zeros)
  from get_net_parameter_total [OF this, of E SIOCGIFADDR s] obtain r b h where
    b: "get_net_parameter E (Some (zeros 255)) SIOCGIFADDR s = Some (r, Some b, s\<lparr>hist := h\<rparr>)"
    "good_buffer 255 17 b" by auto
  then obtain b1 b2 where "c_strcat b (lit '':'') = Some b1"
    "c_strcat b1 (lit SNMPD_SOURCES_PROT) = Some b2" "length b2 = 255" "has_nul b2"
    using source_text_ok by blast
  with b H_0x36 assms ack_string_total [of "s\<lparr>hist := h\<rparr>" b2 "oper_code (snmp_msg m)"]
  show ?thesis by (auto simp: snmp_data_0x36_def len_defs)
next
  case H_0x05
  with assms(1) show ?thesis by (simp add: snmp_data_0x05_def)
next
  case H_0x32
  with replies_0x32 [OF assms(1,2)] replied_ack_queue show ?thesis by auto
next
  case H_0x60
  with replies_0x60 [OF assms(1,2)] replied_ack_queue show ?thesis by auto
next
  case H_0x61
  with replies_0x61 [OF assms(1,2)] replied_ack_queue show ?thesis by auto
next
  case H_0x62
  with replies_param(1) [OF assms(1,2,4)] replied_ack_queue show ?thesis by auto
next
  case H_0x63
  with replies_0x63 [OF assms(1,2)] replied_ack_queue show ?thesis by auto
next
  case H_0x64
  with replies_0x64 [OF assms(1,2)] replied_ack_queue show ?thesis by auto
next
  case H_0x65
  with replies_param(2) [OF assms(1,2,4)] replied_ack_queue show ?thesis by auto
next
  case H_0x66
  with replies_param(3) [OF assms(1,2,4)] replied_ack_queue show ?thesis by auto
qed

end

lemma handled_code:
  "code \<in> set handled_codes \<Longrightarrow> unat code < 0x70 \<and> (\<exists>h. handler_at (unat code) = Some h)"
  by (auto simp: handled_codes_def handler_at_def)

lemma net_code_handler:
  "code \<in> set net_codes \<Longrightarrow>
     unat code < 0x70 \<and> handler_at (unat code) = Some (net_handler code)"
  by (auto simp: net_codes_def code_defs handler_at_def net_handler_def)

lemma other_set_handler:
  assumes "msg_type m \<noteq> CMD_GET" and "msg_type m \<noteq> CMD_SET \<or> h \<notin> {H_0x01, H_0x02, H_0x03}"
  shows "\<exists>r. run_handler E C h m s = Some (r, s)"
  using assms by (cases h) (auto simp: handler_defs Let_def)

lemma handler_at_net:
  "handler_at (unat code) = Some h \<Longrightarrow> h \<in> {H_0x01, H_0x02, H_0x03} \<Longrightarrow> code \<in> set net_codes"
  for code :: u32
  using unat_eq_one [of code]
  by (auto simp: handler_at_def net_codes_def code_defs unat_eq_numeral split: if_splits)

context cstl_queue
begin

lemma dispatch_total:
  assumes "queue_ok items wfq (ack_queue s)" and "request_ok m" and "routes_ok E"
    and "clock_para_wf (ClockParameter s)" and "SnmpData s = init_SnmpData SnmpData_0"
  shows "\<exists>r s'. dispatch E C m s = Inr (r, s') \<and> queue_ok items wfq (ack_queue s')"
proof -
  obtain h where h: "handler_at (unat (oper_code (snmp_msg m))) = Some h"
    and code: "unat (oper_code (snmp_msg m)) < 0x70"
    using assms(2) handled_code unfolding request_ok_def by blast
  have "\<exists>r s'. run_handler E C h m s = Some (r, s') \<and> queue_ok items wfq (ack_queue s')"
  proof -
    consider "msg_type m = CMD_GET" | "msg_type m = CMD_SET" "h \<in> {H_0x01, H_0x02, H_0x03}"
      | "msg_type m \<noteq> CMD_GET" "msg_type m \<noteq> CMD_SET \<or> h \<notin> {H_0x01, H_0x02, H_0x03}"
      by blast
    then show ?thesis
    proof cases
      case 1
      then show ?thesis using get_handler_total assms by blast
    next
      case 2
      then have net: "oper_code (snmp_msg m) \<in> set net_codes"
        using handler_at_net [OF h] by blast
      with net_code_handler h have "h = net_handler (oper_code (snmp_msg m))" by fastforce
      then show ?thesis
        using set_handler_total [OF assms(1) 2(1) _ net] assms(2) 2(1) by (simp add: request_ok_def)
    next
      case 3
      then show ?thesis using other_set_handler [OF 3, of E C s] assms(1) by blast
    qed
  qed
  with h code show ?thesis by (auto simp: dispatch_init [OF assms(5)])
qed

end

text \<open>What the receiving thread relies on, and the invariant it keeps.\<close>

definition snmp_inv ::
  "('q \<Rightarrow> sn_msg_param list) \<Rightarrow> ('q \<Rightarrow> bool) \<Rightarrow> ('q, 'z) snmp_st_scheme \<Rightarrow> bool" where
  "snmp_inv items wfq s \<longleftrightarrow>
     queue_ok items wfq (ack_queue s) \<and> queue_ok items wfq (send_queue s) \<and>
     clock_para_wf (ClockParameter s) \<and> SnmpData s = init_SnmpData SnmpData_0"

lemma snmp_inv_frame:
  "handler_frame s s' \<Longrightarrow> snmp_inv items wfq s \<Longrightarrow> queue_ok items wfq (ack_queue s') \<Longrightarrow>
     snmp_inv items wfq s'"
  by (auto simp: snmp_inv_def)

lemma map_sum_InrD: "map_sum f g x = Inr y \<Longrightarrow> \<exists>z. x = Inr z \<and> y = g z"
  by (cases x) auto

lemma dispatch_frame: "dispatch E C m s = Inr (r, s') \<Longrightarrow> handler_frame s s'"
  by (auto simp: dispatch_def Let_def run_handler_frame split: if_splits option.splits)

subsection \<open>Concrete states and requests for the witnesses\<close>

text \<open>The state after initialisation, over the list container.\<close>

definition snmp_st_0 :: "sn_msg_param list snmp_st" where
  "snmp_st_0 =
     \<lparr>hist = [], fpga_msg = \<lparr>addr = 0, tx_val = 0, rx_val = 0\<rparr>, ArmVersion = arm_version_built,
      ClockParameter = clock_para_0, send_queue = Some [], ack_queue = Some [], ack_sem = 0,
      sem_full = 0, sem_mutex = 1, trapsignal = 0, flag_trap = False,
      SnmpData = init_SnmpData SnmpData_0\<rparr>"

definition request :: "u32 \<Rightarrow> u32 \<Rightarrow> string \<Rightarrow> queue_msg_t" where
  "request ty code txt =
     \<lparr>msg_type = ty, snmp_msg = \<lparr>oper_code = code, error_code = 0,
        u_data = txt @ zeros (U_DATA_LEN - length txt)\<rparr>\<rparr>"

lemma request_simps [simp]:
  "msg_type (request ty code txt) = ty" "oper_code (snmp_msg (request ty code txt)) = code"
  "length txt < U_DATA_LEN \<Longrightarrow> has_nul (u_data (snmp_msg (request ty code txt)))"
  "NUL \<notin> set txt \<Longrightarrow> length txt < U_DATA_LEN \<Longrightarrow> msg_data_str (request ty code txt) = txt"
proof -
  show "msg_data_str (request ty code txt) = txt" if "NUL \<notin> set txt" "length txt < U_DATA_LEN"
  proof -
    from that(2) obtain k where "U_DATA_LEN - length txt = Suc k" by (metis Suc_diff_Suc)
    with that(1) show ?thesis
      by (simp add: request_def msg_data_str_def zeros_def cstr_append_nul)
  qed
qed (auto simp: request_def has_nul_def zeros_def)

lemma snmp_st_0_simps [simp]:
  "queue_ok (\<lambda>q. q) (\<lambda>q. True) (ack_queue snmp_st_0)"
  "queue_ok (\<lambda>q. q) (\<lambda>q. True) (send_queue snmp_st_0)"
  "clock_para_wf (ClockParameter snmp_st_0)" "SnmpData snmp_st_0 = init_SnmpData SnmpData_0"
  "snmp_inv (\<lambda>q. q) (\<lambda>q. True) snmp_st_0"
  by (simp_all add: snmp_inv_def snmp_st_0_def queue_ok_def clock_para_wf_0)

subsection \<open>Properties\<close>

context cstl_queue
begin

lemma get_replies:
  assumes "queue_ok items wfq (ack_queue s)" and "clock_para_wf (ClockParameter s)"
    and "SnmpData s = init_SnmpData SnmpData_0"
    and "msg_type m = CMD_GET" and "answer s (oper_code (snmp_msg m)) = Some tx"
  shows "\<exists>s'. dispatch E C m s = Inr (0, s') \<and> replied items wfq (oper_code (snmp_msg m)) 0 tx s s'"
  using assms(5) replies_0x32 [OF assms(1,4)] replies_0x60 [OF assms(1,4)]
    replies_0x61 [OF assms(1,4)] replies_0x63 [OF assms(1,4)] replies_0x64 [OF assms(1,4)]
    replies_param [OF assms(1,4,2)]
  by (auto simp: answer_def code_defs dispatch_init [OF assms(3)] handler_at_def split: if_splits)

end

text \<open>
  C21. A GET request for the device type, the work mode, a version, the model or a time is
  answered, whatever the environment does: the handler returns 0 and exactly one
  acknowledgement goes to the tail of the acknowledgement queue (the oldest one is dropped
  when it is full), stamped with the requested code, error 0 and the text of the parameter,
  and one count to its semaphore. Nothing else changes.
\<close>

theorem get_request_answered:
  assumes "cstl_queue C items wfq" and "queue_ok items wfq (ack_queue s)"
    and "clock_para_wf (ClockParameter s)" and "SnmpData s = init_SnmpData SnmpData_0"
    and "msg_type m = CMD_GET" and "answer s (oper_code (snmp_msg m)) = Some txt"
  shows "\<exists>s'. dispatch E C m s = Inr (0, s') \<and>
           replied items wfq (oper_code (snmp_msg m)) 0 txt s s'"
  by (rule cstl_queue.get_replies [OF assms])

theorem get_request_answered_witness:
  "\<exists>s'. dispatch idle_env list_cstl (request CMD_GET 0x60 []) snmp_st_0 = Inr (0, s') \<and>
     replied (\<lambda>q. q) (\<lambda>q. True) 0x60 0 ''Error'' snmp_st_0 s'"
proof -
  have "answer snmp_st_0 0x60 = Some ''Error''"
    by (simp add: answer_def code_defs mode_text_def snmp_st_0_def clock_para_0_def)
  with get_request_answered [OF lq.cstl_queue_axioms, of snmp_st_0 "request CMD_GET 0x60 []"
      "''Error''" idle_env]
  show ?thesis by simp
qed

context cstl_queue
begin

lemma set_replies:
  assumes "queue_ok items wfq (ack_queue s)" and "SnmpData s = init_SnmpData SnmpData_0"
    and "msg_type m = CMD_SET" and "oper_code (snmp_msg m) \<in> set net_codes" and "has_nul (u_data (snmp_msg m))"
    and "net_setter E (oper_code (snmp_msg m)) (msg_data_str m) s = (r, s1)"
  shows "\<exists>s'. dispatch E C m s = Inr (if r \<noteq> 0 then -1 else 0, s') \<and>
           replied items wfq (oper_code (snmp_msg m)) (if r \<noteq> 0 then -1 else 0) [] s1 s'"
proof -
  from net_setter_frame [OF assms(6)] assms(1) have "queue_ok items wfq (ack_queue s1)" by auto
  from set_ack_replies [OF msg_wf_0 this, of "oper_code (snmp_msg m)" "if r \<noteq> 0 then -1 else 0"]
  show ?thesis
    using net_set_handler [OF assms(3,5,4,6), of C] net_code_handler [OF assms(4)]
    by (auto simp: dispatch_init [OF assms(2)])
qed

end



text \<open>
  C35. The table lookup is unguarded: a message whose operation code is not one of the fourteen
  handled ones calls a null pointer, or reads behind the table when the code is 0x70 or more.
  For the handled codes the call itself is always sound.
\<close>

theorem dispatch_faults_iff_unhandled:
  assumes "SnmpData s = init_SnmpData SnmpData_0"
  shows "oper_code (snmp_msg m) \<notin> set handled_codes \<longleftrightarrow>
     dispatch E C m s =
       Inl (if unat (oper_code (snmp_msg m)) < 0x70 then Null_call else Table_overrun)"
proof
  assume "oper_code (snmp_msg m) \<notin> set handled_codes"
  then show "dispatch E C m s =
      Inl (if unat (oper_code (snmp_msg m)) < 0x70 then Null_call else Table_overrun)"
    using handler_at_None [of "oper_code (snmp_msg m)"] by (simp add: dispatch_init [OF assms])
next
  assume d: "dispatch E C m s =
      Inl (if unat (oper_code (snmp_msg m)) < 0x70 then Null_call else Table_overrun)"
  show "oper_code (snmp_msg m) \<notin> set handled_codes"
  proof
    assume "oper_code (snmp_msg m) \<in> set handled_codes"
    from handled_code [OF this] d show False
      by (auto simp: dispatch_init [OF assms] split: option.splits if_splits)
  qed
qed

theorem dispatch_faults_iff_unhandled_witness:
  "dispatch idle_env list_cstl (request CMD_GET 0x10 []) snmp_st_0 = Inl Null_call"
  using dispatch_faults_iff_unhandled [of snmp_st_0 "request CMD_GET 0x10 []" idle_env list_cstl]
  by (simp add: handled_codes_def)

text \<open>
  A GET request for the hardware address is never answered: when the handler returns, the
  acknowledgement queue, its semaphore and everything but the history are as before.
\<close>

theorem mac_request_unanswered:
  assumes "SnmpData s = init_SnmpData SnmpData_0" and "oper_code (snmp_msg m) = MSG_CODE_NET_MAC"
  shows "\<exists>r h. dispatch E C m s = Inr (r, s\<lparr>hist := h\<rparr>)"
proof (cases "msg_type m = CMD_GET")
  case True
  have "good_buffer 256 17 (zeros 256)" by (simp add: good_buffer_zeros)
  from get_net_parameter_total [OF this, of E SIOCGIFHWADDR s] obtain r b h where
    b: "get_net_parameter E (Some (zeros 256)) SIOCGIFHWADDR s = Some (r, Some b, s\<lparr>hist := h\<rparr>)"
    "good_buffer 256 17 b" by auto
  then obtain d where "c_strcpy (u_data (snmp_msg msg_0)) 0 b = Some d"
    using c_strcpy_ok [of b 0 "u_data (snmp_msg msg_0)"] by (auto simp: good_buffer_def len_defs)
  with True b assms(2) show ?thesis
    by (auto simp: dispatch_init [OF assms(1)] code_defs handler_at_def snmp_data_0x04_def)
next
  case False
  with assms(2) have "dispatch E C m s = Inr (-1, s\<lparr>hist := hist s\<rparr>)"
    by (simp add: dispatch_init [OF assms(1)] code_defs handler_at_def snmp_data_0x04_def)
  then show ?thesis by blast
qed

theorem mac_request_unanswered_witness:
  "\<exists>r h. dispatch idle_env list_cstl (request CMD_GET 0x04 []) snmp_st_0
     = Inr (r, snmp_st_0\<lparr>hist := h\<rparr>)"
  using mac_request_unanswered [of snmp_st_0 "request CMD_GET 0x04 []" idle_env list_cstl]
  by (simp add: code_defs)

text \<open>
  The agent on the other side of the request queue, as a contract: it only sends messages whose
  code is handled, whose text fits behind the type and, for a SET request, is terminated; and the
  routing command that the gateway is read from (\<open>routes_ok\<close>). The receiving thread is proved
  against this contract.
\<close>

locale snmp_agent = cstl_queue +
  fixes E :: env
    and q :: int
  assumes routes: "routes_ok E"
    and requests: "e_msgrcv E h q QUEUE_LEN 0 0 = Some (ty, txt) \<Longrightarrow>
           \<exists>m. received_msg ty txt = Some m \<and> request_ok m"
begin

lemma recv_turn_keeps:
  assumes "snmp_inv items wfq s"
  shows "\<exists>s'. snmp_recv_turn E C q s = Inr s' \<and> snmp_inv items wfq s'"
proof (cases "e_msgrcv E (hist s) q QUEUE_LEN 0 0")
  case None
  with assms show ?thesis
    by (simp add: snmp_recv_turn_def sys_defs emit_def snmp_inv_def)
next
  case (Some r)
  obtain ty t where r: "r = (ty, t)" by (cases r)
  with Some requests obtain m where m: "received_msg ty t = Some m" "request_ok m" by blast
  define s1 where "s1 = (let s = emit (Ev_msgrcv q QUEUE_LEN 0 0) s in
    if (msg_type m = CMD_GET \<or> msg_type m = CMD_SET) \<and> \<not> flag_trap s
    then s\<lparr>flag_trap := True\<rparr> else s)"
  have inv1: "snmp_inv items wfq s1"
    using assms by (simp add: s1_def snmp_inv_def emit_def Let_def)
  then have "queue_ok items wfq (ack_queue s1)" "clock_para_wf (ClockParameter s1)"
    "SnmpData s1 = init_SnmpData SnmpData_0" by (simp_all add: snmp_inv_def)
  from dispatch_total [OF this(1) m(2) routes this(2,3)]
  obtain c s' where d: "dispatch E C m s1 = Inr (c, s')" "queue_ok items wfq (ack_queue s')" by blast
  then have "snmp_inv items wfq s'" using snmp_inv_frame [OF dispatch_frame] inv1 by blast
  moreover have "snmp_recv_turn E C q s = Inr s'"
    using Some r m d by (simp add: snmp_recv_turn_def sys_msgrcv_def s1_def Let_def)
  ultimately show ?thesis by blast
qed

lemma recv_turns_keep:
  "snmp_inv items wfq s \<Longrightarrow> \<exists>s'. snmp_recv_turns E C q n s = Inr s' \<and> snmp_inv items wfq s'"
proof (induction n arbitrary: s)
  case (Suc n)
  from recv_turn_keeps [OF Suc.prems] obtain t where
    "snmp_recv_turn E C q s = Inr t" "snmp_inv items wfq t" by blast
  with Suc.IH [of t] show ?case by simp
qed simp

end

sublocale snmp_agent \<subseteq> recv: step_invariant "snmp_inv items wfq"
  "\<lambda>s s'. snmp_recv_turn E C q s = Inr s'" "snmp_inv items wfq"
proof
  fix s t assume "snmp_inv items wfq s" "snmp_recv_turn E C q s = Inr t"
  with recv_turn_keeps [of s] show "snmp_inv items wfq t" by auto
qed


text \<open>A kernel queue that always holds the same message.\<close>

definition recv_env :: "u32 \<Rightarrow> string \<Rightarrow> env" where
  "recv_env ty txt = route_env\<lparr>e_msgrcv := \<lambda>h q n t f. Some (ty, txt)\<rparr>"

lemma routes_ok_recv_env: "routes_ok (recv_env ty txt)"
  by (simp add: routes_ok_def recv_env_def route_env_def MAX_LINE_def NUL_def)

definition short_text :: "u32 \<Rightarrow> string" where
  "short_text code = le32 code @ zeros 4"

lemma received_short:
  "received_msg ty (short_text code) = Some (request ty code [])"
  by (simp add: received_msg_def short_text_def decode_msg_def request_def len_defs)
    (simp add: of_le32_def zeros_def NUL_def numeral_2_eq_2 numeral_3_eq_3)

lemma request_ok_sample: "request_ok (request CMD_GET 0x60 [])"
  by (simp add: request_ok_def handled_codes_def)

interpretation mode_agent: snmp_agent list_cstl "\<lambda>q. q" "\<lambda>q. True"
  "recv_env CMD_GET (short_text 0x60)" q for q
proof
  fix h ty bs
  assume "e_msgrcv (recv_env CMD_GET (short_text 0x60)) h q QUEUE_LEN 0 0 = Some (ty, bs)"
  then have "received_msg ty bs = Some (request CMD_GET 0x60 [])"
    by (auto simp: recv_env_def received_short)
  with request_ok_sample show "\<exists>m. received_msg ty bs = Some m \<and> request_ok m" by blast
qed (rule routes_ok_recv_env)


text \<open>
  The trap gate: a turn opens it exactly when it takes a GET or SET message from the kernel,
  and never closes it. Whatever the handlers and the environment do.
\<close>

theorem recv_turn_trap_gate:
  assumes "snmp_recv_turn E C q s = Inr s'"
  shows "flag_trap s' \<longleftrightarrow> flag_trap s \<or>
     (\<exists>ty bs m. e_msgrcv E (hist s) q QUEUE_LEN 0 0 = Some (ty, bs) \<and> received_msg ty bs = Some m \<and>
        (msg_type m = CMD_GET \<or> msg_type m = CMD_SET))"
proof (cases "e_msgrcv E (hist s) q QUEUE_LEN 0 0")
  case None
  with assms show ?thesis by (auto simp: snmp_recv_turn_def sys_defs emit_def)
next
  case (Some r)
  obtain ty bs where r: "r = (ty, bs)" by (cases r)
  with Some assms obtain m where m: "received_msg ty bs = Some m"
    by (auto simp: snmp_recv_turn_def sys_msgrcv_def split: option.splits)
  with Some r assms show ?thesis
    by (auto simp: snmp_recv_turn_def sys_msgrcv_def emit_def Let_def
        dest!: map_sum_InrD dispatch_frame handler_frame_flag(1) split: if_splits)
qed

theorem recv_turn_trap_gate_witness:
  "\<exists>s'. snmp_recv_turn (recv_env CMD_GET (short_text 0x05)) list_cstl 0 snmp_st_0 = Inr s' \<and>
     flag_trap s'"
proof -
  obtain s' where s': "snmp_recv_turn (recv_env CMD_GET (short_text 0x05)) list_cstl 0 snmp_st_0 = Inr s'"
    by (simp add: snmp_recv_turn_def sys_msgrcv_def recv_env_def received_short emit_def Let_def
        dispatch_init snmp_st_0_def handler_at_def snmp_data_0x05_def)
  from recv_turn_trap_gate [OF s'] s' show ?thesis
    by (simp add: recv_env_def received_short)
qed

text \<open>
  The receive buffer is too small by the size of the type field: \<open>msgrcv\<close> is told that the
  text may have \<open>sizeof (QUEUE_MSG_T)\<close> bytes although four of them are the type, so a message
  whose text has 1289 to 1292 bytes, which the kernel may deliver, is written past its end.
\<close>

theorem recv_turn_overrun:
  assumes "e_msgrcv E (hist s) q QUEUE_LEN 0 0 = Some (ty, bs)"
    and "QUEUE_LEN - 4 < length bs" and "length bs \<le> QUEUE_LEN"
  shows "snmp_recv_turn E C q s = Inl Buffer_overrun"
proof -
  have "received_msg ty bs = None" using assms(2) by (simp add: received_msg_def)
  with assms(1) show ?thesis by (simp add: snmp_recv_turn_def sys_msgrcv_def)
qed

theorem recv_turn_overrun_witness:
  "snmp_recv_turn (recv_env CMD_GET (zeros 1289)) list_cstl 0 snmp_st_0 = Inl Buffer_overrun"
  by (rule recv_turn_overrun [of _ _ _ CMD_GET "zeros 1289"]) (simp_all add: recv_env_def len_defs)

text \<open>
  In the older handler the application version is unreachable: its case falls through, so
  the request is answered with the text of the FPGA version.
\<close>

theorem old_handler_version_falls_through:
  assumes "cstl_queue C items wfq" and "queue_ok items wfq (ack_queue s)"
    and "clock_para_wf (ClockParameter s)"
    and "msg_type m = CMD_GET" and "oper_code (snmp_msg m) = MSG_CODE_CDD_APP_VER"
  shows "\<exists>s'. snmp_data_deal E C m s = Some (0, s') \<and>
           replied items wfq MSG_CODE_CDD_APP_VER 0 (cstr (fpga_version (ClockParameter s))) s s'"
proof -
  have "82 \<le> length (u_data (snmp_msg msg_0))" by (simp add: len_defs)
  from get_arm_version_ok [OF this, of "ArmVersion s"] obtain b where b:
    "get_arm_version (ArmVersion s) (Some (u_data (snmp_msg msg_0))) =
       Some (int (length (version_text (ArmVersion s))), Some b)" "length b = U_DATA_LEN"
    by auto
  have v: "has_nul (fpga_version (ClockParameter s))"
    "length (fpga_version (ClockParameter s)) \<le> U_DATA_LEN"
    using assms(3) param_string_fits by (auto simp: clock_para_wf_def)
  then obtain d where d: "c_strcpy b 0 (fpga_version (ClockParameter s)) = Some d"
    using c_strcpy_ok [of "fpga_version (ClockParameter s)" 0 b] b(2) by auto
  then have "msg_data_str (set_u_data d msg_0) = cstr (fpga_version (ClockParameter s))"
    "length d = U_DATA_LEN"
    using c_strcpy_cstr [OF d] c_strcpy_length [OF d] b(2) by (simp_all add: msg_data_str_def)
  with cstl_queue.set_ack_replies [OF assms(1) set_u_data_wf assms(2), of d msg_0
      MSG_CODE_CDD_APP_VER 0] b d assms(4,5)
  show ?thesis
    by (auto simp: snmp_data_deal_def Let_def cdd_get_clk_param_def snmp_data_ack_eq code_defs)
qed

theorem old_handler_version_falls_through_witness:
  "\<exists>s'. snmp_data_deal idle_env list_cstl (request CMD_GET MSG_CODE_CDD_APP_VER []) snmp_st_0
      = Some (0, s') \<and>
     replied (\<lambda>q. q) (\<lambda>q. True) MSG_CODE_CDD_APP_VER 0 [] snmp_st_0 s'"
proof -
  have "cstr (fpga_version (ClockParameter snmp_st_0)) = []"
    by (simp add: snmp_st_0_def clock_para_0_def cstr_zeros)
  with old_handler_version_falls_through [OF lq.cstl_queue_axioms, of snmp_st_0
      "request CMD_GET MSG_CODE_CDD_APP_VER []" idle_env]
  show ?thesis by simp
qed

end
