(* ===== verification/Snmp_Threads.thy ===== *)
theory Snmp_Threads
  imports Snmp_Handlers
begin

text \<open>
  The sending side of \<open>snmp.c\<close>: composing and queueing traps, the threads
  \<open>pthread_second_task\<close>, \<open>pthread_snmp_send\<close> and \<open>pthread_snmp_send_ack\<close> one turn at a time,
  initialisation, the termination handler and the timer. The interleavings of these threads
  are the subject of \<open>Trap_Pipeline\<close> and \<open>Ack_Pipeline\<close>.
\<close>

subsection \<open>Outcomes\<close>

text \<open>
  A call finishes, waits on a semaphore whose value is 0, or has undefined behaviour. A turn of
  a thread either goes on to the next turn or returns from the thread.
\<close>

datatype 'a outcome = Done 'a | Blocked | Undefined

datatype 's turn = Next 's | Thread_exit 's

fun run_turns :: "nat \<Rightarrow> ('s \<Rightarrow> 's turn outcome) \<Rightarrow> 's \<Rightarrow> 's turn outcome" where
  "run_turns 0 f s = Done (Next s)"
| "run_turns (Suc n) f s =
     (case f s of Done (Next s') \<Rightarrow> run_turns n f s' | r \<Rightarrow> r)"

definition sem_wait :: "nat \<Rightarrow> nat option" where
  "sem_wait v = (if v = 0 then None else Some (v - 1))"

subsection \<open>Bits and values of the status words\<close>

definition GPS_LOCK_STATE_BIT :: u32 where
  "GPS_LOCK_STATE_BIT = 0x0080"

definition PTP_LOCK_STATE_BIT :: u32 where
  "PTP_LOCK_STATE_BIT = 0x2000"

definition FPGA_WORK_STATE_MASTER :: u32 where
  "FPGA_WORK_STATE_MASTER = 0x5a"

definition FPGA_WORK_STATE_SLAVE :: u32 where
  "FPGA_WORK_STATE_SLAVE = 0xaa"

definition NET_CONNECT_STATE_BIT :: u8 where
  "NET_CONNECT_STATE_BIT = 49"

definition OMAP_RUN_STATE_BIT :: u32 where
  "OMAP_RUN_STATE_BIT = 0x1000"

lemmas status_bits [const_defs] = GPS_LOCK_STATE_BIT_def PTP_LOCK_STATE_BIT_def
  FPGA_WORK_STATE_MASTER_def FPGA_WORK_STATE_SLAVE_def NET_CONNECT_STATE_BIT_def
  OMAP_RUN_STATE_BIT_def

subsection \<open>Traps\<close>

definition snmp_data_trap ::
  "'q cstl_ops \<Rightarrow> queue_msg_t \<Rightarrow> u32 \<Rightarrow> ('q, 'z) snmp_st_scheme
     \<Rightarrow> (int \<times> ('q, 'z) snmp_st_scheme) outcome" where
  "snmp_data_trap C queue code s =
     (let queue = stamp_msg CMD_TRAP 0 code queue
      in case sem_wait (sem_mutex s) of
           None \<Rightarrow> Blocked
         | Some v \<Rightarrow>
             (let s = s\<lparr>sem_mutex := v\<rparr>
              in case push_msg C queue (send_queue s) of
                   None \<Rightarrow> Undefined
                 | Some (ret, q) \<Rightarrow>
                     (let s = s\<lparr>send_queue := q\<rparr>
                      in if ret = -1 then Done (-1, s\<lparr>sem_mutex := sem_mutex s + 1\<rparr>)
                         else
                           (let s = s\<lparr>sem_mutex := sem_mutex s + 1\<rparr>
                            in Done (0, s\<lparr>sem_full := sem_full s + 1\<rparr>)))))"

text \<open>The text a trap reports about the parameter block, and the whole union it fills.\<close>

definition trap_state_text :: "clock_para \<Rightarrow> u32 \<Rightarrow> string option" where
  "trap_state_text p opt_code =
     (if opt_code = CDD_CLK_SOURCE_TRAP then
        table_at trap_clk_source (unat (drop_bit 14 (clock_source p) AND 0x3))
      else if opt_code = CDD_GPS_LOCK_TRAP then
        table_at trap_Lock_state (if gps_lockstate p AND GPS_LOCK_STATE_BIT \<noteq> 0 then 1 else 0)
      else if opt_code = CDD_PTP_LOCK_TRAP then
        table_at trap_Lock_state (if ptp_lockstate p AND PTP_LOCK_STATE_BIT \<noteq> 0 then 1 else 0)
      else if opt_code = CDD_FPGA_WORK_TRAP then
        table_at trap_FPGA_Work_state
          (if device_fpgastate p = FPGA_WORK_STATE_SLAVE \<or>
              device_fpgastate p = FPGA_WORK_STATE_MASTER
           then (if device_fpgastate p = FPGA_WORK_STATE_MASTER then 1 else 0) else 2)
      else if opt_code = CDD_NET_LINK_TRAP then
        table_at trap_Net_state (if net_connectstate p = NET_CONNECT_STATE_BIT then 1 else 0)
      else table_at trap_arm_run_state (if arm_runstate p AND OMAP_RUN_STATE_BIT \<noteq> 0 then 1 else 0))"

definition trap_codes :: "u32 list" where
  "trap_codes = [CDD_CLK_SOURCE_TRAP, CDD_GPS_LOCK_TRAP, CDD_PTP_LOCK_TRAP, CDD_FPGA_WORK_TRAP,
     CDD_NET_LINK_TRAP, CDD_OMAP_RUN_TRAP]"

definition trap_message :: "clock_para \<Rightarrow> u32 \<Rightarrow> string \<Rightarrow> queue_msg_t option" where
  "trap_message p opt_code buffer =
     (if opt_code \<in> set trap_codes then
        do { src \<leftarrow> trap_state_text p opt_code;
             b \<leftarrow> c_strcpy (u_data (snmp_msg msg_0)) 0 src;
             b \<leftarrow> c_strcpy b SIZE buffer;
             Some (set_u_data b msg_0) }
      else Some msg_0)"

definition Trap_msg_to_snmpd ::
  "env \<Rightarrow> 'q cstl_ops \<Rightarrow> u32 \<Rightarrow> ('q, 'z) snmp_st_scheme \<Rightarrow> ('q, 'z) snmp_st_scheme outcome" where
  "Trap_msg_to_snmpd E C opt_code s =
     (let trapptr = cdd_get_clk_param s
      in case do { (_, buffer, s) \<leftarrow> get_net_parameter E (Some (zeros 255)) SIOCGIFADDR s;
                   b \<leftarrow> buffer;
                   b \<leftarrow> c_strcat b (lit '':'');
                   b \<leftarrow> c_strcat b (lit SNMPD_SOURCES_PROT);
                   m \<leftarrow> trap_message trapptr opt_code b;
                   Some (m, s) } of
           None \<Rightarrow> Undefined
         | Some (m, s) \<Rightarrow>
             (case snmp_data_trap C m opt_code s of
                Done (_, s) \<Rightarrow> Done s | Blocked \<Rightarrow> Blocked | Undefined \<Rightarrow> Undefined))"

subsection \<open>The second task\<close>

definition Check_trap_flag :: "('q, 'z) snmp_st_scheme \<Rightarrow> bool" where
  "Check_trap_flag s = flag_trap s"

definition refresh_cdd_param ::
  "('q, 'z) snmp_st_scheme \<Rightarrow> ('q, 'z) snmp_st_scheme option" where
  "refresh_cdd_param s =
     (case c_strcpy (recvport (cdd_get_clk_param s)) 0 (lit ''192.168.1.100:888'') of
        None \<Rightarrow> None
      | Some b \<Rightarrow> Some (s\<lparr>ClockParameter := (ClockParameter s)\<lparr>recvport := b\<rparr>\<rparr>))"

fun send_traps ::
  "env \<Rightarrow> 'q cstl_ops \<Rightarrow> u32 list \<Rightarrow> ('q, 'z) snmp_st_scheme \<Rightarrow> ('q, 'z) snmp_st_scheme outcome" where
  "send_traps E C [] s = Done s"
| "send_traps E C (code # codes) s =
     (case Trap_msg_to_snmpd E C code s of
        Done s \<Rightarrow> send_traps E C codes s | Blocked \<Rightarrow> Blocked | Undefined \<Rightarrow> Undefined)"

definition second_task_turn ::
  "env \<Rightarrow> 'q cstl_ops \<Rightarrow> ('q, 'z) snmp_st_scheme \<Rightarrow> ('q, 'z) snmp_st_scheme outcome" where
  "second_task_turn E C s =
     (case sem_wait (trapsignal s) of
        None \<Rightarrow> Blocked
      | Some v \<Rightarrow>
          (case refresh_cdd_param (s\<lparr>trapsignal := v\<rparr>) of
             None \<Rightarrow> Undefined
           | Some s \<Rightarrow>
               if Check_trap_flag s
               then send_traps E C [0x70, 0x71, 0x72, 0x73, 0x74, 0x75] s
               else Done s))"

text \<open>The handler of the interval timer.\<close>

definition signal_handler :: "('q, 'z) snmp_st_scheme \<Rightarrow> ('q, 'z) snmp_st_scheme" where
  "signal_handler s = s\<lparr>trapsignal := trapsignal s + 1\<rparr>"

subsection \<open>The two sending threads\<close>

text \<open>
  Each thread looks its kernel queue up when it starts. The local \<open>msg\<close> is kept from turn to
  turn; a node overwrites its first \<open>length\<close> bytes. The trap thread tells the kernel that the text
  behind the type has \<open>sizeof (QUEUE_MSG_T)\<close> bytes, which makes it read four bytes behind \<open>msg\<close>
  (\<open>sys_msgsnd\<close> records them); the acknowledgement thread subtracts the type.
\<close>

definition snmp_send_turn ::
  "env \<Rightarrow> 'q cstl_ops \<Rightarrow> sn_msg_param \<Rightarrow> string \<Rightarrow> ('q, 'z) snmp_st_scheme
     \<Rightarrow> (string \<times> ('q, 'z) snmp_st_scheme) turn outcome" where
  "snmp_send_turn E C node_0 msg s =
     (let (MsgID_Send, s) = sys_msgget E KEY_ID_SEND IPC_EXCL s
      in if MsgID_Send < 0 then Done (Thread_exit (msg, s))
         else (case sem_wait (sem_full s) of
                 None \<Rightarrow> Blocked
               | Some full \<Rightarrow>
         (case sem_wait (sem_mutex s) of
            None \<Rightarrow> Blocked
          | Some mutex \<Rightarrow>
         (let s = s\<lparr>sem_full := full, sem_mutex := mutex\<rparr>
          in case SN_Free_Lock_Queue_Get C (Some node_0) (send_queue s) of
               Some (ret, Some node) \<Rightarrow>
                 if ret \<noteq> 0 then
                   (let (ret1, q) = SN_Free_Lock_Queue_Pop C (send_queue s);
                        s = s\<lparr>send_queue := q, sem_mutex := sem_mutex s + 1\<rparr>
                    in if ret1 \<noteq> 0 then Done (Thread_exit (msg, s)) else Done (Next (msg, s)))
                 else
                   (case c_memcpy msg (data node) (unat (length_of node)) of
                      None \<Rightarrow> Undefined
                    | Some msg \<Rightarrow>
                        (let (ret1, q) = SN_Free_Lock_Queue_Pop C (send_queue s);
                             s = s\<lparr>send_queue := q, sem_mutex := sem_mutex s + 1\<rparr>
                         in if ret1 \<noteq> 0 then Done (Thread_exit (msg, s))
                            else
                              (let (len, s) = sys_msgsnd E MsgID_Send msg QUEUE_LEN s
                               in Done (Next (msg, s)))))
             | _ \<Rightarrow> Undefined))))"

definition snmp_send_ack_turn ::
  "env \<Rightarrow> 'q cstl_ops \<Rightarrow> int \<Rightarrow> sn_msg_param \<Rightarrow> string \<Rightarrow> ('q, 'z) snmp_st_scheme
     \<Rightarrow> (string \<times> ('q, 'z) snmp_st_scheme) turn outcome" where
  "snmp_send_ack_turn E C MsgID_Send node_0 msg s =
     (case sem_wait (ack_sem s) of
        None \<Rightarrow> Blocked
      | Some v \<Rightarrow>
         (let s = s\<lparr>ack_sem := v\<rparr>
          in case SN_Free_Lock_Queue_Get C (Some node_0) (ack_queue s) of
               Some (ret, Some node) \<Rightarrow>
                 if ret \<noteq> 0 then
                   (let (ret1, q) = SN_Free_Lock_Queue_Pop C (ack_queue s); s = s\<lparr>ack_queue := q\<rparr>
                    in if ret1 \<noteq> 0 then Done (Thread_exit (msg, s)) else Done (Next (msg, s)))
                 else
                   (case c_memcpy msg (data node) (unat (length_of node)) of
                      None \<Rightarrow> Undefined
                    | Some msg \<Rightarrow>
                        (let (len, s) = sys_msgsnd E MsgID_Send msg (QUEUE_LEN - 4) s;
                             (ret1, q) = SN_Free_Lock_Queue_Pop C (ack_queue s);
                             s = s\<lparr>ack_queue := q\<rparr>
                         in if ret1 \<noteq> 0 then Done (Thread_exit (msg, s)) else Done (Next (msg, s))))
             | _ \<Rightarrow> Undefined))"

text \<open>The threads themselves, observed for \<open>n\<close> turns of their endless loops.\<close>

definition pthread_snmp_send ::
  "env \<Rightarrow> 'q cstl_ops \<Rightarrow> sn_msg_param \<Rightarrow> nat \<Rightarrow> ('q, 'z) snmp_st_scheme
     \<Rightarrow> (string \<times> ('q, 'z) snmp_st_scheme) turn outcome" where
  "pthread_snmp_send E C node n s =
     (let (MsgID_Send, s) = sys_msgget E KEY_ID_SEND IPC_EXCL s; msg = zeros QUEUE_LEN
      in if MsgID_Send < 0 then Done (Thread_exit (msg, s))
         else run_turns n (\<lambda>(msg, s). snmp_send_turn E C node msg s) (msg, s))"

definition pthread_snmp_send_ack ::
  "env \<Rightarrow> 'q cstl_ops \<Rightarrow> sn_msg_param \<Rightarrow> nat \<Rightarrow> ('q, 'z) snmp_st_scheme
     \<Rightarrow> (string \<times> ('q, 'z) snmp_st_scheme) turn outcome" where
  "pthread_snmp_send_ack E C node n s =
     (let (MsgID_Send, s) = sys_msgget E KEY_ID_ACK IPC_EXCL s; msg = zeros QUEUE_LEN
      in if MsgID_Send < 0 then Done (Thread_exit (msg, s))
         else run_turns n (\<lambda>(msg, s). snmp_send_ack_turn E C MsgID_Send node msg s) (msg, s))"

subsection \<open>Initialisation and termination\<close>

text \<open>The queue is looked up, and created with mode 0666 when there is none.\<close>

definition open_or_create :: "env \<Rightarrow> nat \<Rightarrow> 'z plat_scheme \<Rightarrow> int \<times> 'z plat_scheme" where
  "open_or_create E key s =
     (let (qid, s) = sys_msgget E key IPC_EXCL s
      in if qid < 0 then sys_msgget E key (IPC_CREAT + 438) s else (qid, s))"

text \<open>The termination signals all get the handler \<open>my_func\<close>.\<close>

definition install_handlers :: "'z plat_scheme \<Rightarrow> 'z plat_scheme" where
  "install_handlers s = sys_sigaction ''SIGTERM'' ''my_func'' (sys_sigaction ''SIGQUIT'' ''my_func''
     (sys_sigaction ''SIGINT'' ''my_func'' s))"

text \<open>The interval timer fires every three seconds, the first time after three seconds.\<close>

definition set_timer :: "'z plat_scheme \<Rightarrow> 'z plat_scheme" where
  "set_timer s = sys_setitimer 3 3 s"

text \<open>What the cell of a queue pointer holds after a call that was given its address.\<close>

definition stored_queue :: "'q option option \<Rightarrow> 'q option \<Rightarrow> 'q option" where
  "stored_queue cell old = (case cell of None \<Rightarrow> old | Some q \<Rightarrow> q)"

definition snmp_init ::
  "env \<Rightarrow> 'q cstl_ops \<Rightarrow> ('q, 'z) snmp_st_scheme \<Rightarrow> int \<times> ('q, 'z) snmp_st_scheme" where
  "snmp_init E C s =
     (let (MsgID_Send, s) = open_or_create E KEY_ID_SEND (install_handlers s)
      in if MsgID_Send < 0 then (-1, s)
         else (let (MsgID_Recv, s) = open_or_create E KEY_ID_RECV s
               in if MsgID_Recv < 0 then (-2, s)
         else (let (MsgID_Send_ack, s) = open_or_create E KEY_ID_ACK s
               in if MsgID_Send_ack < 0 then (-2, s)
         else (case SN_Free_Lock_Queue_Create C (Some (send_queue s)) of
                 (ret, cell) \<Rightarrow>
           (let s = s\<lparr>send_queue := stored_queue cell (send_queue s)\<rparr>
            in if ret = -1 then (-1, s)
         else (let s = s\<lparr>sem_full := 0, sem_mutex := 1, trapsignal := 0\<rparr>
               in case SN_Free_Lock_Queue_Create C (Some (ack_queue s)) of
                 (ret, cell) \<Rightarrow>
           (let s = s\<lparr>ack_queue := stored_queue cell (ack_queue s)\<rparr>
            in if ret = -1 then (-1, s)
         else
           (let s = sys_sigaction ''SIGALRM'' ''signal_handler'' (set_timer (s\<lparr>ack_sem := 0\<rparr>))
            in (0, s\<lparr>SnmpData := init_SnmpData (SnmpData s)\<rparr>)))))))))"

text \<open>
  The handler of the termination signals. Each queue must be found and removed before the next
  one is looked at; every path ends the process with \<open>exit (0)\<close>.
\<close>

fun remove_queues :: "env \<Rightarrow> nat list \<Rightarrow> 'z plat_scheme \<Rightarrow> bool \<times> 'z plat_scheme" where
  "remove_queues E [] s = (True, s)"
| "remove_queues E (key # keys) s =
     (let (qid, s) = sys_msgget E key IPC_EXCL s
      in if qid < 0 then (False, s)
         else (let (r, s) = sys_msgctl_rmid E qid s
               in if r < 0 then (False, s) else remove_queues E keys s))"

definition my_func ::
  "env \<Rightarrow> 'q cstl_ops \<Rightarrow> ('q, 'z) snmp_st_scheme \<Rightarrow> ('q, 'z) snmp_st_scheme" where
  "my_func E C s =
     (let (ok, s) = remove_queues E [KEY_ID_RECV, KEY_ID_SEND, KEY_ID_ACK] s
      in if \<not> ok then emit (Ev_exit 0) s
         else
           (let (_, cell) = SN_Free_Lock_Queue_Destroy C (Some (send_queue s));
                s = s\<lparr>send_queue := stored_queue cell (send_queue s), sem_full := 0, sem_mutex := 0\<rparr>;
                (_, cell) = SN_Free_Lock_Queue_Destroy C (Some (ack_queue s));
                s = s\<lparr>ack_queue := stored_queue cell (ack_queue s), ack_sem := 0\<rparr>
            in emit (Ev_exit 0) s))"

text \<open>
  \<open>clean_MsgQueue\<close> receives until the kernel has no message left, which may never happen. It
  allows the text one \<open>SNMP_MSG_T\<close>, so what is stored stays inside the message.
\<close>

partial_function (option) clean_loop ::
  "env \<Rightarrow> int \<Rightarrow> string \<Rightarrow> 'z plat_scheme \<Rightarrow> (string \<times> 'z plat_scheme) option" where
  "clean_loop E msqid p_msg s =
     (let (reply, s) = sys_msgrcv E msqid (QUEUE_LEN - 4) CMD_ACK IPC_NOWAIT s
      in case reply of
           None \<Rightarrow> Some (p_msg, s)
         | Some (ty, bs) \<Rightarrow>
             clean_loop E msqid (write_at 0 (le32 ty @ take (QUEUE_LEN - 4) bs) p_msg) s)"

definition clean_MsgQueue ::
  "env \<Rightarrow> string \<Rightarrow> nat \<Rightarrow> 'z plat_scheme \<Rightarrow> (int \<times> string \<times> 'z plat_scheme) option" where
  "clean_MsgQueue E p_msg c s =
     (let (msqid, s) = sys_msgget E c IPC_EXCL s
      in if msqid < 0 then Some (-1, p_msg, s)
         else map_option (\<lambda>(p, s). (0, p, s)) (clean_loop E msqid p_msg s))"

subsection \<open>What the traps say\<close>

text \<open>The reported texts, from the bits of the status words.\<close>

definition reported :: "clock_para \<Rightarrow> u32 \<Rightarrow> string" where
  "reported p code =
     (if code = CDD_CLK_SOURCE_TRAP then
        (if bit (clock_source p) 15
         then (if bit (clock_source p) 14 then ''PTPClock'' else ''RS422Clock'')
         else (if bit (clock_source p) 14 then ''GPSClock'' else ''AutoClock''))
      else if code = CDD_GPS_LOCK_TRAP then
        (if bit (gps_lockstate p) 7 then ''Lock'' else ''UnLock'')
      else if code = CDD_PTP_LOCK_TRAP then
        (if bit (ptp_lockstate p) 13 then ''Lock'' else ''UnLock'')
      else if code = CDD_FPGA_WORK_TRAP then
        (if device_fpgastate p = 0x5a then ''FPGAmasterState''
         else if device_fpgastate p = 0xaa then ''FPGAslaveState'' else ''Error'')
      else if code = CDD_NET_LINK_TRAP then
        (if net_connectstate p = 49 then ''Connected'' else ''Disconnected'')
      else (if bit (arm_runstate p) 12 then ''Stop'' else ''Run''))"

lemma trap_state_text_reported:
  assumes "code \<in> set trap_codes"
  shows "trap_state_text p code = Some (lit (reported p code))"
proof -
  have "trap_state_text p code = table_at trap_clk_source
      ((if bit (clock_source p) 14 then 1 else 0) + (if bit (clock_source p) 15 then 2 else 0))"
    if "code = CDD_CLK_SOURCE_TRAP"
    unfolding trap_state_text_def two_bits using that by simp
  then show ?thesis
    using assms
    by (auto simp: trap_state_text_def reported_def trap_codes_def trap_code_defs status_bits
        mask_bits table_at_def table_defs numeral_2_eq_2 numeral_3_eq_3)
qed

lemma reported_props: "NUL \<notin> set (reported p code)" "length (reported p code) < SIZE"
  by (auto simp: reported_def NUL_def SIZE_def)

lemma trap_message_ok:
  assumes "code \<in> set trap_codes" and "has_nul b" and "length (cstr b) < SIZE"
  shows "\<exists>m. trap_message p code b = Some m \<and> msg_wf m \<and> trap_state m = reported p code \<and>
           trap_source m = cstr b"
proof -
  let ?u = "u_data (snmp_msg msg_0)"
  obtain d where d: "c_store ?u 0 (reported p code) = Some d"
    using c_store_ok [of 0 "reported p code" ?u] reported_props [of p code]
    by (auto simp: len_defs)
  have ld: "length d = U_DATA_LEN" and rd: "cstr d = reported p code"
    using c_store_length [OF d] c_store_read0 [OF d] reported_props(1) [of p code] by simp_all
  obtain e where e: "c_store d SIZE (cstr b) = Some e"
    using c_store_ok [of SIZE "cstr b" d] assms(3) ld by (auto simp: len_defs)
  have "length e = U_DATA_LEN" using c_store_length [OF e] ld by simp
  moreover have "cstr e = cstr d"
    using cstr_drop_write_at_other [of SIZE "cstr b @ [NUL]" d 0] e reported_props(2) [of p code] rd
    by (auto simp: c_store_Some)
  moreover have "cstr (drop SIZE e) = cstr b" using c_store_read [OF e] by simp
  ultimately show ?thesis
    using d e rd assms(1,2) reported_props(1) [of p code]
    by (auto simp: trap_message_def trap_state_text_reported cstr_lit c_strcpy_def msg_wf_def
        trap_state_def trap_source_def)
qed

text \<open>
  A queued trap, composed after the history \<open>h\<close>: stamped with its code, saying what the parameter
  block says, and naming as its source the address the kernel then reports for the interface.
\<close>

definition trap_of :: "env \<Rightarrow> history \<Rightarrow> clock_para \<Rightarrow> u32 \<Rightarrow> queue_msg_t \<Rightarrow> bool" where
  "trap_of E h p code m \<longleftrightarrow>
     msg_wf m \<and> msg_type m = CMD_TRAP \<and> oper_code (snmp_msg m) = code \<and>
     error_code (snmp_msg m) = 0 \<and> trap_state m = reported p code \<and>
     trap_source m = address_text E h @ '':10062''"

lemma stamp_trap_of:
  assumes "msg_wf m" and "trap_state m = reported p code" and "trap_source m = address_text E h @ '':10062''"
  shows "trap_of E h p code (stamp_msg CMD_TRAP 0 code m)"
  using assms by (simp add: trap_of_def) (simp add: stamp_msg_def trap_state_def trap_source_def)

text \<open>A sequence of traps; the calls that ask for the address of one precede the next.\<close>

fun traps_of ::
  "env \<Rightarrow> history \<Rightarrow> clock_para \<Rightarrow> u32 list \<Rightarrow> queue_msg_t list \<Rightarrow> bool" where
  "traps_of E h p [] ms = (ms = [])"
| "traps_of E h p (code # codes) ms =
     (case ms of
        [] \<Rightarrow> False
      | m # ms \<Rightarrow> trap_of E h p code m \<and> traps_of E (h @ address_calls E h) p codes ms)"

lemma traps_of_props:
  assumes "traps_of E h p codes ms"
  shows "length ms = length codes" and "list_all msg_wf ms"
  using assms
proof (induction codes arbitrary: h ms)
  case (Cons code codes)
  case 1
  with Cons show ?case by (cases ms) auto
next
  case (Cons code codes)
  case 2
  with Cons show ?case by (cases ms) (auto simp: trap_of_def)
qed simp_all

text \<open>The state after one more trap is queued.\<close>

definition trap_queued ::
  "('q \<Rightarrow> sn_msg_param list) \<Rightarrow> ('q \<Rightarrow> bool) \<Rightarrow> queue_msg_t list \<Rightarrow>
     ('q, 'z) snmp_st_scheme \<Rightarrow> ('q, 'z) snmp_st_scheme \<Rightarrow> bool" where
  "trap_queued items wfq ms s s' \<longleftrightarrow>
     queue_ok items wfq (send_queue s') \<and>
     queue_content items (send_queue s') =
       fold (bounded_push QUEUE_MAX_SIZE) (map node_of ms) (queue_content items (send_queue s)) \<and>
     (\<exists>h q. s' = s\<lparr>hist := h, send_queue := q, sem_full := sem_full s + length ms\<rparr>)"

context cstl_queue
begin

lemma data_trap_queues:
  assumes "queue_ok items wfq (send_queue s)" and "0 < sem_mutex s" and "msg_wf m"
  shows "\<exists>s'. snmp_data_trap C m code s = Done (0, s') \<and> hist s' = hist s \<and>
           trap_queued items wfq [stamp_msg CMD_TRAP 0 code m] s s'"
proof -
  let ?m = "stamp_msg CMD_TRAP 0 code m"
  obtain q where q: "push_msg C ?m (send_queue s) = Some (0, q)" "queue_ok items wfq q"
    "queue_content items q = bounded_push QUEUE_MAX_SIZE (node_of ?m) (queue_content items (send_queue s))"
    using sn.push_spec [OF assms(1), of "node_of ?m"] assms(3)
    by (auto simp: node_of_ok push_msg_node)
  let ?s = "s\<lparr>send_queue := q, sem_full := sem_full s + 1\<rparr>"
  have "snmp_data_trap C m code s = Done (0, ?s)"
    using q(1) assms(2) by (simp add: snmp_data_trap_def sem_wait_def Let_def)
  moreover have "trap_queued items wfq [?m] s ?s"
    using q(2,3) unfolding trap_queued_def
    by (auto intro!: exI [of _ "hist s"] exI [of _ q])
  moreover have "hist ?s = hist s" by simp
  ultimately show ?thesis by (intro exI [of _ ?s] conjI)
qed

lemma trap_msg_queues:
  assumes "queue_ok items wfq (send_queue s)" and "0 < sem_mutex s" and "code \<in> set trap_codes"
  shows "\<exists>s' m. Trap_msg_to_snmpd E C code s = Done s' \<and> trap_queued items wfq [m] s s' \<and>
           trap_of E (hist s) (ClockParameter s) code m \<and> hist s' = hist s @ address_calls E (hist s)"
proof -
  let ?h = "hist s @ address_calls E (hist s)"
  obtain r b where
    b: "get_net_parameter E (Some (zeros 255)) SIOCGIFADDR s = Some (r, Some b, s\<lparr>hist := ?h\<rparr>)"
    "good_buffer 255 17 b" "cstr b = address_text E (hist s)"
    using get_address [of 255 E s] by auto
  then obtain b1 b2 where b2: "c_strcat b (lit '':'') = Some b1"
    "c_strcat b1 (lit SNMPD_SOURCES_PROT) = Some b2" "has_nul b2" "cstr b2 = cstr b @ '':10062''"
    using source_text_ok by blast
  have "length (cstr b2) < SIZE" using b(2) b2(4) by (simp add: good_buffer_def SIZE_def)
  from trap_message_ok [OF assms(3) b2(3) this, of "ClockParameter s"] obtain m where
    m: "trap_message (ClockParameter s) code b2 = Some m" "msg_wf m"
    "trap_state m = reported (ClockParameter s) code" "trap_source m = address_text E (hist s) @ '':10062''"
    using b2(4) b(3) by auto
  have "queue_ok items wfq (send_queue (s\<lparr>hist := ?h\<rparr>))" "0 < sem_mutex (s\<lparr>hist := ?h\<rparr>)"
    using assms(1,2) by simp_all
  from data_trap_queues [OF this m(2), of code] obtain s' where
    s': "snmp_data_trap C m code (s\<lparr>hist := ?h\<rparr>) = Done (0, s')" "hist s' = ?h"
    "trap_queued items wfq [stamp_msg CMD_TRAP 0 code m] (s\<lparr>hist := ?h\<rparr>) s'" by auto
  have "Trap_msg_to_snmpd E C code s = Done s'"
    using b b2(1,2) m(1) s'(1) by (simp add: Trap_msg_to_snmpd_def cdd_get_clk_param_def)
  moreover have "trap_queued items wfq [stamp_msg CMD_TRAP 0 code m] s s'"
    using s'(3) by (auto simp: trap_queued_def)
  ultimately show ?thesis using stamp_trap_of [OF m(2-4)] s'(2) by blast
qed

end

lemma trap_queued_append:
  assumes "trap_queued items wfq ms s t" and "trap_queued items wfq ns t u"
  shows "trap_queued items wfq (ms @ ns) s u"
proof -
  obtain h q where t: "t = s\<lparr>hist := h, send_queue := q, sem_full := sem_full s + length ms\<rparr>"
    using assms(1) unfolding trap_queued_def by blast
  obtain h' q' where u: "u = t\<lparr>hist := h', send_queue := q', sem_full := sem_full t + length ns\<rparr>"
    using assms(2) unfolding trap_queued_def by blast
  have "u = s\<lparr>hist := h', send_queue := q', sem_full := sem_full s + length (ms @ ns)\<rparr>"
    by (simp add: t u)
  then show ?thesis
    using assms unfolding trap_queued_def by (simp add: exI [of _ h'] exI [of _ q'])
qed

lemma trap_queued_simps:
  assumes "trap_queued items wfq ms s t"
  shows "queue_ok items wfq (send_queue t)" and "sem_mutex t = sem_mutex s"
    and "ClockParameter t = ClockParameter s" and "flag_trap t = flag_trap s"
    and "sem_full t = sem_full s + length ms" and "ack_queue t = ack_queue s"
    and "trapsignal t = trapsignal s"
  using assms by (auto simp: trap_queued_def)

context cstl_queue
begin

lemma send_traps_queues:
  assumes "queue_ok items wfq (send_queue s)" and "0 < sem_mutex s"
    and "set codes \<subseteq> set trap_codes"
  shows "\<exists>s' ms. send_traps E C codes s = Done s' \<and> trap_queued items wfq ms s s' \<and>
           traps_of E (hist s) (ClockParameter s) codes ms"
  using assms
proof (induction codes arbitrary: s)
  case Nil
  then have "trap_queued items wfq [] s s"
    unfolding trap_queued_def by (auto intro!: exI [of _ "hist s"] exI [of _ "send_queue s"])
  then show ?case by auto
next
  case (Cons code codes)
  then obtain t m where t: "Trap_msg_to_snmpd E C code s = Done t" "trap_queued items wfq [m] s t"
    "trap_of E (hist s) (ClockParameter s) code m" "hist t = hist s @ address_calls E (hist s)"
    using trap_msg_queues [of s code E] by auto
  with Cons obtain s' ms where s': "send_traps E C codes t = Done s'" "trap_queued items wfq ms t s'"
    "traps_of E (hist t) (ClockParameter s) codes ms"
    using Cons.IH [of t] trap_queued_simps [OF t(2)] by fastforce
  from trap_queued_append [OF t(2) s'(2)] t s' show ?case
    by (auto intro!: exI [of _ "m # ms"])
qed

end

text \<open>A turn of the second task, with the text of the receiver port filled in.\<close>

definition ticked :: "nat \<Rightarrow> ('q, 'z) snmp_st_scheme \<Rightarrow> ('q, 'z) snmp_st_scheme" where
  "ticked v s = s\<lparr>trapsignal := v, ClockParameter := (ClockParameter s)
     \<lparr>recvport := write_at 0 (lit ''192.168.1.100:888'') (recvport (ClockParameter s))\<rparr>\<rparr>"

lemma second_task_turn_ticked:
  assumes "clock_para_wf (ClockParameter s)"
  shows "second_task_turn E C s =
     (case trapsignal s of
        0 \<Rightarrow> Blocked
      | Suc v \<Rightarrow> if flag_trap s then send_traps E C [0x70, 0x71, 0x72, 0x73, 0x74, 0x75] (ticked v s)
                 else Done (ticked v s))"
proof -
  have "length (recvport (ClockParameter s)) = PARAM_LEN"
    using assms by (simp add: clock_para_wf_def param_string_def)
  then have "c_strcpy (recvport (ClockParameter s)) 0 (lit ''192.168.1.100:888'') =
      Some (write_at 0 (lit ''192.168.1.100:888'') (recvport (ClockParameter s)))"
    by (intro c_strcpy_lit_fits) (simp_all add: PARAM_LEN_def NUL_def)
  then show ?thesis
    by (simp add: second_task_turn_def sem_wait_def refresh_cdd_param_def cdd_get_clk_param_def
        Check_trap_flag_def ticked_def split: nat.split)
qed

lemma ticked_port:
  assumes "clock_para_wf (ClockParameter s)"
  shows "param_string (recvport (ClockParameter (ticked v s)))"
    and "cstr (recvport (ClockParameter (ticked v s))) = ''192.168.1.100:888''"
proof -
  let ?port = "''192.168.1.100:888''" and ?b = "recvport (ClockParameter s)"
  have b: "param_string ?b" using assms by (simp add: clock_para_wf_def)
  then have "c_store ?b 0 ?port = Some (write_at 0 (lit ?port) ?b)"
    by (simp add: c_store_def param_string_def PARAM_LEN_def lit_def)
  with param_string_store [OF this b] c_store_read0 [OF this]
  show "param_string (recvport (ClockParameter (ticked v s)))"
    "cstr (recvport (ClockParameter (ticked v s))) = ?port"
    by (simp_all add: ticked_def NUL_def)
qed

lemma ticked_inv: "snmp_inv items wfq s \<Longrightarrow> snmp_inv items wfq (ticked v s)"
  using ticked_port(1) [of s v] by (simp add: snmp_inv_def clock_para_wf_def ticked_def)

lemma ticked_simps [simp]:
  "send_queue (ticked v s) = send_queue s" "sem_mutex (ticked v s) = sem_mutex s"
  "sem_full (ticked v s) = sem_full s" "trapsignal (ticked v s) = v" "hist (ticked v s) = hist s"
  by (simp_all add: ticked_def)

context cstl_queue
begin

lemma second_task_queues:
  assumes "snmp_inv items wfq s" and "0 < sem_mutex s" and "trapsignal s = Suc v" and "flag_trap s"
  obtains s' ms where "second_task_turn E C s = Done s'" and "trap_queued items wfq ms (ticked v s) s'"
    and "traps_of E (hist s) (ClockParameter (ticked v s)) [0x70, 0x71, 0x72, 0x73, 0x74, 0x75] ms"
proof -
  have "set [0x70, 0x71, 0x72, 0x73, 0x74, 0x75] \<subseteq> set trap_codes"
    by (simp add: trap_codes_def trap_code_defs)
  moreover have "queue_ok items wfq (send_queue (ticked v s))" "0 < sem_mutex (ticked v s)"
    using assms(1,2) by (simp_all add: snmp_inv_def)
  ultimately show ?thesis
    using send_traps_queues [of "ticked v s" "[0x70, 0x71, 0x72, 0x73, 0x74, 0x75]" E] that
      second_task_turn_ticked [of s E C] assms by (auto simp: snmp_inv_def)
qed

end

subsection \<open>Properties\<close>

text \<open>
  C20. One turn of the second task after the first request has opened the gate: it takes one
  timer signal, refreshes the receiver port and queues exactly six traps, 0x70 to 0x75 in
  this order. Each reports the state the bits of the parameter block stand for and names
  \<open>address:10062\<close> as its source, with the address the kernel reports for the interface when it
  is asked for this trap (nothing before the colon when it gives none). The mutex is free again
  and the count of queued traps has grown by six. The queue drops its oldest traps when it is
  full. The mutex is free at the start.
\<close>

theorem second_task_queues_six_traps:
  assumes "cstl_queue C items wfq" and "snmp_inv items wfq s" and "0 < sem_mutex s"
    and "trapsignal s = Suc v" and "flag_trap s"
  shows "\<exists>s' ms. second_task_turn E C s = Done s' \<and>
     traps_of E (hist s) (ClockParameter s') [0x70, 0x71, 0x72, 0x73, 0x74, 0x75] ms \<and>
     queue_content items (send_queue s') =
       fold (bounded_push 2048) (map node_of ms) (queue_content items (send_queue s)) \<and>
     sem_full s' = sem_full s + 6 \<and> sem_mutex s' = sem_mutex s \<and> trapsignal s' = v \<and>
     cstr (recvport (ClockParameter s')) = ''192.168.1.100:888''"
proof -
  obtain s' ms where s': "second_task_turn E C s = Done s'" "trap_queued items wfq ms (ticked v s) s'"
    "traps_of E (hist s) (ClockParameter (ticked v s)) [0x70, 0x71, 0x72, 0x73, 0x74, 0x75] ms"
    by (rule cstl_queue.second_task_queues [OF assms])
  note q = trap_queued_simps [OF s'(2)]
  have "queue_content items (send_queue s') =
      fold (bounded_push 2048) (map node_of ms) (queue_content items (send_queue s))"
    using s'(2) by (simp add: trap_queued_def QUEUE_MAX_SIZE_def)
  moreover have "length ms = 6" using traps_of_props(1) [OF s'(3)] by simp
  ultimately show ?thesis
    using s'(1,3) q ticked_port(2) [of s v] assms(2)
    by (intro exI [of _ s'] exI [of _ ms]) (simp add: snmp_inv_def del: traps_of.simps)
qed

text \<open>The state in which the witness starts: gate open, one signal pending.\<close>

definition signalled_st :: "sn_msg_param list snmp_st" where
  "signalled_st = signal_handler (snmp_st_0\<lparr>flag_trap := True\<rparr>)"

lemma signalled_st_simps [simp]:
  "snmp_inv (\<lambda>q. q) (\<lambda>q. True) signalled_st" "sem_mutex signalled_st = 1"
  "trapsignal signalled_st = Suc 0" "flag_trap signalled_st" "sem_full signalled_st = 0"
  "send_queue signalled_st = Some []"
  using snmp_st_0_simps(5)
  by (simp_all add: signalled_st_def signal_handler_def snmp_inv_def snmp_st_0_def)

theorem second_task_queues_six_traps_witness:
  "\<exists>s'. second_task_turn idle_env list_cstl signalled_st = Done s' \<and> sem_full s' = 6 \<and>
     trapsignal s' = 0"
  using second_task_queues_six_traps [OF lq.cstl_queue_axioms, of signalled_st 0 idle_env]
  by auto

text \<open>
  Before the first request a turn of the second task queues nothing: it only consumes the
  timer signal and rewrites the receiver port; without a pending signal it waits.
\<close>

theorem second_task_silent_before_request:
  assumes "snmp_inv items wfq s" and "\<not> flag_trap s"
  shows "second_task_turn E C s =
     (case trapsignal s of
        0 \<Rightarrow> Blocked
      | Suc v \<Rightarrow> Done (s\<lparr>trapsignal := v, ClockParameter := (ClockParameter s)
          \<lparr>recvport := write_at 0 (lit ''192.168.1.100:888'') (recvport (ClockParameter s))\<rparr>\<rparr>))"
  using second_task_turn_ticked [of s E C] assms
  by (simp add: snmp_inv_def ticked_def split: nat.split)

theorem second_task_silent_before_request_witness:
  "second_task_turn idle_env list_cstl snmp_st_0 = Blocked"
  using second_task_silent_before_request [of "\<lambda>q. q" "\<lambda>q. True" snmp_st_0 idle_env list_cstl]
  by (simp add: snmp_st_0_simps(5)) (simp add: snmp_st_0_def)

text \<open>An acknowledgement is as long as the kernel is told: its type and the text behind it.\<close>

lemma node_fits: "node_ok n \<Longrightarrow> 4 + (QUEUE_LEN - 4) = length (data n)"
  by (simp add: node_ok_def len_defs)

text \<open>
  What a trap leaves in the history: the look-up of the kernel queue, the four bytes behind \<open>msg\<close>
  that the kernel reads because of the length it is told, and the message.
\<close>

definition sent_trap :: "env \<Rightarrow> history \<Rightarrow> string \<Rightarrow> history" where
  "sent_trap E h m =
     [Ev_msgget KEY_ID_SEND IPC_EXCL,
      Ev_overread (bytes_behind E (h @ [Ev_msgget KEY_ID_SEND IPC_EXCL]) 4),
      Ev_msgsnd (e_msgget E h KEY_ID_SEND IPC_EXCL) m QUEUE_LEN]"

context cstl_queue
begin

lemma send_turn_empty:
  assumes "queue_ok items wfq (send_queue s)" and "queue_content items (send_queue s) = []"
    and "e_msgget E (hist s) KEY_ID_SEND IPC_EXCL = qid" and "0 \<le> qid"
    and "sem_full s = Suc f" and "sem_mutex s = Suc 0"
  shows "snmp_send_turn E C node msg s = Done (Thread_exit (msg,
     s\<lparr>hist := hist s @ [Ev_msgget KEY_ID_SEND IPC_EXCL], sem_full := f\<rparr>))"
proof -
  obtain q where q: "send_queue s = Some q" "wfq q" "items q = []"
    using assms(1,2) by (auto simp: queue_ok_def split: option.splits)
  have "s\<lparr>hist := h, send_queue := Some q, sem_full := f, sem_mutex := Suc 0\<rparr> =
      s\<lparr>hist := h, sem_full := f\<rparr>" for h
    using q(1) assms(6) by (cases s) simp
  with q assms(3-6) get_Some [OF q(2)] pop_Some [OF q(2)] show ?thesis
    by (simp add: snmp_send_turn_def sys_msgget_def emit_def sem_wait_def Let_def)
qed

lemma send_turn_sends:
  assumes "queue_ok items wfq (send_queue s)" and "queue_content items (send_queue s) = n # ns"
    and "node_ok n" and "length msg = QUEUE_LEN" and "0 \<le> e_msgget E (hist s) KEY_ID_SEND IPC_EXCL"
    and "sem_full s = Suc f" and "sem_mutex s = Suc 0"
  obtains q where "snmp_send_turn E C node msg s = Done (Next (data n,
      s\<lparr>hist := hist s @ sent_trap E (hist s) (data n), send_queue := q, sem_full := f\<rparr>))"
    and "queue_ok items wfq q" and "queue_content items q = ns"
proof -
  obtain q where q: "send_queue s = Some q" "wfq q" "items q = n # ns"
    "length (items q) \<le> QUEUE_MAX_SIZE"
    using assms(1,2) by (auto simp: queue_ok_def split: option.splits)
  have pop: "queue_content items (Some (queue_pop C q)) = ns" "queue_ok items wfq (Some (queue_pop C q))"
    using q pop_items [OF q(2)] pop_inv [OF q(2)] by (simp_all add: queue_ok_def)
  have m: "c_memcpy msg (data n) (unat (length_of n)) = Some (data n)" "length (data n) = QUEUE_LEN"
    using assms(3,4) by (simp_all add: c_memcpy_all node_ok_def)
  have "s\<lparr>hist := h, send_queue := p, sem_full := f, sem_mutex := Suc 0\<rparr> =
      s\<lparr>hist := h, send_queue := p, sem_full := f\<rparr>" for h p
    using assms(7) by (cases s) simp
  with q m assms(5-7) get_Some [OF q(2)] pop_Some [OF q(2)]
  have "snmp_send_turn E C node msg s = Done (Next (data n,
      s\<lparr>hist := hist s @ sent_trap E (hist s) (data n), send_queue := Some (queue_pop C q), sem_full := f\<rparr>))"
    by (simp add: snmp_send_turn_def sys_msgget_def sys_msgsnd_def emit_def sem_wait_def sent_trap_def Let_def)
  with that pop show ?thesis by blast
qed

end

text \<open>
  One turn of the trap sender with a token available. With a queued message it takes the
  oldest one off the queue, frees the mutex and hands the message to the kernel, but declares
  \<open>sizeof (QUEUE_MSG_T)\<close> bytes of text where only four fewer follow the type, so the kernel
  reads four bytes behind \<open>msg\<close>. With an empty queue the thread ends, still holding nothing.
\<close>

theorem send_turn_result:
  assumes "cstl_queue C items wfq" and "queue_ok items wfq (send_queue s)"
    and "list_all node_ok (queue_content items (send_queue s))" and "length msg = QUEUE_LEN"
    and "0 \<le> e_msgget E (hist s) KEY_ID_SEND IPC_EXCL"
    and "sem_full s = Suc f" and "sem_mutex s = Suc 0"
  shows "(case queue_content items (send_queue s) of
     [] \<Rightarrow> (\<exists>s'. snmp_send_turn E C node_0 msg s = Done (Thread_exit (msg, s')) \<and>
             sem_mutex s' = 1 \<and> sem_full s' = f)
   | n # ns \<Rightarrow> (\<exists>s'. snmp_send_turn E C node_0 msg s = Done (Next (data n, s')) \<and>
             queue_content items (send_queue s') = ns \<and> sem_mutex s' = 1 \<and> sem_full s' = f \<and>
             hist s' = hist s @ sent_trap E (hist s) (data n)))"
proof (cases "queue_content items (send_queue s)")
  case Nil
  from cstl_queue.send_turn_empty [OF assms(1,2) Nil refl assms(5-7), of node_0 msg] show ?thesis
    using assms(7) by (simp add: Nil)
next
  case (Cons n ns)
  then have n: "node_ok n" using assms(3) by simp
  obtain q where "snmp_send_turn E C node_0 msg s = Done (Next (data n,
      s\<lparr>hist := hist s @ sent_trap E (hist s) (data n), send_queue := q, sem_full := f\<rparr>))"
    "queue_content items q = ns"
    using cstl_queue.send_turn_sends [OF assms(1,2) Cons n assms(4-7)] by blast
  then show ?thesis using assms(7) by (simp add: Cons)
qed

theorem send_turn_result_witness:
  "\<exists>s'. snmp_send_turn idle_env list_cstl sample_node (zeros QUEUE_LEN)
      (snmp_st_0\<lparr>sem_full := 1\<rparr>) = Done (Thread_exit (zeros QUEUE_LEN, s')) \<and>
     sem_mutex s' = 1 \<and> sem_full s' = 0"
proof -
  let ?s = "snmp_st_0\<lparr>sem_full := 1\<rparr>"
  have "send_queue ?s = Some []" "sem_mutex ?s = Suc 0" "sem_full ?s = Suc 0"
    "e_msgget idle_env (hist ?s) KEY_ID_SEND IPC_EXCL = 0"
    by (simp_all add: snmp_st_0_def idle_env_def)
  with send_turn_result [OF lq.cstl_queue_axioms, of ?s "zeros QUEUE_LEN" idle_env 0 sample_node]
  show ?thesis by (simp add: queue_ok_def)
qed

subsection \<open>Initialisation, termination and cleaning\<close>

lemma open_or_create_frame: "open_or_create E key s = (r, s') \<Longrightarrow> \<exists>h. s' = s\<lparr>hist := h\<rparr>"
  by (auto simp: open_or_create_def sys_msgget_def emit_def Let_def split: if_splits)

text \<open>Everything a successful initialisation changes, and that a failed one leaves the table.\<close>

context cstl_queue
begin

lemma snmp_init_success:
  assumes "snmp_init E C s = (0, s')"
  obtains h q1 q2 where "wfq q1" and "items q1 = []" and "wfq q2" and "items q2 = []"
    and "s' = s\<lparr>hist := h, send_queue := Some q1, ack_queue := Some q2, ack_sem := 0,
                sem_full := 0, sem_mutex := 1, trapsignal := 0,
                SnmpData := init_SnmpData (SnmpData s)\<rparr>"
proof -
  obtain h0 where h0: "install_handlers s = s\<lparr>hist := h0\<rparr>"
    by (simp add: install_handlers_def sys_sigaction_def emit_def)
  obtain q1 s1 q2 s2 q3 s3 where
    o: "open_or_create E KEY_ID_SEND (s\<lparr>hist := h0\<rparr>) = (q1, s1)" "open_or_create E KEY_ID_RECV s1 = (q2, s2)"
      "open_or_create E KEY_ID_ACK s2 = (q3, s3)" by (metis prod.exhaust)
  then obtain h1 h2 h3 where s: "s1 = s\<lparr>hist := h1\<rparr>" "s2 = s\<lparr>hist := h2\<rparr>" "s3 = s\<lparr>hist := h3\<rparr>"
    by (metis (no_types, lifting) open_or_create_frame plat.surjective plat.update_convs(1))
  show ?thesis
  proof (cases "create_queue C")
    case None
    with assms o s h0 show ?thesis
      by (auto simp: snmp_init_def SN_Free_Lock_Queue_Create_def Let_def split: if_splits)
  next
    case (Some q)
    with assms o s h0 have "s' = s\<lparr>hist := h3 @ [Ev_setitimer 3 3, Ev_sigaction ''SIGALRM'' ''signal_handler''],
        send_queue := Some (queue_init C q),
        ack_queue := Some (queue_init C q), ack_sem := 0, sem_full := 0, sem_mutex := 1,
        trapsignal := 0, SnmpData := init_SnmpData (SnmpData s)\<rparr>"
      by (auto simp: snmp_init_def SN_Free_Lock_Queue_Create_def stored_queue_def Let_def
          set_timer_def sys_setitimer_def sys_sigaction_def emit_def split: if_splits)
    with that [of "queue_init C q" "queue_init C q" "h3 @ [Ev_setitimer 3 3, Ev_sigaction ''SIGALRM'' ''signal_handler'']"] init_items [OF Some] init_inv [OF Some]
    show ?thesis by simp
  qed
qed

end

text \<open>
  Initialisation that returns 0 establishes the invariant the threads rely on: both queues
  exist and are empty, the handler table is set up, the mutex is free, no token and no
  signal is pending.
\<close>

theorem snmp_init_establishes_invariant:
  assumes "cstl_queue C items wfq" and "clock_para_wf (ClockParameter s)"
    and "SnmpData s = SnmpData_0" and "snmp_init E C s = (0, s')"
  shows "snmp_inv items wfq s' \<and> queue_content items (send_queue s') = [] \<and>
       queue_content items (ack_queue s') = [] \<and> sem_mutex s' = 1 \<and> sem_full s' = 0 \<and>
       ack_sem s' = 0 \<and> trapsignal s' = 0 \<and> flag_trap s' = flag_trap s"
proof -
  from cstl_queue.snmp_init_success [OF assms(1,4)] obtain h q1 q2 where
    "wfq q1" "items q1 = []" "wfq q2" "items q2 = []"
    "s' = s\<lparr>hist := h, send_queue := Some q1, ack_queue := Some q2, ack_sem := 0,
            sem_full := 0, sem_mutex := 1, trapsignal := 0,
            SnmpData := init_SnmpData (SnmpData s)\<rparr>"
    by metis
  with assms(2,3) show ?thesis by (simp add: snmp_inv_def queue_ok_def)
qed

theorem snmp_init_establishes_invariant_witness:
  "snmp_inv (\<lambda>q. q) (\<lambda>q. True)
     (snd (snmp_init idle_env list_cstl (snmp_st_0\<lparr>SnmpData := SnmpData_0\<rparr>)))"
proof -
  let ?s = "snmp_st_0\<lparr>SnmpData := SnmpData_0\<rparr>"
  have "fst (snmp_init idle_env list_cstl ?s) = 0"
    by (simp add: snmp_init_def install_handlers_def set_timer_def sys_sigaction_def
        sys_setitimer_def open_or_create_def sys_msgget_def idle_env_def
        SN_Free_Lock_Queue_Create_def list_cstl_def Let_def)
  then have "snmp_init idle_env list_cstl ?s = (0, snd (snmp_init idle_env list_cstl ?s))"
    by (simp add: prod_eq_iff)
  from snmp_init_establishes_invariant [OF lq.cstl_queue_axioms _ _ this] show ?thesis
    by simp
qed

lemma remove_queues_frame: "remove_queues E ks s = (b, s') \<Longrightarrow> \<exists>h. s' = s\<lparr>hist := hist s @ h\<rparr>"
proof (induction ks arbitrary: s)
  case Nil
  then show ?case by (auto intro: exI [of _ "[]"])
next
  case (Cons key ks)
  show ?case
  proof (cases "e_msgget E (hist s) key IPC_EXCL < 0 \<or>
      e_msgctl_rmid E (hist s @ [Ev_msgget key IPC_EXCL]) (e_msgget E (hist s) key IPC_EXCL) < 0")
    case True
    with Cons.prems show ?thesis
      by (auto simp: sys_msgget_def sys_msgctl_rmid_def emit_def Let_def split: if_splits)
  next
    case False
    with Cons.prems have "remove_queues E ks
        (s\<lparr>hist := hist s @ [Ev_msgget key IPC_EXCL, Ev_msgctl_rmid (e_msgget E (hist s) key IPC_EXCL)]\<rparr>)
        = (b, s')"
      by (simp add: sys_msgget_def sys_msgctl_rmid_def emit_def Let_def)
    from Cons.IH [OF this] show ?thesis by auto
  qed
qed

text \<open>
  The termination handler always ends the process with status 0, but it looks for the
  request queue first: when that one is gone it stops there, and the trap and the
  acknowledgement queue stay in the kernel.
\<close>

theorem my_func_exits:
  "last (hist (my_func E C s)) = Ev_exit 0 \<and>
     (e_msgget E (hist s) KEY_ID_RECV IPC_EXCL < 0 \<longrightarrow>
        my_func E C s = s\<lparr>hist := hist s @ [Ev_msgget KEY_ID_RECV IPC_EXCL, Ev_exit 0]\<rparr>)"
proof (intro conjI impI)
  show "last (hist (my_func E C s)) = Ev_exit 0"
    unfolding my_func_def Let_def emit_def case_prod_unfold by simp
next
  assume "e_msgget E (hist s) KEY_ID_RECV IPC_EXCL < 0"
  then show "my_func E C s = s\<lparr>hist := hist s @ [Ev_msgget KEY_ID_RECV IPC_EXCL, Ev_exit 0]\<rparr>"
    by (simp add: my_func_def emit_def sys_msgget_def Let_def)
qed

definition no_queue_env :: env where
  "no_queue_env = idle_env\<lparr>e_msgget := \<lambda>h k f. - 1\<rparr>"

theorem my_func_exits_witness:
  "hist (my_func no_queue_env list_cstl snmp_st_0) = [Ev_msgget KEY_ID_RECV IPC_EXCL, Ev_exit 0]"
  using my_func_exits [of no_queue_env list_cstl snmp_st_0]
  by (simp add: no_queue_env_def) (simp add: snmp_st_0_def)

lemma clean_loop_None: "e_msgrcv E (hist s) qid (QUEUE_LEN - 4) CMD_ACK IPC_NOWAIT = None \<Longrightarrow>
   clean_loop E qid p s = Some (p, s\<lparr>hist := hist s @ [Ev_msgrcv qid (QUEUE_LEN - 4) CMD_ACK IPC_NOWAIT]\<rparr>)"
  by (subst clean_loop.simps) (simp add: sys_msgrcv_def emit_def)

lemma clean_loop_Some: "e_msgrcv E (hist s) qid (QUEUE_LEN - 4) CMD_ACK IPC_NOWAIT = Some (ty, bs) \<Longrightarrow>
   clean_loop E qid p s = clean_loop E qid (write_at 0 (le32 ty @ take (QUEUE_LEN - 4) bs) p)
      (s\<lparr>hist := hist s @ [Ev_msgrcv qid (QUEUE_LEN - 4) CMD_ACK IPC_NOWAIT]\<rparr>)"
  by (subst clean_loop.simps) (simp add: sys_msgrcv_def emit_def)

lemma clean_loop_terminates:
  fixes qid :: int
  defines "rcv \<equiv> Ev_msgrcv qid (QUEUE_LEN - 4) CMD_ACK IPC_NOWAIT"
  assumes "\<forall>i < k. e_msgrcv E (hist s @ replicate i rcv) qid (QUEUE_LEN - 4) CMD_ACK IPC_NOWAIT \<noteq> None"
    and "e_msgrcv E (hist s @ replicate k rcv) qid (QUEUE_LEN - 4) CMD_ACK IPC_NOWAIT = None"
    and "length p = QUEUE_LEN"
  shows "\<exists>p'. clean_loop E qid p s =
           Some (p', s\<lparr>hist := hist s @ replicate (Suc k) rcv\<rparr>) \<and> length p' = QUEUE_LEN"
  using assms(2-)
proof (induction k arbitrary: s p)
  case 0
  then show ?case by (simp add: clean_loop_None rcv_def)
next
  case (Suc k)
  obtain ty bs where r: "e_msgrcv E (hist s) qid (QUEUE_LEN - 4) CMD_ACK IPC_NOWAIT = Some (ty, bs)"
    using Suc.prems(1) [rule_format, of 0] by fastforce
  let ?p = "write_at 0 (le32 ty @ take (QUEUE_LEN - 4) bs) p" and ?s = "s\<lparr>hist := hist s @ [rcv]\<rparr>"
  have "4 \<le> QUEUE_LEN" by (simp add: len_defs)
  then have "length ?p = QUEUE_LEN"
    using Suc.prems(3) by (subst length_write_at) auto
  moreover have "e_msgrcv E (hist ?s @ replicate i rcv) qid (QUEUE_LEN - 4) CMD_ACK IPC_NOWAIT \<noteq> None" if "i < k" for i
    using Suc.prems(1) that by (auto dest: spec [of _ "Suc i"])
  moreover have "e_msgrcv E (hist ?s @ replicate k rcv) qid (QUEUE_LEN - 4) CMD_ACK IPC_NOWAIT = None"
    using Suc.prems(2) by simp
  ultimately obtain p' where "clean_loop E qid ?p ?s =
      Some (p', ?s\<lparr>hist := hist ?s @ replicate (Suc k) rcv\<rparr>)" "length p' = QUEUE_LEN"
    using Suc.IH [of ?s ?p] by blast
  then show ?case
    using clean_loop_Some [OF r, of p] by (simp add: rcv_def)
qed

text \<open>
  C40. Termination of \<open>clean_MsgQueue\<close>: when the kernel queue holds \<open>k\<close> messages, it returns 0
  after exactly \<open>k + 1\<close> receives and has stored nothing outside the caller's message.
\<close>

theorem clean_MsgQueue_terminates:
  assumes "e_msgget E (hist s) key IPC_EXCL = qid" and "0 \<le> qid" and "length p = QUEUE_LEN"
    and "h = hist s @ [Ev_msgget key IPC_EXCL]" and "rcv = Ev_msgrcv qid (QUEUE_LEN - 4) CMD_ACK IPC_NOWAIT"
    and "\<forall>i < k. e_msgrcv E (h @ replicate i rcv) qid (QUEUE_LEN - 4) CMD_ACK IPC_NOWAIT \<noteq> None"
    and "e_msgrcv E (h @ replicate k rcv) qid (QUEUE_LEN - 4) CMD_ACK IPC_NOWAIT = None"
  shows "\<exists>p'. clean_MsgQueue E p key s = Some (0, p', s\<lparr>hist := h @ replicate (Suc k) rcv\<rparr>) \<and>
           length p' = QUEUE_LEN"
  using clean_loop_terminates [of k E "s\<lparr>hist := h\<rparr>" qid p] assms
  by (auto simp: clean_MsgQueue_def sys_msgget_def emit_def)

text \<open>A kernel queue that holds two empty messages.\<close>

definition two_msgs_env :: env where
  "two_msgs_env =
     idle_env\<lparr>e_msgrcv := \<lambda>h q n t f. if length h < 3 then Some (CMD_ACK, []) else None\<rparr>"

theorem clean_MsgQueue_terminates_witness:
  "\<exists>p'. clean_MsgQueue two_msgs_env (zeros QUEUE_LEN) KEY_ID_ACK (\<lparr>hist = []\<rparr> :: plat) =
     Some (0, p', \<lparr>hist = Ev_msgget KEY_ID_ACK IPC_EXCL # replicate 3 (Ev_msgrcv 0 (QUEUE_LEN - 4) CMD_ACK IPC_NOWAIT)\<rparr>)"
  using clean_MsgQueue_terminates [of two_msgs_env "\<lparr>hist = []\<rparr> :: plat" KEY_ID_ACK 0
      "zeros QUEUE_LEN" "[Ev_msgget KEY_ID_ACK IPC_EXCL]" "Ev_msgrcv 0 (QUEUE_LEN - 4) CMD_ACK IPC_NOWAIT" 2]
  by (auto simp: two_msgs_env_def idle_env_def numeral_3_eq_3 numeral_2_eq_2)

end
