(* ===== verification/C_Time.thy ===== *)
theory C_Time
  imports Prelude
begin

text \<open>
  \<open>gmtime\<close> of the C library: the broken-down time of a number of seconds since 1970 in the
  Gregorian calendar. The definition walks over years and months; the round trip with the
  closed form \<open>timegm\<close> and the ranges of the fields determine it.
\<close>

record tm =
  tm_sec :: int
  tm_min :: int
  tm_hour :: int
  tm_mday :: int
  tm_mon :: int
  tm_year :: int

definition leap :: "int \<Rightarrow> bool" where
  "leap y \<longleftrightarrow> y mod 4 = 0 \<and> (y mod 100 \<noteq> 0 \<or> y mod 400 = 0)"

definition year_days :: "int \<Rightarrow> int" where
  "year_days y = (if leap y then 366 else 365)"

definition month_days :: "int \<Rightarrow> int list" where
  "month_days y = [31, if leap y then 29 else 28, 31, 30, 31, 30, 31, 31, 30, 31, 30, 31]"

lemma year_days_bounds: "365 \<le> year_days y" "year_days y \<le> 366"
  by (simp_all add: year_days_def)

text \<open>The year and the day in it, for \<open>d\<close> days after the start of year \<open>y\<close>.\<close>

function find_year :: "int \<Rightarrow> int \<Rightarrow> int \<times> int" where
  "find_year y d =
     (if d < 0 then find_year (y - 1) (d + year_days (y - 1))
      else if d < year_days y then (y, d)
      else find_year (y + 1) (d - year_days y))"
  by pat_completeness auto

termination
proof (relation "measure (\<lambda>(y, d). if d < 0 then nat (1 - d) else nat (d div 365))")
  fix y d :: int
  assume d: "d < 0"
  have "d + year_days (y - 1) \<le> d + 366" "d + 365 \<le> d + year_days (y - 1)"
    using year_days_bounds [of "y - 1"] by auto
  with d have "(d + year_days (y - 1)) div 365 \<le> 1" by auto
  then show "((y - 1, d + year_days (y - 1)), y, d)
      \<in> measure (\<lambda>(y, d). if d < 0 then nat (1 - d) else nat (d div 365))"
    using d year_days_bounds [of "y - 1"] by auto
next
  fix y d :: int
  assume "\<not> d < 0" "\<not> d < year_days y"
  moreover from this have "(d - year_days y) div 365 \<le> (d - 365) div 365"
    using year_days_bounds [of y] by (intro zdiv_mono1) auto
  moreover have "(d - 365) div 365 = d div 365 - 1" by simp
  ultimately show "((y + 1, d - year_days y), y, d)
      \<in> measure (\<lambda>(y, d). if d < 0 then nat (1 - d) else nat (d div 365))"
    using year_days_bounds [of y] by auto
qed simp

declare find_year.simps [simp del]

fun find_month :: "int \<Rightarrow> int \<Rightarrow> int list \<Rightarrow> int \<times> int" where
  "find_month m d [] = (m, d)"
| "find_month m d (n # ns) = (if d < n then (m, d) else find_month (m + 1) (d - n) ns)"

definition gmtime :: "int \<Rightarrow> tm" where
  "gmtime t =
     (case find_year 1970 (t div 86400) of (y, yd) \<Rightarrow>
      case find_month 0 yd (month_days y) of (m, d) \<Rightarrow>
        \<lparr>tm_sec = t mod 60, tm_min = t mod 3600 div 60, tm_hour = t mod 86400 div 3600,
         tm_mday = d + 1, tm_mon = m, tm_year = y - 1900\<rparr>)"

subsection \<open>The closed form\<close>

definition days_before_year :: "int \<Rightarrow> int" where
  "days_before_year y =
     365 * (y - 1970) + ((y - 1) div 4 - (y - 1) div 100 + (y - 1) div 400 - 477)"

definition timegm :: "tm \<Rightarrow> int" where
  "timegm b =
     86400 * (days_before_year (tm_year b + 1900)
              + sum_list (take (nat (tm_mon b)) (month_days (tm_year b + 1900)))
              + tm_mday b - 1)
     + 3600 * tm_hour b + 60 * tm_min b + tm_sec b"

lemma div_step: "0 < k \<Longrightarrow> y div k - (y - 1) div k = (if y mod k = 0 then 1 else 0)" for y k :: int
proof -
  assume k: "0 < k"
  show ?thesis
  proof (cases "y mod k = 0")
    case True
    then obtain q where q: "y = k * q" by auto
    have "(y - 1) div k = q - 1"
      using k by (intro int_div_pos_eq [of _ _ _ "k - 1"]) (auto simp: q algebra_simps)
    with q k True show ?thesis by simp
  next
    case False
    have "0 \<le> y mod k" "y mod k < k" using k by simp_all
    with False have r: "0 \<le> y mod k - 1" "y mod k - 1 < k" by linarith+
    have "y - 1 = k * (y div k) + (y mod k - 1)" by (simp add: algebra_simps)
    then have "(y - 1) div k = y div k" using r by (rule int_div_pos_eq)
    with False show ?thesis by simp
  qed
qed

lemma leap_count:
  "(c \<longrightarrow> b) \<Longrightarrow> (b \<longrightarrow> a) \<Longrightarrow> (if a \<and> (\<not> b \<or> c) then 366 else 365)
     = 365 + (if a then 1 else 0) - (if b then 1 else 0) + (if c then 1 else (0 :: int))"
  by (cases a; cases b; cases c) simp_all

lemma year_days_sum:
  "year_days y = 365 + (if y mod 4 = 0 then 1 else 0) - (if y mod 100 = 0 then 1 else 0)
     + (if y mod 400 = 0 then 1 else 0)"
  unfolding year_days_def leap_def
proof (rule leap_count)
  have "(100 :: int) dvd 400" "(4 :: int) dvd 100" by simp_all
  then show "y mod 400 = 0 \<longrightarrow> y mod 100 = 0" "y mod 100 = 0 \<longrightarrow> y mod 4 = 0"
    by (metis dvd_trans mod_0_imp_dvd dvd_imp_mod_0)+
qed

lemma days_before_year_step: "days_before_year (y + 1) = days_before_year y + year_days y"
proof -
  have "days_before_year (y + 1) = days_before_year y + 365
      + (y div 4 - (y - 1) div 4) - (y div 100 - (y - 1) div 100) + (y div 400 - (y - 1) div 400)"
    by (simp add: days_before_year_def)
  also have "\<dots> = days_before_year y + (365 + (if y mod 4 = 0 then 1 else 0)
      - (if y mod 100 = 0 then 1 else 0) + (if y mod 400 = 0 then 1 else 0))"
    by (simp only: div_step zero_less_numeral)
  finally show ?thesis by (simp only: year_days_sum)
qed

lemma find_year_correct:
  "find_year y d = (y', d') \<Longrightarrow>
     0 \<le> d' \<and> d' < year_days y' \<and> days_before_year y' + d' = days_before_year y + d"
proof (induction y d arbitrary: y' d' rule: find_year.induct)
  case (1 y d)
  show ?case
  proof (cases "d < 0")
    case True
    with 1 have "0 \<le> d' \<and> d' < year_days y' \<and>
        days_before_year y' + d' = days_before_year (y - 1) + (d + year_days (y - 1))"
      by (subst (asm) (3) find_year.simps) auto
    then show ?thesis using days_before_year_step [of "y - 1"] by simp
  next
    case False
    with 1 show ?thesis
      using days_before_year_step [of y] by (subst (asm) (3) find_year.simps) (auto split: if_splits)
  qed
qed

lemma find_month_correct:
  "find_month m d ns = (m', d') \<Longrightarrow> 0 \<le> d \<Longrightarrow> d < sum_list ns \<Longrightarrow>
     m \<le> m' \<and> m' < m + int (length ns) \<and> 0 \<le> d' \<and> d' < ns ! nat (m' - m) \<and>
     sum_list (take (nat (m' - m)) ns) + d' = d"
proof (induction m d ns arbitrary: m' d' rule: find_month.induct)
  case (2 m d n ns)
  show ?case
  proof (cases "d < n")
    case False
    with 2 have IH: "m + 1 \<le> m'" "m' < m + 1 + int (length ns)" "0 \<le> d'"
      "d' < ns ! nat (m' - (m + 1))" "sum_list (take (nat (m' - (m + 1))) ns) + d' = d - n"
      by auto
    moreover have "nat (m' - m) = Suc (nat (m' - (m + 1)))" using IH(1) by simp
    ultimately show ?thesis by simp
  qed (use 2 in auto)
qed simp

lemma sum_month_days: "sum_list (month_days y) = year_days y"
  by (simp add: month_days_def year_days_def)

text \<open>The fields are in range and \<open>timegm\<close> reads the time back.\<close>

definition tm_ok :: "tm \<Rightarrow> bool" where
  "tm_ok b \<longleftrightarrow>
     0 \<le> tm_sec b \<and> tm_sec b < 60 \<and> 0 \<le> tm_min b \<and> tm_min b < 60 \<and>
     0 \<le> tm_hour b \<and> tm_hour b < 24 \<and> 0 \<le> tm_mon b \<and> tm_mon b < 12 \<and>
     1 \<le> tm_mday b \<and> tm_mday b \<le> month_days (tm_year b + 1900) ! nat (tm_mon b)"

lemma gmtime_ok: "tm_ok (gmtime t)" and timegm_gmtime: "timegm (gmtime t) = t"
proof -
  obtain y yd where y: "find_year 1970 (t div 86400) = (y, yd)" by fastforce
  obtain m d where m: "find_month 0 yd (month_days y) = (m, d)" by fastforce
  note Y = find_year_correct [OF y]
  have M: "0 \<le> m \<and> m < 0 + int (length (month_days y)) \<and> 0 \<le> d \<and>
      d < month_days y ! nat (m - 0) \<and> sum_list (take (nat (m - 0)) (month_days y)) + d = yd"
    using find_month_correct [OF m] Y by (simp add: sum_month_days)
  have l: "length (month_days y) = 12" by (simp add: month_days_def)
  have g: "gmtime t = \<lparr>tm_sec = t mod 60, tm_min = t mod 3600 div 60, tm_hour = t mod 86400 div 3600,
         tm_mday = d + 1, tm_mon = m, tm_year = y - 1900\<rparr>"
    by (simp add: gmtime_def y m)
  have split: "t = 86400 * (t div 86400) + t mod 86400"
    "t mod 86400 = 3600 * (t mod 86400 div 3600) + t mod 3600"
    "t mod 3600 = 60 * (t mod 3600 div 60) + t mod 60"
    using mod_mod_cancel [of 3600 86400 t] mod_mod_cancel [of 60 3600 t]
      mult_div_mod_eq [of 3600 "t mod 86400"] mult_div_mod_eq [of 60 "t mod 3600"]
    by simp_all
  have "0 \<le> t mod 60" "t mod 60 < 60" "0 \<le> t mod 3600" "t mod 3600 < 3600"
    "0 \<le> t mod 86400" "t mod 86400 < 86400"
    by simp_all
  with split(2,3) have "0 \<le> t mod 60" "t mod 60 < 60" "0 \<le> t mod 3600 div 60"
    "t mod 3600 div 60 < 60" "0 \<le> t mod 86400 div 3600" "t mod 86400 div 3600 < 24"
    by linarith+
  with M l show "tm_ok (gmtime t)" by (simp add: g tm_ok_def)
  have "days_before_year 1970 = 0" by (simp add: days_before_year_def)
  then have "timegm (gmtime t) = 86400 * (t div 86400) + 3600 * (t mod 86400 div 3600)
      + 60 * (t mod 3600 div 60) + t mod 60"
    using M Y by (simp add: g timegm_def algebra_simps)
  also have "\<dots> = t" using split by linarith
  finally show "timegm (gmtime t) = t" .
qed

end
