(* ===== verification/Clock_App.thy ===== *)
theory Clock_App
  imports Snmp_Threads C_Time
begin

text \<open>
  The clock side, \<open>main.c\<close>: the devices, the configuration, the GPS thread, the PTP thread with
  the master and slave behaviour, and the start of the program. Each thread is modelled one
  turn of its loop at a time.
\<close>

subsection \<open>State\<close>

definition CLOCK_MASTER :: u8 where "CLOCK_MASTER = 0x01"

definition CLOCK_SLAVE :: u8 where "CLOCK_SLAVE = 0x02"

definition GPS_CONNECT :: u8 where "GPS_CONNECT = 0"

definition GPS_UNCONNECT :: u8 where "GPS_UNCONNECT = 1"

definition PTP_VALID :: u32 where "PTP_VALID = 0x2000"

definition CLK_GPS :: u32 where "CLK_GPS = 0x4000"

definition CLK_PTP :: u32 where "CLK_PTP = 0xC000"

definition CLK_SLAVE :: u32 where "CLK_SLAVE = 0x0800"

definition OMAP_RUN_LED :: u32 where "OMAP_RUN_LED = 0xefff"

definition CFG_FILE_SIZE :: nat where "CFG_FILE_SIZE = 10"

definition LED_FILE_NAME :: string where "LED_FILE_NAME = ''/dev/led''"

definition EMIFA_FILE_NAME :: string where "EMIFA_FILE_NAME = ''/dev/emifa_control''"

definition TRIGGER_FILE_NAME :: string where "TRIGGER_FILE_NAME = ''/dev/ptp_trigger''"

definition PTP0_FILE_NAME :: string where "PTP0_FILE_NAME = ''/dev/ptp0''"

definition CFG_FILE_NAME :: string where "CFG_FILE_NAME = ''/etc/clock_distribut.conf''"

definition NET_FILE_NAME :: string where "NET_FILE_NAME = ''/sys/class/net/eth0/carrier''"

lemmas mode_defs [const_defs] = CLOCK_MASTER_def CLOCK_SLAVE_def GPS_CONNECT_def GPS_UNCONNECT_def

lemmas config_bits [const_defs] = PTP_VALID_def CLK_GPS_def CLK_PTP_def CLK_SLAVE_def
  OMAP_RUN_LED_def

record 'q app_st = "'q snmp_st" +
  led_fd :: int
  emifa_fd :: int
  trigger_fd :: int
  ptp0_fd :: int
  conf_fd :: int
  net_fd :: int
  clkid :: u32
  gps_status :: u8
  mach_type :: u8
  cur_status :: u8
  masterTOslave :: u8
  wait_ptp_flag :: u8

subsection \<open>Devices\<close>

definition get_clockid :: "int \<Rightarrow> u32" where
  "get_clockid fd = push_bit 3 (NOT (word_of_int fd)) OR 3"

datatype rst_level = FPGA_RST_LOW | FPGA_RST_HIGH

datatype led_level = LED_ON | LED_OFF

datatype clk_choice = OSC_CLK | FPGA_CLK

definition fpga_rst_ctl :: "rst_level \<Rightarrow> ('q, 'z) app_st_scheme \<Rightarrow> ('q, 'z) app_st_scheme" where
  "fpga_rst_ctl status s =
     sys_ioctl (led_fd s) (case status of FPGA_RST_LOW \<Rightarrow> FPGA_RST_CLR | FPGA_RST_HIGH \<Rightarrow> FPGA_RST_SET) s"

definition led_ctl :: "led_level \<Rightarrow> ('q, 'z) app_st_scheme \<Rightarrow> ('q, 'z) app_st_scheme" where
  "led_ctl status s =
     sys_ioctl (led_fd s) (case status of LED_ON \<Rightarrow> MPU_LED_ON | LED_OFF \<Rightarrow> MPU_LED_OFF) s"

definition net_clk_choose :: "clk_choice \<Rightarrow> ('q, 'z) app_st_scheme \<Rightarrow> ('q, 'z) app_st_scheme" where
  "net_clk_choose status s =
     sys_ioctl (led_fd s) (case status of OSC_CLK \<Rightarrow> NETCLK_GPIO_SET | FPGA_CLK \<Rightarrow> NETCLK_GPIO_CLR) s"

definition open_device :: "env \<Rightarrow> ('q, 'z) app_st_scheme \<Rightarrow> int \<times> ('q, 'z) app_st_scheme" where
  "open_device E s =
     (let (fd, s) = sys_open E LED_FILE_NAME s; s = s\<lparr>led_fd := fd\<rparr>
      in if fd < 0 then (-1, s)
         else (let (fd, s) = sys_open E EMIFA_FILE_NAME s; s = s\<lparr>emifa_fd := fd\<rparr>
      in if fd < 0 then (-1, s)
         else (let (fd, s) = sys_open E TRIGGER_FILE_NAME s; s = s\<lparr>trigger_fd := fd\<rparr>
      in if fd < 0 then (-1, s)
         else (let (fd, s) = sys_open E PTP0_FILE_NAME s; s = s\<lparr>ptp0_fd := fd\<rparr>
      in if fd < 0 then (-1, s) else (0, FPGA_disable (led_fd s) s)))))"

definition close_if_open :: "int \<Rightarrow> ('q, 'z) app_st_scheme \<Rightarrow> ('q, 'z) app_st_scheme" where
  "close_if_open fd s = (if 0 \<le> fd then sys_close fd s else s)"

definition close_device :: "('q, 'z) app_st_scheme \<Rightarrow> ('q, 'z) app_st_scheme" where
  "close_device s =
     close_if_open (ptp0_fd s) (close_if_open (trigger_fd s)
       (close_if_open (emifa_fd s) (close_if_open (led_fd s) s)))"

subsection \<open>Configuration\<close>

text \<open>\<open>None\<close>: the search, or the character after the key, is read behind the end of \<open>buff\<close>.\<close>

definition get_conf :: "string \<Rightarrow> int option" where
  "get_conf buff =
     (case c_strstr buff ''TYPE='' of
        None \<Rightarrow> None
      | Some None \<Rightarrow> Some (-1)
      | Some (Some i) \<Rightarrow>
          if length buff \<le> i + 5 then None
          else (let c = buff ! (i + 5)
                in if c = CHR ''M'' \<or> c = CHR ''m'' then Some (uint CLOCK_MASTER)
                   else if c = CHR ''S'' \<or> c = CHR ''s'' then Some (uint CLOCK_SLAVE)
                   else Some (-1)))"

text \<open>\<open>get_fpga_version\<close>: the first four characters behind \<open>%x\<close>, NULs included, with dots.\<close>

definition get_fpga_version ::
  "env \<Rightarrow> string option \<Rightarrow> ('q, 'z) app_st_scheme
     \<Rightarrow> (int \<times> string option \<times> ('q, 'z) app_st_scheme) option" where
  "get_fpga_version E buffer s =
     (case buffer of
        None \<Rightarrow> Some (-1, None, s)
      | Some buf \<Rightarrow>
          (let (v, s) = fpga_read_version E (emifa_fd s) s
           in case c_store (zeros 128) 0 (fmt_x v) of
                None \<Rightarrow> None
              | Some vb \<Rightarrow>
                  map_option (\<lambda>b. (7, Some b, s))
                    (c_store buf 0 [vb ! 0, CHR ''.'', vb ! 1, CHR ''.'', vb ! 2, CHR ''.'', vb ! 3])))"

subsection \<open>The GPS thread\<close>

text \<open>One turn; \<open>val\<close> is an unsigned character. The static \<open>delay_time\<close> is never read.\<close>

definition check_gps_turn :: "env \<Rightarrow> ('q, 'z) app_st_scheme \<Rightarrow> ('q, 'z) app_st_scheme" where
  "check_gps_turn E s =
     (let (v, s) = fpga_read_logic_status E (emifa_fd s) s;
          val = (ucast v :: u8);
          s = s\<lparr>ClockParameter := (ClockParameter s)\<lparr>gps_lockstate := ucast (val AND 0x80)\<rparr>\<rparr>;
          s = (if val AND 0x80 \<noteq> 0 then s\<lparr>gps_status := GPS_CONNECT\<rparr>
               else s\<lparr>gps_status := GPS_UNCONNECT\<rparr>)
      in sys_system ''./ntpq -pn -crl'' (sys_sleep 8 s))"

subsection \<open>Writing the time to the FPGA\<close>

fun write_ptp_times ::
  "env \<Rightarrow> u32 list \<Rightarrow> nat list \<Rightarrow> ('q, 'z) app_st_scheme \<Rightarrow> ('q, 'z) app_st_scheme option" where
  "write_ptp_times E buff [] s = Some s"
| "write_ptp_times E buff (i # is) s =
     (case fpga_write_ptp_time E (emifa_fd s) buff i s of
        None \<Rightarrow> None | Some s \<Rightarrow> write_ptp_times E buff is s)"

fun read_fpga_times ::
  "env \<Rightarrow> u32 list \<Rightarrow> nat list \<Rightarrow> ('q, 'z) app_st_scheme \<Rightarrow> u32 list \<times> ('q, 'z) app_st_scheme" where
  "read_fpga_times E buff [] s = (buff, s)"
| "read_fpga_times E buff (i # is) s =
     (let (v, s) = fpga_read_fpga_time E (emifa_fd s) i s in read_fpga_times E (buff[i := v]) is s)"

definition time_fields :: "tm \<Rightarrow> u32 list" where
  "time_fields p_tm =
     (let temp = tm_year p_tm + 1900 - 2000
      in [if temp > 0 then word_of_int temp else word_of_int (tm_year p_tm),
          word_of_int (tm_mon p_tm + 1), word_of_int (tm_mday p_tm), word_of_int (tm_hour p_tm),
          word_of_int (tm_min p_tm), word_of_int (tm_sec p_tm)])"

definition send_system_time :: "env \<Rightarrow> ('q, 'z) app_st_scheme \<Rightarrow> ('q, 'z) app_st_scheme option" where
  "send_system_time E s =
     (let garbage = sint (e_garbage E (hist s) 0);
          (ts, s) = sys_clock_gettime E (clkid s) s;
          sec = (case ts of None \<Rightarrow> garbage | Some (sec, nsec) \<Rightarrow> sec);
          buff = time_fields (gmtime sec)
      in case write_ptp_times E buff [0..<6] s of
           None \<Rightarrow> None
         | Some s \<Rightarrow>
             (let (buff, s) = read_fpga_times E buff [0..<6] s
              in Some (if buff ! 3 = 9 \<and> buff ! 4 = 0 \<and> buff ! 5 = 0
                       then s\<lparr>wait_ptp_flag := 1\<rparr> else s)))"

subsection \<open>The PTP thread\<close>

text \<open>The locals of \<open>thread_send_ptp_time_handle\<close> that live from turn to turn, and \<open>tv\<close>.\<close>

record ptp_locals =
  ptp_val :: u32
  fpga_status :: u32
  buffnet :: u8
  ts_sec :: int
  tv_sec :: int
  ptp_num :: u32
  fpga_config :: u32
  net_flag :: u32
  net_count :: u32

text \<open>\<open>sprintf (field, "%s", ctime (&t))\<close> into a string of the parameter block.\<close>

definition store_ctime :: "env \<Rightarrow> int \<Rightarrow> string \<Rightarrow> ('q, 'z) app_st_scheme \<Rightarrow> string option" where
  "store_ctime E t field s = c_store field 0 (e_ctime E (hist s) t)"

text \<open>
  The first half of a turn: status, both clocks, the carrier file, the trigger. A \<open>read\<close> that
  delivers fewer bytes than asked for leaves the rest of its target as it was.
\<close>

definition read_status ::
  "env \<Rightarrow> ('q, 'z) app_st_scheme \<Rightarrow> ('q, 'z) app_st_scheme" where
  "read_status E s =
     (let (fpga_date, s) = fpga_read_work_status E (emifa_fd s) s
      in s\<lparr>ClockParameter := (ClockParameter s)\<lparr>device_fpgastate := fpga_date\<rparr>\<rparr>)"

definition read_clocks ::
  "env \<Rightarrow> ptp_locals \<Rightarrow> ('q, 'z) app_st_scheme \<Rightarrow> (ptp_locals \<times> ('q, 'z) app_st_scheme) option" where
  "read_clocks E l s =
     (let (ts, s) = sys_clock_gettime E (clkid s) s
      in case (case ts of
                 None \<Rightarrow> Some (l, s)
               | Some (sec, nsec) \<Rightarrow>
                   map_option
                     (\<lambda>b. (l\<lparr>ts_sec := sec\<rparr>, s\<lparr>ClockParameter := (ClockParameter s)\<lparr>ptp_time := b\<rparr>\<rparr>))
                     (store_ctime E sec (ptp_time (ClockParameter s)) s)) of
           None \<Rightarrow> None
         | Some (l, s) \<Rightarrow>
             (let ((sec, usec), s) = sys_gettimeofday E s
              in map_option
                   (\<lambda>b. (l\<lparr>tv_sec := sec\<rparr>, s\<lparr>ClockParameter := (ClockParameter s)\<lparr>gps_time := b\<rparr>\<rparr>))
                   (store_ctime E sec (gps_time (ClockParameter s)) s)))"

definition read_carrier ::
  "env \<Rightarrow> ptp_locals \<Rightarrow> ('q, 'z) app_st_scheme \<Rightarrow> (ptp_locals \<times> ('q, 'z) app_st_scheme) turn" where
  "read_carrier E l s =
     (let (fd, s) = sys_open E NET_FILE_NAME s; s = s\<lparr>net_fd := fd\<rparr>
      in if fd > 0 then
           (let (r, s) = sys_read E fd 1 s;
                s = sys_close fd s;
                l = (case r of Some (c # _) \<Rightarrow> l\<lparr>buffnet := of_char c\<rparr> | _ \<Rightarrow> l)
            in Next (l, s\<lparr>ClockParameter := (ClockParameter s)\<lparr>net_connectstate := buffnet l\<rparr>\<rparr>))
         else Thread_exit (l, s))"

definition read_trigger ::
  "env \<Rightarrow> ptp_locals \<Rightarrow> ('q, 'z) app_st_scheme \<Rightarrow> (ptp_locals \<times> ('q, 'z) app_st_scheme) turn" where
  "read_trigger E l s =
     (let (r, s) = sys_read E (trigger_fd s) 4 s
      in case r of
           None \<Rightarrow> Thread_exit (l, s)
         | Some bs \<Rightarrow>
             Next (l\<lparr>ptp_val := of_le32 (take 4 bs @ drop (length bs) (le32 (ptp_val l)))\<rparr>,
                   led_ctl LED_OFF s))"

text \<open>The config register read back into the parameter block; \<open>bits\<close> selects the clock source.\<close>

definition report_config :: "u32 \<Rightarrow> u32 \<Rightarrow> ('q, 'z) app_st_scheme \<Rightarrow> ('q, 'z) app_st_scheme" where
  "report_config bits config s =
     s\<lparr>ClockParameter := (ClockParameter s)
        \<lparr>clock_source := config AND bits, ptp_lockstate := config AND 0x2000,
         arm_runstate := config AND 0x1000\<rparr>\<rparr>"

text \<open>The branch of a slave with a link.\<close>

definition slave_linked ::
  "env \<Rightarrow> ptp_locals \<Rightarrow> ('q, 'z) app_st_scheme \<Rightarrow> (ptp_locals \<times> ('q, 'z) app_st_scheme) option" where
  "slave_linked E l s =
     (let s = sys_system ''./ptp/testptp -S'' s;
          (l, s) = (if ts_sec l = tv_sec l then
                      (let s = fpga_write_config E (emifa_fd s)
                                 ((fpga_status l OR CLK_PTP) AND OMAP_RUN_LED) s;
                           (config, s) = fpga_read_config E (emifa_fd s) s
                       in (l\<lparr>fpga_config := config\<rparr>, report_config 0xc000 config s))
                    else (l, s))
      in case send_system_time E s of
           None \<Rightarrow> None
         | Some s \<Rightarrow>
             (let (l, s) = (if net_flag l = 1 \<and> net_count l \<ge> 3
                            then (l\<lparr>net_flag := 0, net_count := 0\<rparr>, sys_system ''reboot'' s)
                            else (l, s))
              in Some (l, led_ctl LED_ON s)))"

text \<open>The branch of a slave without a link.\<close>

definition slave_unlinked ::
  "env \<Rightarrow> ptp_locals \<Rightarrow> ('q, 'z) app_st_scheme \<Rightarrow> ptp_locals \<times> ('q, 'z) app_st_scheme" where
  "slave_unlinked E l s =
     (let s = fpga_write_config E (emifa_fd s) (fpga_status l AND NOT PTP_VALID) s;
          (config, s) = fpga_read_config E (emifa_fd s) s
      in (l\<lparr>fpga_config := config, net_flag := 1, net_count := net_count l + 1\<rparr>, s))"

text \<open>The counter of a master with a link, which decides when the hardware clock is set.\<close>

definition master_timer ::
  "env \<Rightarrow> ptp_locals \<Rightarrow> ('q, 'z) app_st_scheme \<Rightarrow> ptp_locals \<times> ('q, 'z) app_st_scheme" where
  "master_timer E l s =
     (let (l, s) = (if ptp_num l = 60 then
                      (let s = sys_system ''./ptp/testptp -s'' s;
                           s = fpga_write_config E (emifa_fd s) (fpga_status l AND OMAP_RUN_LED) s;
                           (config, s) = fpga_read_config E (emifa_fd s) s
                       in (l\<lparr>fpga_config := config, ptp_num := 100\<rparr>, s))
                    else if ptp_num l = 3700 then
                      (l\<lparr>ptp_num := 3700\<rparr>, sys_system ''./ptp/testptp -s'' s)
                    else (l, s))
      in (if ptp_num l = 3800 then l\<lparr>ptp_num := 3700\<rparr> else l, s))"

definition master_linked ::
  "env \<Rightarrow> ptp_locals \<Rightarrow> ('q, 'z) app_st_scheme \<Rightarrow> (ptp_locals \<times> ('q, 'z) app_st_scheme) option" where
  "master_linked E l s =
     (let (l, s) = master_timer E l s;
          (l, s) = (if ts_sec l = tv_sec l then
                      (let s = fpga_write_config E (emifa_fd s)
                                 ((fpga_status l OR CLK_GPS) AND OMAP_RUN_LED) s;
                           (config, s) = fpga_read_config E (emifa_fd s) s
                       in (l\<lparr>fpga_config := config\<rparr>, s))
                    else (l, s));
          s = report_config 0x4000 (fpga_config l) s
      in case send_system_time E s of
           None \<Rightarrow> None
         | Some s \<Rightarrow>
             (let s = (if wait_ptp_flag s = 1
                       then sys_system ''./ptp/testptp -s'' (s\<lparr>wait_ptp_flag := 0\<rparr>) else s)
              in Some (l, led_ctl LED_ON s)))"

text \<open>What a turn does when the trigger has delivered a time.\<close>

definition ptp_event ::
  "env \<Rightarrow> ptp_locals \<Rightarrow> ('q, 'z) app_st_scheme \<Rightarrow> (ptp_locals \<times> ('q, 'z) app_st_scheme) option" where
  "ptp_event E l s =
     (let l = l\<lparr>ptp_num := ptp_num l + 1\<rparr>;
          (config, s) = fpga_read_config E (emifa_fd s) s;
          l = l\<lparr>fpga_status := config OR PTP_VALID\<rparr>
      in if cur_status s = CLOCK_SLAVE \<and> buffnet l = 49 then slave_linked E l s
         else if cur_status s = CLOCK_SLAVE \<and> buffnet l = 48 then Some (slave_unlinked E l s)
         else if cur_status s = CLOCK_MASTER \<and> buffnet l = 49 then master_linked E l s
         else Some (l, s))"

text \<open>The change of mode at the end of a turn.\<close>

definition mode_switch ::
  "env \<Rightarrow> ptp_locals \<Rightarrow> ('q, 'z) app_st_scheme \<Rightarrow> ptp_locals \<times> ('q, 'z) app_st_scheme" where
  "mode_switch E l s =
     (if cur_status s = CLOCK_MASTER then
        (if gps_status s = GPS_UNCONNECT then (l, s\<lparr>cur_status := CLOCK_SLAVE\<rparr>) else (l, s))
      else if cur_status s = CLOCK_SLAVE then
        (if mach_type s = CLOCK_MASTER \<and> gps_status s = GPS_CONNECT \<and> masterTOslave s = 0 then
           (let s = s\<lparr>cur_status := CLOCK_MASTER\<rparr>;
                s = sys_system ''./ptp/ntpd -gN -4 -c /etc/ntp.conf'' s;
                (config, s) = fpga_read_config E (emifa_fd s) s;
                l = l\<lparr>fpga_status := config\<rparr>;
                s = fpga_write_config E (emifa_fd s) ((fpga_status l AND NOT CLK_PTP) OR CLK_GPS) s
            in (l, led_ctl LED_ON s))
         else (l, s))
      else (l, s))"

definition send_ptp_turn ::
  "env \<Rightarrow> ptp_locals \<Rightarrow> ('q, 'z) app_st_scheme \<Rightarrow> (ptp_locals \<times> ('q, 'z) app_st_scheme) turn option" where
  "send_ptp_turn E l s =
     (case read_clocks E l (read_status E s) of
        None \<Rightarrow> None
      | Some (l, s) \<Rightarrow>
          (case read_carrier E l s of
             Thread_exit r \<Rightarrow> Some (Thread_exit r)
           | Next (l, s) \<Rightarrow>
               (case read_trigger E l s of
                  Thread_exit r \<Rightarrow> Some (Thread_exit r)
                | Next (l, s) \<Rightarrow>
                    (case (if ptp_val l = 1 then ptp_event E l s else Some (l, s)) of
                       None \<Rightarrow> None
                     | Some (l, s) \<Rightarrow> Some (Next (mode_switch E l s))))))"

subsection \<open>The start of the program\<close>

datatype main_end = Main_returns int | Main_exits int | Main_runs

text \<open>The threads that follow the PTP thread; each failed creation ends \<open>main\<close> with -1.\<close>

fun start_threads ::
  "env \<Rightarrow> string list \<Rightarrow> ('q, 'z) app_st_scheme \<Rightarrow> main_end \<times> ('q, 'z) app_st_scheme" where
  "start_threads E [] s = (Main_runs, s)"
| "start_threads E (t # ts) s =
     (let (r, s) = sys_thread E t s
      in if r \<noteq> 0 then (Main_returns (-1), s) else start_threads E ts s)"

definition service_threads :: "string list" where
  "service_threads = [''thread_send_ptp_time_handle'', ''pthread_snmp_recv'', ''pthread_snmp_send'',
     ''pthread_snmp_send_ack'', ''pthread_second_task'']"

text \<open>From the initialised management side to the endless loop.\<close>

definition main_threads ::
  "env \<Rightarrow> ('q, 'z) app_st_scheme \<Rightarrow> main_end \<times> ('q, 'z) app_st_scheme" where
  "main_threads E s =
     (if cur_status s = CLOCK_MASTER then
        (let s = sys_mutex_init ''lock'' (sys_sleep 5 s);
             (r, s) = sys_thread E ''thread_check_gps_status_handle'' s
         in if r \<noteq> 0 then (Main_returns (-1), s)
            else start_threads E service_threads (sys_sleep 2 s))
      else start_threads E service_threads s)"

text \<open>Clock selection and reset of the FPGA, its version, and the slave bit of its configuration.\<close>

definition main_fpga ::
  "env \<Rightarrow> ('q, 'z) app_st_scheme \<Rightarrow> ('q, 'z) app_st_scheme option" where
  "main_fpga E s =
     (let s = net_clk_choose OSC_CLK s;
          s = sys_usleep 20 (fpga_rst_ctl FPGA_RST_LOW s);
          s = sys_usleep 500 (fpga_rst_ctl FPGA_RST_HIGH s)
      in case get_fpga_version E (Some (fpga_version (ClockParameter s))) s of
           Some (ret, Some b, s) \<Rightarrow>
             (let s = s\<lparr>ClockParameter := (ClockParameter s)\<lparr>fpga_version := b\<rparr>\<rparr>;
                  s = (if ret \<noteq> 0 then net_clk_choose FPGA_CLK s else s);
                  (fpga_date, s) = fpga_read_config E (emifa_fd s) s
              in Some (if mach_type s = CLOCK_SLAVE
                       then fpga_write_config E (emifa_fd s) (fpga_date OR CLK_SLAVE) s
                       else fpga_write_config E (emifa_fd s) (fpga_date AND NOT CLK_SLAVE) s))
         | _ \<Rightarrow> None)"

text \<open>Opening and reading the configuration: the bytes read, if there are any.\<close>

definition main_config ::
  "env \<Rightarrow> ('q, 'z) app_st_scheme \<Rightarrow> string option \<times> ('q, 'z) app_st_scheme" where
  "main_config E s =
     (let (fd, s) = sys_open E CFG_FILE_NAME s; s = s\<lparr>conf_fd := fd\<rparr>
      in if fd > 0 then
           (let (r, s) = sys_read E fd CFG_FILE_SIZE s; s = sys_close fd s
            in case r of
                 None \<Rightarrow> (None, s)
               | Some bs \<Rightarrow>
                   (if bs = [] then None
                    else Some (take CFG_FILE_SIZE bs @ drop (length bs) (zeros CFG_FILE_SIZE)), s))
         else (None, s))"

text \<open>The mode, the reported mode and the machine type are set from the configuration.\<close>

definition set_mode :: "int \<Rightarrow> ('q, 'z) app_st_scheme \<Rightarrow> ('q, 'z) app_st_scheme" where
  "set_mode conf s =
     (let s = s\<lparr>cur_status := word_of_int conf\<rparr>
      in s\<lparr>ClockParameter := (ClockParameter s)\<lparr>device_mode := ucast (cur_status s)\<rparr>,
           mach_type := cur_status s\<rparr>)"

definition main_serve ::
  "env \<Rightarrow> 'q cstl_ops \<Rightarrow> ('q, 'z) app_st_scheme \<Rightarrow> main_end \<times> ('q, 'z) app_st_scheme" where
  "main_serve E C s =
     (let (snmp_status, s) = snmp_init E C s
      in if snmp_status \<noteq> 0 then (Main_exits 1, s) else main_threads E s)"

definition clock_main ::
  "env \<Rightarrow> 'q cstl_ops \<Rightarrow> ('q, 'z) app_st_scheme \<Rightarrow> (main_end \<times> ('q, 'z) app_st_scheme) option" where
  "clock_main E C s =
     (case open_device E (s\<lparr>ArmVersion := arm_version_built\<rparr>) of (ret, s) \<Rightarrow>
        if ret < 0 then Some (Main_returns (-1), close_device s)
        else
          (let s = s\<lparr>clkid := get_clockid (ptp0_fd s)\<rparr>
           in if clkid s = - 1 then Some (Main_returns (-1), s)
              else (case main_config E s of
                      (None, s) \<Rightarrow> Some (Main_returns (-1), s)
                    | (Some buff, s) \<Rightarrow>
                        (case get_conf buff of
                           None \<Rightarrow> None
                         | Some conf \<Rightarrow>
                             map_option (main_serve E C) (main_fpga E (set_mode conf s))))))"

end
