(* ===== verification/Clock_Start.thy ===== *)
theory Clock_Start
  imports Clock_App
begin

text \<open>
  The start of the program: the clock identifier, the configuration file, the devices, the
  version of the FPGA, and what \<open>main\<close> has established when it reaches its endless loop.
\<close>

subsection \<open>The clock identifier\<close>

lemma bit_seven: "bit (7 :: u32) n \<longleftrightarrow> n < 3"
  using bit_mask_iff [of 3 n, where 'a = u32] by (simp add: mask_numeral) auto

lemma bit_three: "bit (3 :: u32) n \<longleftrightarrow> n < 2"
  using bit_mask_iff [of 2 n, where 'a = u32] by (simp add: mask_numeral) auto

text \<open>
  The low three bits of a clock identifier made from a descriptor are always 3, so it is
  never \<open>CLOCK_INVALID\<close> (-1): the check of \<open>main\<close> cannot fail, even for a descriptor that is -1.
\<close>

theorem get_clockid_never_invalid: "get_clockid fd AND 7 = 3 \<and> get_clockid fd \<noteq> - 1"
proof
  have "(push_bit 3 w OR 3) AND 7 = 3" for w :: u32
    by (rule bit_word_eqI) (auto simp: bit_simps bit_seven bit_three simp del: bit_numeral_word_iff)
  then show a: "get_clockid fd AND 7 = 3" unfolding get_clockid_def .
  show "get_clockid fd \<noteq> - 1" using a by auto
qed

subsection \<open>The configuration file\<close>

lemma c_strstr_key: "c_strstr (''TYPE='' @ r) ''TYPE='' = Some (Some 0)"
  by (rule c_strstr_prefix) simp

text \<open>
  The character behind \<open>TYPE=\<close> decides: \<open>M\<close> or \<open>m\<close> is master, \<open>S\<close> or \<open>s\<close> is slave, anything
  else is the error -1, whatever follows. A buffer that ends with the key is read past its end.
\<close>

theorem get_conf_result:
  "get_conf (''TYPE='' @ r) =
     (case r of
        [] \<Rightarrow> None
      | c # _ \<Rightarrow> Some (if c = CHR ''M'' \<or> c = CHR ''m'' then 1
                       else if c = CHR ''S'' \<or> c = CHR ''s'' then 2 else -1))"
  using c_strstr_key [of r]
  by (simp add: get_conf_def mode_defs Let_def split: list.split)

text \<open>
  The ten bytes of the configuration are searched as a string although nothing terminates
  them: when the file fills the buffer and holds no key, the search runs behind the buffer.
\<close>

theorem get_conf_overread:
  assumes "length buff = CFG_FILE_SIZE" and "NUL \<notin> set buff"
    and "\<nexists>i. prefix ''TYPE='' (drop i buff)"
  shows "get_conf buff = None"
  using c_strstr_absent [OF assms(2) _ assms(3)] by (simp add: get_conf_def)

theorem get_conf_overread_witness: "get_conf ''# settings'' = None"
proof -
  have "\<not> prefix ''TYPE='' (drop i ''# settings'')" for i
  proof
    assume p: "prefix ''TYPE='' (drop i ''# settings'')"
    then have "CHR ''T'' \<in> set (drop i ''# settings'')" by (auto simp: prefix_def)
    then have "CHR ''T'' \<in> set ''# settings''" by (rule in_set_dropD)
    then show False by simp
  qed
  then show ?thesis
    using get_conf_overread [of "''# settings''"] by (simp add: CFG_FILE_SIZE_def NUL_def)
qed

subsection \<open>The version of the FPGA\<close>

lemma length_fmt_x: "length (fmt_x v) \<le> 8"
proof -
  have "unat v < 16 ^ 8" using unsigned_less [of v] by simp
  then show ?thesis unfolding fmt_x_def by (intro length_num_string_le) simp_all
qed

lemma nul_notin_fmt_x: "NUL \<notin> set (fmt_x v)"
  by (simp add: fmt_x_def)

definition padded :: "string \<Rightarrow> nat \<Rightarrow> char" where
  "padded t i = (if i < length t then t ! i else NUL)"

text \<open>
  The version string: seven characters are always written and reported, the first four hex
  digits of the version register with dots between them. They form a string of that length
  only for versions of four digits or more; a shorter version leaves NULs in between, and
  the string ends behind the dot that follows the last digit.
\<close>

theorem get_fpga_version_text:
  assumes "length buf = PARAM_LEN" and "fst (fpga_read_version E (emifa_fd s) s) = v"
  shows "\<exists>b s'. get_fpga_version E (Some buf) s = Some (7, Some b, s') \<and>
           param_string b \<and>
           take 7 b = [padded (fmt_x v) 0, CHR ''.'', padded (fmt_x v) 1, CHR ''.'',
                       padded (fmt_x v) 2, CHR ''.'', padded (fmt_x v) 3] \<and>
           length (cstr b) = (if 4 \<le> length (fmt_x v) then 7 else 2 * length (fmt_x v))"
proof -
  let ?t = "fmt_x v"
  let ?c = "[padded ?t 0, CHR ''.'', padded ?t 1, CHR ''.'', padded ?t 2, CHR ''.'', padded ?t 3]"
  have l: "length ?t \<le> 8" by (rule length_fmt_x)
  have ne: "?t \<noteq> []" by (simp add: fmt_x_def)
  obtain vb where vb: "c_store (zeros 128) 0 ?t = Some vb"
    using c_store_ok [of 0 ?t "zeros 128"] l by auto
  have at: "vb ! i = padded ?t i" if "i < 4" for i
    using vb l that
    by (auto simp: c_store_Some write_at_def padded_def nth_append zeros_def nth_Cons' NUL_def)
  have "0 + length ?c < length buf" using assms(1) by (simp add: PARAM_LEN_def)
  then obtain b where b: "c_store buf 0 ?c = Some b" using c_store_ok by blast
  have "take 7 b = ?c" using b by (simp add: c_store_Some write_at_def)
  moreover have "param_string b"
    using c_store_length [OF b] c_store_has_nul [OF b] assms(1) by (simp add: param_string_def)
  moreover have "length (cstr b) = (if 4 \<le> length ?t then 7 else 2 * length ?t)"
  proof -
    have nn: "padded ?t i = NUL \<longleftrightarrow> length ?t \<le> i" for i
      using nul_notin_fmt_x [of v] by (auto simp: padded_def) (metis not_le nth_mem)
    obtain r where "b = ?c @ NUL # r" using b by (auto simp: c_store_Some write_at_def)
    moreover have "length ?t = 1 \<or> length ?t = 2 \<or> length ?t = 3 \<or> 4 \<le> length ?t"
    proof -
      have "length ?t \<noteq> 0" using ne by simp
      then show ?thesis by linarith
    qed
    ultimately show ?thesis using ne nn [of 0] nn [of 1] nn [of 2] nn [of 3]
      by (elim disjE) (simp_all add: cstr_def, simp_all add: NUL_def)
  qed
  moreover obtain s1 where "fpga_read_version E (emifa_fd s) s = (v, s1)"
    using assms(2) by (metis fst_conv surj_pair)
  ultimately show ?thesis
    using vb b at [of 0] at [of 1] at [of 2] at [of 3]
    by (auto simp: get_fpga_version_def Let_def)
qed

subsection \<open>A state and devices for the witnesses\<close>

text \<open>Objects with static storage are zeros before \<open>main\<close> runs; the queues do not exist yet.\<close>

definition app_0 :: "sn_msg_param list app_st" where
  "app_0 =
     \<lparr>hist = [], fpga_msg = \<lparr>addr = 0, tx_val = 0, rx_val = 0\<rparr>, ArmVersion = app_version_0,
      ClockParameter = clock_para_0, send_queue = None, ack_queue = None, ack_sem = 0,
      sem_full = 0, sem_mutex = 0, trapsignal = 0, flag_trap = False, SnmpData = SnmpData_0,
      led_fd = 0, emifa_fd = 0, trigger_fd = 0, ptp0_fd = 0, conf_fd = 0, net_fd = 0, clkid = 0,
      gps_status = GPS_UNCONNECT, mach_type = 0, cur_status = 0, masterTOslave = 0,
      wait_ptp_flag = 0\<rparr>"

lemma app_0_wf: "clock_para_wf (ClockParameter app_0)" "SnmpData app_0 = SnmpData_0"
  by (simp_all add: app_0_def clock_para_wf_0)

text \<open>A version register of 0x1203 and a configuration file with the given bytes, on a network with one route.\<close>

definition board_env :: "string \<Rightarrow> env" where
  "board_env conf =
     (reg_env (\<lambda>a. if a = ADDR_VERSION then 0x1203 else 0))
       \<lparr>e_read := \<lambda>h fd n. Some conf, e_popen := e_popen route_env\<rparr>"

lemma fmt_x_1203: "fmt_x 0x1203 = ''1203''"
  by (simp add: fmt_x_def num_string_step num_string_small digit_char_def) code_simp

theorem get_fpga_version_text_witness:
  "\<exists>b s'. get_fpga_version (board_env []) (Some (zeros PARAM_LEN)) app_0 = Some (7, Some b, s') \<and>
     take 7 b = ''1.2.0.3''"
proof -
  have "fst (fpga_read_version (board_env []) (emifa_fd app_0) app_0) = 0x1203"
    by (simp add: fpga_fun_defs emifa_ioctl_def emit_def board_env_def reg_env_def reg_file_emifa_def
        app_0_def addr_defs)
  from get_fpga_version_text [OF _ this, of "zeros PARAM_LEN"] show ?thesis
    by (auto simp: fmt_x_1203 padded_def)
qed

subsection \<open>The devices\<close>

text \<open>
  When the first device cannot be opened, the descriptors of the others still have their
  initial value 0, so the clean-up of \<open>main\<close> closes descriptor 0, which the program never
  opened, three times.
\<close>

theorem failed_open_closes_descriptor_0:
  assumes "emifa_fd s = 0" and "trigger_fd s = 0" and "ptp0_fd s = 0"
    and "e_open E (hist s) LED_FILE_NAME < 0"
  shows "\<exists>s'. clock_main E C s = Some (Main_returns (-1), s') \<and>
           hist s' = hist s @ [Ev_open LED_FILE_NAME, Ev_close 0, Ev_close 0, Ev_close 0]"
  using assms
  by (simp add: clock_main_def open_device_def sys_open_def close_device_def close_if_open_def
      sys_close_def emit_def Let_def)

definition no_led_env :: env where
  "no_led_env = idle_env\<lparr>e_open := \<lambda>h p. - 1\<rparr>"

theorem failed_open_closes_descriptor_0_witness:
  "\<exists>s'. clock_main no_led_env list_cstl app_0 = Some (Main_returns (-1), s') \<and>
     hist s' = [Ev_open LED_FILE_NAME, Ev_close 0, Ev_close 0, Ev_close 0]"
  using failed_open_closes_descriptor_0 [of app_0 no_led_env list_cstl]
  by (simp add: app_0_def no_led_env_def)

subsection \<open>What the parts of \<open>main\<close> change\<close>

text \<open>The fields the start-up functions share: parameters, handler table, trap gate, mode and machine type.\<close>

definition same_core :: "('q, 'z) app_st_scheme \<Rightarrow> ('q, 'z) app_st_scheme \<Rightarrow> bool" where
  "same_core s s' \<longleftrightarrow>
     ClockParameter s' = ClockParameter s \<and> SnmpData s' = SnmpData s \<and>
     cur_status s' = cur_status s \<and> mach_type s' = mach_type s \<and>
     masterTOslave s' = masterTOslave s \<and> gps_status s' = gps_status s \<and>
     flag_trap s' = flag_trap s"

lemma open_device_core: "open_device E s = (r, s') \<Longrightarrow> same_core s s'"
  by (auto simp: open_device_def same_core_def sys_open_def FPGA_disable_def sys_ioctl_def
      sys_usleep_def emit_def Let_def split: if_splits)

lemma main_config_core:
  "main_config E s = (r, s') \<Longrightarrow> same_core s s' \<and> (\<forall>b. r = Some b \<longrightarrow> length b = CFG_FILE_SIZE)"
  by (auto simp: main_config_def same_core_def sys_open_def sys_read_def sys_close_def emit_def
      Let_def split: if_splits option.splits)

lemma fpga_call_core [simp]:
  "same_core s (snd (fpga_read_config E fd s))" "same_core s (fpga_write_config E fd v s)"
  "same_core s (snd (fpga_read_version E fd s))" "same_core s (net_clk_choose c s)"
  "same_core s (fpga_rst_ctl l s)" "same_core s (sys_usleep n s)"
  unfolding same_core_def
  by (simp_all add: fpga_fun_defs emifa_ioctl_def emit_def net_clk_choose_def fpga_rst_ctl_def
      sys_ioctl_def sys_usleep_def)

lemma same_core_trans: "same_core s t \<Longrightarrow> same_core t u \<Longrightarrow> same_core s u"
  by (simp add: same_core_def)

lemma get_fpga_version_core:
  assumes "get_fpga_version E (Some buf) s = Some (r, b, s')" and "param_string buf"
  shows "r = 7 \<and> same_core s s' \<and> (\<exists>b'. b = Some b' \<and> param_string b')"
proof -
  obtain v s1 where v: "fpga_read_version E (emifa_fd s) s = (v, s1)" by fastforce
  then have "same_core s s1" using fpga_call_core(3) [of s E "emifa_fd s"] by simp
  with assms v show ?thesis
    by (auto simp: get_fpga_version_def Let_def dest: param_string_store split: option.splits)
qed

text \<open>The steps of the FPGA initialisation up to the read of the configuration register.\<close>

lemma main_fpga_cases:
  assumes "main_fpga E s = Some s'" and "clock_para_wf (ClockParameter s)"
  obtains s1 where "clock_para_wf (ClockParameter s1)"
    and "device_mode (ClockParameter s1) = device_mode (ClockParameter s)"
    and "SnmpData s1 = SnmpData s" and "cur_status s1 = cur_status s"
    and "mach_type s1 = mach_type s" and "masterTOslave s1 = masterTOslave s"
    and "gps_status s1 = gps_status s" and "flag_trap s1 = flag_trap s"
    and "s' = fpga_write_config E (emifa_fd (snd (fpga_read_config E (emifa_fd s1) s1)))
           (if mach_type s = CLOCK_SLAVE
            then fst (fpga_read_config E (emifa_fd s1) s1) OR CLK_SLAVE
            else fst (fpga_read_config E (emifa_fd s1) s1) AND NOT CLK_SLAVE)
           (snd (fpga_read_config E (emifa_fd s1) s1))"
proof -
  define t where "t = sys_usleep 500 (fpga_rst_ctl FPGA_RST_HIGH
      (sys_usleep 20 (fpga_rst_ctl FPGA_RST_LOW (net_clk_choose OSC_CLK s))))"
  have t: "same_core s t"
    unfolding t_def by (meson fpga_call_core same_core_trans)
  then have wf: "param_string (fpga_version (ClockParameter t))"
    using assms(2) by (simp add: same_core_def clock_para_wf_def)
  from assms(1) obtain r b s0 where g: "get_fpga_version E (Some (fpga_version (ClockParameter t))) t
      = Some (r, Some b, s0)"
    and s': "s' = (let s = s0\<lparr>ClockParameter := (ClockParameter s0)\<lparr>fpga_version := b\<rparr>\<rparr>;
                  s = (if r \<noteq> 0 then net_clk_choose FPGA_CLK s else s);
                  (fpga_date, s) = fpga_read_config E (emifa_fd s) s
              in if mach_type s = CLOCK_SLAVE
                       then fpga_write_config E (emifa_fd s) (fpga_date OR CLK_SLAVE) s
                       else fpga_write_config E (emifa_fd s) (fpga_date AND NOT CLK_SLAVE) s)"
    by (auto simp: main_fpga_def t_def Let_def split: option.splits prod.splits)
  from get_fpga_version_core [OF g wf] have r: "r = 7" and s0: "same_core t s0" and b: "param_string b"
    by auto
  define s1 where "s1 = net_clk_choose FPGA_CLK (s0\<lparr>ClockParameter := (ClockParameter s0)\<lparr>fpga_version := b\<rparr>\<rparr>)"
  have "same_core s1 (snd (fpga_read_config E (emifa_fd s1) s1))" by simp
  then have "mach_type (snd (fpga_read_config E (emifa_fd s1) s1)) = mach_type s1"
    by (simp add: same_core_def)
  moreover have "same_core (s0\<lparr>ClockParameter := (ClockParameter s0)\<lparr>fpga_version := b\<rparr>\<rparr>) s1"
    by (simp add: s1_def)
  ultimately show ?thesis
    using that [of s1] s' r t s0 b assms(2)
    by (auto simp: same_core_def s1_def [symmetric] Let_def case_prod_unfold clock_para_wf_update)
qed

lemma get_fpga_version_returns:
  assumes "length buf = PARAM_LEN"
  shows "\<exists>b s'. get_fpga_version E (Some buf) s = Some (7, Some b, s')"
proof -
  obtain v s1 where v: "fpga_read_version E (emifa_fd s) s = (v, s1)" by fastforce
  obtain vb where vb: "c_store (zeros 128) 0 (fmt_x v) = Some vb"
    using c_store_ok [of 0 "fmt_x v" "zeros 128"] length_fmt_x [of v] by auto
  let ?c = "[vb ! 0, CHR ''.'', vb ! 1, CHR ''.'', vb ! 2, CHR ''.'', vb ! 3]"
  have "0 + length ?c < length buf" using assms by (simp add: PARAM_LEN_def)
  then obtain b where "c_store buf 0 ?c = Some b" using c_store_ok by blast
  with v vb show ?thesis by (simp add: get_fpga_version_def)
qed

lemma main_fpga_returns:
  assumes "clock_para_wf (ClockParameter s)"
  shows "\<exists>s'. main_fpga E s = Some s'"
proof -
  define t where "t = sys_usleep 500 (fpga_rst_ctl FPGA_RST_HIGH
      (sys_usleep 20 (fpga_rst_ctl FPGA_RST_LOW (net_clk_choose OSC_CLK s))))"
  have "same_core s t" unfolding t_def by (meson fpga_call_core same_core_trans)
  then have "length (fpga_version (ClockParameter t)) = PARAM_LEN"
    using assms by (simp add: same_core_def clock_para_wf_def param_string_def)
  then obtain b s1 where "get_fpga_version E (Some (fpga_version (ClockParameter t))) t = Some (7, Some b, s1)"
    using get_fpga_version_returns by blast
  then show ?thesis by (simp add: main_fpga_def t_def [symmetric] Let_def case_prod_unfold)
qed

lemma slave_bit: "bit (CLK_SLAVE :: u32) n \<longleftrightarrow> n = 11"
  using bit_exp_iff [of 11 n, where 'a = u32] by (auto simp: CLK_SLAVE_def simp del: bit_numeral_word_iff)

text \<open>
  C38. Through a driver that keeps its contract, the FPGA initialisation of \<open>main\<close> always completes.
  Its last two accesses read and then write the configuration register: afterwards bit 11 of the
  register is set exactly for a slave, and every other bit is what it was before them.
\<close>

theorem main_fpga_sets_slave_bit:
  assumes "emifa_device E creg" and "clock_para_wf (ClockParameter s)"
  shows "\<exists>s' h fd rd wr. main_fpga E s = Some s' \<and>
     hist s' = h @ [Ev_emifa fd EMIFA_READ rd, Ev_emifa fd EMIFA_WRITE wr] \<and>
     addr rd = ADDR_CONFIG \<and> addr wr = ADDR_CONFIG \<and>
     (bit (creg (hist s')) 11 \<longleftrightarrow> mach_type s = CLOCK_SLAVE) \<and>
     (\<forall>n. n \<noteq> 11 \<longrightarrow> bit (creg (hist s')) n = bit (creg h) n)"
proof -
  obtain s' where s': "main_fpga E s = Some s'" using main_fpga_returns [OF assms(2)] by blast
  obtain s1 where s1: "s' = fpga_write_config E (emifa_fd (snd (fpga_read_config E (emifa_fd s1) s1)))
           (if mach_type s = CLOCK_SLAVE
            then fst (fpga_read_config E (emifa_fd s1) s1) OR CLK_SLAVE
            else fst (fpga_read_config E (emifa_fd s1) s1) AND NOT CLK_SLAVE)
           (snd (fpga_read_config E (emifa_fd s1) s1))"
    using main_fpga_cases [OF s' assms(2)] by metis
  then have "creg (hist s') = (if mach_type s = CLOCK_SLAVE then creg (hist s1) OR CLK_SLAVE
      else creg (hist s1) AND NOT CLK_SLAVE)"
    by (simp add: emifa_device.config_after_write [OF assms(1)]
        emifa_device.rx_read_config [OF assms(1)])
  then have bits: "(bit (creg (hist s')) 11 \<longleftrightarrow> mach_type s = CLOCK_SLAVE) \<and>
     (\<forall>n. n \<noteq> 11 \<longrightarrow> bit (creg (hist s')) n = bit (creg (hist s1)) n)"
    by (auto simp: bit_simps slave_bit dest: bit_imp_le_length)
  have "emifa_fd (snd (fpga_read_config E (emifa_fd s1) s1)) = emifa_fd s1"
    by (simp add: fpga_read_config_def return_rx_def read_code_def emifa_ioctl_def emit_def)
  then obtain rd wr where "hist s' = hist s1 @ [Ev_emifa (emifa_fd s1) EMIFA_READ rd,
      Ev_emifa (emifa_fd s1) EMIFA_WRITE wr]" "addr rd = ADDR_CONFIG" "addr wr = ADDR_CONFIG"
    by (simp add: s1 fpga_write_config_def fpga_read_config_def return_rx_def hist_write_code hist_read_code)
  with s' bits show ?thesis by blast
qed

theorem main_fpga_sets_slave_bit_witness:
  "\<exists>s'. main_fpga (reg_env (\<lambda>a. 0)) (app_0\<lparr>mach_type := CLOCK_SLAVE\<rparr>) = Some s' \<and>
     bit (last_written ADDR_CONFIG 0 (hist s')) 11"
proof -
  have "clock_para_wf (ClockParameter (app_0\<lparr>mach_type := CLOCK_SLAVE\<rparr>))"
    by (simp add: app_0_def clock_para_wf_0)
  from main_fpga_sets_slave_bit [OF regs.emifa_device_axioms [of "\<lambda>a. 0"] this]
  show ?thesis by auto
qed

subsection \<open>Starting the threads\<close>

lemma start_threads_runs:
  "start_threads E ts s = (Main_runs, s') \<Longrightarrow> s' = s\<lparr>hist := hist s @ map Ev_thread ts\<rparr>"
proof (induction ts arbitrary: s)
  case (Cons t ts)
  then have "start_threads E ts (s\<lparr>hist := hist s @ [Ev_thread t]\<rparr>) = (Main_runs, s')"
    by (auto simp: sys_thread_def emit_def Let_def split: if_splits)
  from Cons.IH [OF this] show ?case by simp
qed simp

definition start_events :: "u8 \<Rightarrow> effect list" where
  "start_events mode =
     (if mode = CLOCK_MASTER
      then [Ev_sleep 5, Ev_mutex_init ''lock'', Ev_thread ''thread_check_gps_status_handle'', Ev_sleep 2] else [])
     @ map Ev_thread service_threads"

lemma main_threads_runs:
  assumes "main_threads E s = (Main_runs, s')"
  shows "s' = s\<lparr>hist := hist s @ start_events (cur_status s)\<rparr>"
  using assms
  by (auto simp: main_threads_def start_events_def sys_sleep_def sys_mutex_init_def sys_thread_def emit_def Let_def
      dest!: start_threads_runs split: if_splits)

lemma word_of_conf:
  "get_conf buff = Some c \<Longrightarrow> word_of_int c \<in> {CLOCK_MASTER, CLOCK_SLAVE, 255}"
  by (auto simp: get_conf_def mode_defs Let_def split: option.splits if_splits)

text \<open>
  The mode that the buffer of the configuration stands for: the character behind the first
  \<open>TYPE=\<close> of the string decides, and everything else, a missing key included, is 255, the byte
  that -1 is stored as. The character must be inside the buffer.
\<close>

definition mode_of :: "string \<Rightarrow> u8 \<Rightarrow> bool" where
  "mode_of buff mode \<longleftrightarrow>
     (case c_strstr buff ''TYPE='' of
        None \<Rightarrow> False
      | Some None \<Rightarrow> mode = 255
      | Some (Some i) \<Rightarrow> i + 5 < length buff \<and>
          mode = (if buff ! (i + 5) \<in> {CHR ''M'', CHR ''m''} then CLOCK_MASTER
                  else if buff ! (i + 5) \<in> {CHR ''S'', CHR ''s''} then CLOCK_SLAVE else 255))"

lemma get_conf_mode: "get_conf buff = Some c \<Longrightarrow> mode_of buff (word_of_int c)"
  by (auto simp: get_conf_def mode_of_def mode_defs Let_def split: option.splits if_splits)

text \<open>The buffer that a read of the configuration file fills, when it is opened after the history \<open>h\<close>.\<close>

definition config_read :: "env \<Rightarrow> history \<Rightarrow> string \<Rightarrow> bool" where
  "config_read E h buff \<longleftrightarrow>
     (\<exists>bs. e_read E (h @ [Ev_open CFG_FILE_NAME]) (e_open E h CFG_FILE_NAME) CFG_FILE_SIZE = Some bs \<and>
        bs \<noteq> [] \<and> buff = take CFG_FILE_SIZE bs @ drop (length bs) (zeros CFG_FILE_SIZE))"

lemma main_config_read: "main_config E s = (Some buff, t) \<Longrightarrow> config_read E (hist s) buff"
  by (auto simp: main_config_def config_read_def sys_open_def sys_read_def sys_close_def emit_def Let_def
      split: if_splits option.splits)

lemma clock_main_cases:
  assumes "clock_main E C s = Some (Main_runs, s')" and "clock_para_wf (ClockParameter s)"
    and "SnmpData s = SnmpData_0"
  obtains s2 buff conf s4 where "clock_para_wf (ClockParameter s2)" and "SnmpData s2 = SnmpData_0"
    and "masterTOslave s2 = masterTOslave s" and "gps_status s2 = gps_status s"
    and "flag_trap s2 = flag_trap s"
    and "config_read E (hist (snd (open_device E (s\<lparr>ArmVersion := arm_version_built\<rparr>)))) buff"
    and "get_conf buff = Some conf"
    and "main_fpga E (set_mode conf s2) = Some s4"
    and "main_serve E C s4 = (Main_runs, s')"
proof -
  obtain r s1 where o: "open_device E (s\<lparr>ArmVersion := arm_version_built\<rparr>) = (r, s1)" by fastforce
  have r: "\<not> r < 0" using assms(1) o by (auto simp: clock_main_def split: if_splits)
  obtain b s2 where b: "main_config E (s1\<lparr>clkid := get_clockid (ptp0_fd s1)\<rparr>) = (b, s2)" by fastforce
  have s2: "clock_para_wf (ClockParameter s2)" "SnmpData s2 = SnmpData_0"
    "masterTOslave s2 = masterTOslave s" "gps_status s2 = gps_status s" "flag_trap s2 = flag_trap s"
    using open_device_core [OF o] main_config_core [OF b] assms(2,3)
    by (simp_all add: same_core_def)
  from assms(1) o r b obtain buff conf s4 where c: "b = Some buff" "get_conf buff = Some conf"
      "main_fpga E (set_mode conf s2) = Some s4" "main_serve E C s4 = (Main_runs, s')"
    by (auto simp: clock_main_def Let_def split: if_splits option.splits)
  have "config_read E (hist (snd (open_device E (s\<lparr>ArmVersion := arm_version_built\<rparr>)))) buff"
    using main_config_read [OF b [unfolded c(1)]] o by simp
  from that [OF s2 this c(2-4)] show ?thesis .
qed

text \<open>The state in which the threads start, over any container.\<close>

definition ready ::
  "('q \<Rightarrow> sn_msg_param list) \<Rightarrow> ('q \<Rightarrow> bool) \<Rightarrow> ('q, 'z) app_st_scheme \<Rightarrow> bool" where
  "ready items wfq s \<longleftrightarrow>
     snmp_inv items wfq s \<and> queue_content items (send_queue s) = [] \<and>
     queue_content items (ack_queue s) = [] \<and> ack_sem s = 0 \<and> sem_full s = 0 \<and>
     sem_mutex s = 1 \<and> trapsignal s = 0 \<and> mach_type s = cur_status s \<and>
     device_mode (ClockParameter s) = ucast (cur_status s) \<and>
     cur_status s \<in> {CLOCK_MASTER, CLOCK_SLAVE, 255} \<and>
     (\<exists>h. hist s = h @ start_events (cur_status s))"

context cstl_queue
begin

lemma main_ready:
  assumes "clock_para_wf (ClockParameter s)" and "SnmpData s = SnmpData_0"
    and "clock_main E C s = Some (Main_runs, s')"
  shows "ready items wfq s'" and "masterTOslave s' = masterTOslave s"
    and "gps_status s' = gps_status s" and "flag_trap s' = flag_trap s"
    and "\<exists>buff. config_read E (hist (snd (open_device E (s\<lparr>ArmVersion := arm_version_built\<rparr>)))) buff \<and>
      mode_of buff (cur_status s')"
proof -
  obtain s2 buff conf s4 where s2: "clock_para_wf (ClockParameter s2)" "SnmpData s2 = SnmpData_0"
    "masterTOslave s2 = masterTOslave s" "gps_status s2 = gps_status s" "flag_trap s2 = flag_trap s"
    and conf: "config_read E (hist (snd (open_device E (s\<lparr>ArmVersion := arm_version_built\<rparr>)))) buff"
      "get_conf buff = Some conf" and s4: "main_fpga E (set_mode conf s2) = Some s4"
    and serve: "main_serve E C s4 = (Main_runs, s')"
    using clock_main_cases [OF assms(3,1,2)] by metis
  have wf3: "clock_para_wf (ClockParameter (set_mode conf s2))"
    using s2 by (simp add: set_mode_def Let_def clock_para_wf_status)
  obtain t1 where "clock_para_wf (ClockParameter t1)"
    "device_mode (ClockParameter t1) = device_mode (ClockParameter (set_mode conf s2))"
    "SnmpData t1 = SnmpData (set_mode conf s2)" "cur_status t1 = cur_status (set_mode conf s2)"
    "mach_type t1 = mach_type (set_mode conf s2)"
    "masterTOslave t1 = masterTOslave (set_mode conf s2)"
    "gps_status t1 = gps_status (set_mode conf s2)" "flag_trap t1 = flag_trap (set_mode conf s2)"
    and t1: "\<exists>v fd fd'. s4 = fpga_write_config E fd' v (snd (fpga_read_config E fd t1))"
    using main_fpga_cases [OF s4 wf3] by metis
  moreover have "same_core t1 s4"
    using t1 same_core_trans [OF fpga_call_core(1,2)] by blast
  ultimately have f4: "clock_para_wf (ClockParameter s4)" "cur_status s4 = word_of_int conf"
    "mach_type s4 = word_of_int conf" "SnmpData s4 = SnmpData_0"
    "device_mode (ClockParameter s4) = ucast (word_of_int conf :: u8)"
    and m4: "masterTOslave s4 = masterTOslave s" "gps_status s4 = gps_status s"
    "flag_trap s4 = flag_trap s"
    using s2 by (simp_all add: same_core_def set_mode_def Let_def)
  obtain s5 where s5: "snmp_init E C s4 = (0, s5)" and s': "main_threads E s5 = (Main_runs, s')"
    using serve by (auto simp: main_serve_def Let_def split: if_splits prod.splits)
  from snmp_init_success [OF s5] obtain h q1 q2 where
    q: "wfq q1" "items q1 = []" "wfq q2" "items q2 = []"
    and s5': "s5 = s4\<lparr>hist := h, send_queue := Some q1, ack_queue := Some q2, ack_sem := 0,
            sem_full := 0, sem_mutex := 1, trapsignal := 0,
            SnmpData := init_SnmpData (SnmpData s4)\<rparr>"
    by metis
  show "ready items wfq s'" "masterTOslave s' = masterTOslave s"
    "gps_status s' = gps_status s" "flag_trap s' = flag_trap s"
    using main_threads_runs [OF s'] f4 m4 q word_of_conf [OF conf(2)]
    by (auto simp: s5' snmp_inv_def queue_ok_def ready_def)
  show "\<exists>buff. config_read E (hist (snd (open_device E (s\<lparr>ArmVersion := arm_version_built\<rparr>)))) buff \<and>
      mode_of buff (cur_status s')"
    using main_threads_runs [OF s'] f4(2) conf(1) get_conf_mode [OF conf(2)] by (auto simp: s5')
qed

end


text \<open>With services that succeed, \<open>main\<close> runs whatever the type in the configuration is.\<close>

lemma start_threads_ok:
  "(\<And>h t. e_thread E h t = 0) \<Longrightarrow> \<exists>s'. start_threads E ts s = (Main_runs, s')"
  by (induction ts arbitrary: s) (simp_all add: sys_thread_def)

lemma main_threads_ok:
  "(\<And>h t. e_thread E h t = 0) \<Longrightarrow> \<exists>s'. main_threads E s = (Main_runs, s')"
  by (simp add: main_threads_def sys_thread_def sys_sleep_def sys_mutex_init_def start_threads_ok)

lemma snmp_init_ok:
  fixes s :: "('q, 'z) snmp_st_scheme"
  assumes "\<And>h k f. 0 \<le> e_msgget E h k f" and "create_queue C = Some q"
  shows "\<exists>s'. snmp_init E C s = (0, s')"
proof -
  have o: "\<exists>i t'. open_or_create E key t = (i, t') \<and> \<not> i < 0"
    for key and t :: "('q, 'z) snmp_st_scheme"
    using assms(1) [of "hist t" key IPC_EXCL]
    by (simp add: open_or_create_def sys_msgget_def)
  obtain i1 s1 where 1: "open_or_create E KEY_ID_SEND (install_handlers s) = (i1, s1)" "\<not> i1 < 0" using o by blast
  obtain i2 s2 where 2: "open_or_create E KEY_ID_RECV s1 = (i2, s2)" "\<not> i2 < 0" using o by blast
  obtain i3 s3 where 3: "open_or_create E KEY_ID_ACK s2 = (i3, s3)" "\<not> i3 < 0" using o by blast
  have c: "SN_Free_Lock_Queue_Create C (Some p) = (0, Some (Some (queue_init C q)))" for p
    using assms(2) by (simp add: SN_Free_Lock_Queue_Create_def)
  show ?thesis unfolding snmp_init_def Let_def 1(1) 2(1) 3(1) c prod.case using 1(2) 2(2) 3(2) by simp
qed

lemma clock_main_runs:
  assumes "open_device E (s\<lparr>ArmVersion := arm_version_built\<rparr>) = (0, s1)"
    and "main_config E (s1\<lparr>clkid := get_clockid (ptp0_fd s1)\<rparr>) = (Some buff, s2)"
    and "get_conf buff = Some conf" and "clock_para_wf (ClockParameter s)"
    and "get_clockid (ptp0_fd s1) \<noteq> - 1"
    and "\<And>h k f. 0 \<le> e_msgget E h k f" and "create_queue C = Some q"
    and "\<And>h t. e_thread E h t = 0"
  shows "\<exists>s'. clock_main E C s = Some (Main_runs, s')"
proof -
  have "clock_para_wf (ClockParameter (set_mode conf s2))"
    using open_device_core [OF assms(1)] main_config_core [OF assms(2)] assms(4)
    by (simp add: same_core_def set_mode_def Let_def clock_para_wf_status)
  then obtain s4 where s4: "main_fpga E (set_mode conf s2) = Some s4" using main_fpga_returns by blast
  obtain s5 where s5: "snmp_init E C s4 = (0, s5)" using snmp_init_ok [OF assms(6,7)] by blast
  obtain s6 where s6: "main_threads E s5 = (Main_runs, s6)" using main_threads_ok [OF assms(8)] by blast
  have "main_serve E C s4 = (Main_runs, s6)" by (simp add: main_serve_def s5 s6 Let_def)
  then show ?thesis by (simp add: clock_main_def assms(1-3,5) s4)
qed

lemma board_runs:
  obtains s' where "clock_main (board_env ''TYPE=X'') list_cstl app_0 = Some (Main_runs, s')"
proof -
  let ?E = "board_env ''TYPE=X''" and ?s = "app_0\<lparr>ArmVersion := arm_version_built\<rparr>"
  let ?b = "''TYPE=X'' @ drop 6 (zeros CFG_FILE_SIZE)"
  have e: "e_open ?E = (\<lambda>h p. 3)" "e_read ?E = (\<lambda>h fd n. Some ''TYPE=X'')"
    "e_msgget ?E = (\<lambda>h k f. 0)" "e_thread ?E = (\<lambda>h n. 0)"
    by (simp_all add: board_env_def reg_env_def idle_env_def)
  obtain s1 where s1: "open_device ?E ?s = (0, s1)"
    by (simp add: open_device_def sys_open_def e Let_def)
  obtain s2 where s2: "main_config ?E (s1\<lparr>clkid := get_clockid (ptp0_fd s1)\<rparr>) = (Some ?b, s2)"
    by (simp add: main_config_def sys_open_def sys_read_def sys_close_def e CFG_FILE_SIZE_def Let_def
        numeral_eq_Suc)
  have conf: "get_conf ?b = Some (-1)"
    using c_strstr_key [of "CHR ''X'' # drop 6 (zeros CFG_FILE_SIZE)"] by (simp add: get_conf_def)
  have c3: "get_clockid (ptp0_fd s1) \<noteq> - 1"
    using s1 by (auto simp: open_device_def sys_open_def e FPGA_disable_def sys_ioctl_def
        sys_usleep_def emit_def get_clockid_def Let_def)
  show ?thesis
    using clock_main_runs [OF s1 s2 conf _ c3, of list_cstl "[]"] that
    by (auto simp: e list_cstl_def app_0_wf)
qed


end
