(* ===== verification/Clock_Sync.thy ===== *)
theory Clock_Sync
  imports Clock_App
begin

text \<open>
  What the PTP thread does to the FPGA: the time it writes into the time registers, and the
  configuration register it writes, reads back and reports, as a slave and as a master.
\<close>

subsection \<open>The years a 32-bit clock can show\<close>

lemma days_before_year_mono: "y \<le> y' \<Longrightarrow> days_before_year y \<le> days_before_year y'"
proof (induction "nat (y' - y)" arbitrary: y')
  case (Suc n)
  then have "days_before_year y \<le> days_before_year (y' - 1)" by simp
  also have "\<dots> \<le> days_before_year y'"
    using days_before_year_step [of "y' - 1"] year_days_bounds(1) [of "y' - 1"] by simp
  finally show ?case .
qed simp

lemma gmtime_year_ge: "days_before_year y0 \<le> t div 86400 \<Longrightarrow> y0 \<le> tm_year (gmtime t) + 1900"
  and gmtime_year_le: "t div 86400 < days_before_year (y1 + 1) \<Longrightarrow> tm_year (gmtime t) + 1900 \<le> y1"
proof -
  obtain y d where y: "find_year 1970 (t div 86400) = (y, d)" by fastforce
  have yr: "tm_year (gmtime t) + 1900 = y" by (simp add: gmtime_def y split: prod.split)
  have "days_before_year 1970 = 0" by (simp add: days_before_year_def)
  with find_year_correct [OF y] days_before_year_step [of y]
  have d: "days_before_year y \<le> t div 86400" "t div 86400 < days_before_year (y + 1)" by linarith+
  show "days_before_year y0 \<le> t div 86400 \<Longrightarrow> y0 \<le> tm_year (gmtime t) + 1900"
    using d(2) days_before_year_mono [of "y + 1" y0] unfolding yr by linarith
  show "t div 86400 < days_before_year (y1 + 1) \<Longrightarrow> tm_year (gmtime t) + 1900 \<le> y1"
    using d(1) days_before_year_mono [of "y1 + 1" y] unfolding yr by linarith
qed

lemma gmtime_year_bounds:
  assumes "978307200 \<le> t" and "t < 2 ^ 31"
  shows "2001 \<le> tm_year (gmtime t) + 1900" and "tm_year (gmtime t) + 1900 \<le> 2038"
proof -
  have "11323 \<le> t div 86400" "t div 86400 \<le> 24855" using assms by auto
  then show "2001 \<le> tm_year (gmtime t) + 1900" "tm_year (gmtime t) + 1900 \<le> 2038"
    using gmtime_year_ge [of 2001 t] gmtime_year_le [of t 2038]
    by (simp_all add: days_before_year_def)
qed

text \<open>Reading the six registers back: the year counts from 2000.\<close>

definition registers_time :: "u32 list \<Rightarrow> int" where
  "registers_time r =
     timegm \<lparr>tm_sec = uint (r ! 5), tm_min = uint (r ! 4), tm_hour = uint (r ! 3),
             tm_mday = uint (r ! 2), tm_mon = uint (r ! 1) - 1, tm_year = uint (r ! 0) + 100\<rparr>"

lemma uint_of_small: "0 \<le> i \<Longrightarrow> i < 2 ^ 32 \<Longrightarrow> uint (word_of_int i :: u32) = i"
  by (simp add: uint_word_of_int)

lemma month_days_bound: "0 \<le> m \<Longrightarrow> m < 12 \<Longrightarrow> month_days y ! nat m \<le> 31"
proof -
  assume "0 \<le> m" "m < 12"
  moreover have "length (month_days y) = 12" by (simp add: month_days_def)
  ultimately have "month_days y ! nat m \<in> set (month_days y)" by (intro nth_mem) simp
  then show ?thesis by (auto simp: month_days_def split: if_splits)
qed

lemma registers_time_fields:
  assumes "978307200 \<le> t" and "t < 2 ^ 31"
  shows "registers_time (time_fields (gmtime t)) = t"
proof -
  let ?b = "gmtime t"
  note Y = gmtime_year_bounds [OF assms]
  have ok: "tm_ok ?b" by (rule gmtime_ok)
  then have "tm_mday ?b \<le> month_days (tm_year ?b + 1900) ! nat (tm_mon ?b)"
    "month_days (tm_year ?b + 1900) ! nat (tm_mon ?b) \<le> 31"
    by (simp_all add: tm_ok_def month_days_bound)
  then have "tm_mday ?b \<le> 31" by simp
  with ok Y have "registers_time (time_fields ?b) = timegm ?b"
    by (cases ?b) (simp add: registers_time_def time_fields_def Let_def uint_of_small tm_ok_def
        del: of_int_add of_int_diff)
  then show ?thesis by (simp add: timegm_gmtime)
qed

subsection \<open>The shell commands of a history\<close>

text \<open>Only the calls of \<open>system\<close>, in order.\<close>

fun commands :: "history \<Rightarrow> string list" where
  "commands [] = []"
| "commands (Ev_system c # h) = c # commands h"
| "commands (_ # h) = commands h"

lemma commands_append [simp]: "commands (g @ h) = commands g @ commands h"
  by (induction g rule: commands.induct) auto

text \<open>A call that reads or writes one register changes the history and the message only.\<close>

lemma write_ptp_times_result:
  assumes "\<forall>i \<in> set is. i < length buff"
  shows "\<exists>h m. write_ptp_times E buff is s = Some (s\<lparr>hist := h, fpga_msg := m\<rparr>) \<and>
     emifa_writes h = emifa_writes (hist s) @ map (\<lambda>i. (ADDR_PTP_TIME + of_nat i, buff ! i)) is \<and>
     commands h = commands (hist s)"
  using assms
proof (induction "is" arbitrary: s)
  case Nil
  then show ?case by (auto intro!: exI [of _ "hist s"] exI [of _ "fpga_msg s"])
next
  case (Cons i "is")
  let ?c = "write_code (ADDR_PTP_TIME + of_nat i) (buff ! i)"
  obtain h m where hm: "exec_stmts E (emifa_fd s) ?c s = s\<lparr>hist := h, fpga_msg := m\<rparr>"
    by (rule exec_stmts_frame)
  then have h: "emifa_writes h = emifa_writes (hist s) @ [(ADDR_PTP_TIME + of_nat i, buff ! i)]"
    "commands h = commands (hist s)"
    using hist_write_code [of E "emifa_fd s" "ADDR_PTP_TIME + of_nat i" "buff ! i" s] by simp_all
  obtain h' m' where "write_ptp_times E buff is (s\<lparr>hist := h, fpga_msg := m\<rparr>) =
        Some (s\<lparr>hist := h', fpga_msg := m'\<rparr>)"
    "emifa_writes h' = emifa_writes h @ map (\<lambda>i. (ADDR_PTP_TIME + of_nat i, buff ! i)) is"
    "commands h' = commands h"
    using Cons.IH [of "s\<lparr>hist := h, fpga_msg := m\<rparr>"] Cons.prems by auto
  with hm h Cons.prems show ?case
    by (intro exI [of _ h'] exI [of _ m']) (simp add: fpga_write_ptp_time_def)
qed

lemma read_fpga_times_result:
  "\<exists>b h m. read_fpga_times E buff is s = (b, s\<lparr>hist := h, fpga_msg := m\<rparr>) \<and>
     length b = length buff \<and> emifa_writes h = emifa_writes (hist s) \<and>
     commands h = commands (hist s)"
proof (induction "is" arbitrary: s buff)
  case Nil
  then show ?case by (auto intro!: exI [of _ "hist s"] exI [of _ "fpga_msg s"])
next
  case (Cons i "is")
  let ?c = "read_code (ADDR_FPGA_TIME + of_nat i)"
  obtain h m where hm: "exec_stmts E (emifa_fd s) ?c s = s\<lparr>hist := h, fpga_msg := m\<rparr>"
    by (rule exec_stmts_frame)
  then have h: "emifa_writes h = emifa_writes (hist s)" "commands h = commands (hist s)"
    using hist_read_code [of E "emifa_fd s" "ADDR_FPGA_TIME + of_nat i" s] by simp_all
  obtain b h' m' where "read_fpga_times E (buff[i := rx_val m]) is (s\<lparr>hist := h, fpga_msg := m\<rparr>) =
        (b, s\<lparr>hist := h', fpga_msg := m'\<rparr>)" "length b = length buff"
    "emifa_writes h' = emifa_writes h" "commands h' = commands h"
    using Cons.IH [of "buff[i := rx_val m]" "s\<lparr>hist := h, fpga_msg := m\<rparr>"] by auto
  with hm h show ?case
    by (intro exI [of _ b] exI [of _ h'] exI [of _ m']) (simp add: fpga_read_fpga_time_def return_rx_def)
qed

text \<open>The call always returns, and touches nothing else than the flag of the daily correction.\<close>

lemma send_system_time_result:
  assumes "sec = (case e_clock_gettime E (hist s) (clkid s) of
      None \<Rightarrow> sint (e_garbage E (hist s) 0) | Some (sec, _) \<Rightarrow> sec)"
  shows "\<exists>h m w. send_system_time E s = Some (s\<lparr>hist := h, fpga_msg := m, wait_ptp_flag := w\<rparr>) \<and>
     (w = wait_ptp_flag s \<or> w = 1) \<and>
     emifa_writes h = emifa_writes (hist s) @
       map (\<lambda>i. (ADDR_PTP_TIME + of_nat i, time_fields (gmtime sec) ! i)) [0..<6] \<and>
     commands h = commands (hist s)"
proof -
  let ?s = "s\<lparr>hist := hist s @ [Ev_clock_gettime (clkid s)]\<rparr>"
  let ?f = "time_fields (gmtime sec)"
  have "\<forall>i \<in> set [0..<6]. i < length ?f" by (simp add: time_fields_def Let_def)
  from write_ptp_times_result [OF this, of E ?s] obtain h m where
    w: "write_ptp_times E ?f [0..<6] ?s = Some (s\<lparr>hist := h, fpga_msg := m\<rparr>)"
    "emifa_writes h = emifa_writes (hist s) @ map (\<lambda>i. (ADDR_PTP_TIME + of_nat i, ?f ! i)) [0..<6]"
    "commands h = commands (hist s)"
    by auto
  obtain b h' m' where r: "read_fpga_times E ?f [0..<6] (s\<lparr>hist := h, fpga_msg := m\<rparr>) =
      (b, s\<lparr>hist := h', fpga_msg := m'\<rparr>)" "emifa_writes h' = emifa_writes h"
    "commands h' = commands h"
    using read_fpga_times_result [of E ?f "[0..<6]" "s\<lparr>hist := h, fpga_msg := m\<rparr>"] by auto
  have "send_system_time E s = Some (if b ! 3 = 9 \<and> b ! 4 = 0 \<and> b ! 5 = 0
      then s\<lparr>hist := h', fpga_msg := m', wait_ptp_flag := 1\<rparr> else s\<lparr>hist := h', fpga_msg := m'\<rparr>)"
    using w(1) r(1) assms
    by (simp add: send_system_time_def sys_clock_gettime_def emit_def Let_def del: upt_rec_numeral)
  then show ?thesis using w(2,3) r(2,3)
    by (intro exI [of _ h'] exI [of _ m']
        exI [of _ "if b ! 3 = 9 \<and> b ! 4 = 0 \<and> b ! 5 = 0 then 1 else wait_ptp_flag s"]) simp
qed

subsection \<open>Properties of the time registers\<close>

text \<open>
  C19. From 2001 to the end of a 32-bit \<open>time_t\<close>: \<open>send_system_time\<close> returns and its register
  writes are exactly the six time registers 0x0A to 0x0F in order, with values from which the
  seconds of the hardware clock are read back. The parameter block is not touched.
\<close>

theorem send_system_time_writes_clock:
  assumes "e_clock_gettime E (hist s) (clkid s) = Some (sec, nsec)"
    and "978307200 \<le> sec" and "sec < 2 ^ 31"
  shows "\<exists>s' r. send_system_time E s = Some s' \<and>
     emifa_writes (hist s') = emifa_writes (hist s) @ zip [0x0A, 0x0B, 0x0C, 0x0D, 0x0E, 0x0F] r \<and>
     length r = 6 \<and> registers_time r = sec \<and> ClockParameter s' = ClockParameter s"
proof -
  let ?r = "time_fields (gmtime sec)"
  obtain h m w where s': "send_system_time E s = Some (s\<lparr>hist := h, fpga_msg := m, wait_ptp_flag := w\<rparr>)"
    and h: "emifa_writes h = emifa_writes (hist s) @
       map (\<lambda>i. (ADDR_PTP_TIME + of_nat i, ?r ! i)) [0..<6]"
    using send_system_time_result [of sec E s] assms(1) by auto
  obtain y mo d hr mi se where r: "?r = [y, mo, d, hr, mi, se]"
    by (simp add: time_fields_def Let_def)
  have six: "[0..<6] = [0, 1, 2, 3, 4, 5 :: nat]" by (simp add: upt_rec)
  have "map (\<lambda>i. (ADDR_PTP_TIME + of_nat i, ?r ! i)) [0..<6] =
      zip [0x0A, 0x0B, 0x0C, 0x0D, 0x0E, 0x0F] ?r"
    unfolding r six by (simp add: ADDR_PTP_TIME_def)
  then show ?thesis
    using s' h r registers_time_fields [OF assms(2,3)]
    by (intro exI [of _ "s\<lparr>hist := h, fpga_msg := m, wait_ptp_flag := w\<rparr>"] exI [of _ ?r]) simp
qed

text \<open>A hardware clock that shows a given second.\<close>

definition clock_env :: "int \<Rightarrow> env" where
  "clock_env sec = (reg_env (\<lambda>a. 0))\<lparr>e_clock_gettime := \<lambda>h c. Some (sec, 0)\<rparr>"

definition clock_st :: "sn_msg_param list app_st" where
  "clock_st =
     \<lparr>hist = [], fpga_msg = \<lparr>addr = 0, tx_val = 0, rx_val = 0\<rparr>, ArmVersion = arm_version_built,
      ClockParameter = clock_para_0, send_queue = Some [], ack_queue = Some [], ack_sem = 0,
      sem_full = 0, sem_mutex = 1, trapsignal = 0, flag_trap = False,
      SnmpData = init_SnmpData SnmpData_0,
      led_fd = 3, emifa_fd = 4, trigger_fd = 5, ptp0_fd = 6, conf_fd = 7, net_fd = 0,
      clkid = get_clockid 6, gps_status = GPS_CONNECT, mach_type = CLOCK_MASTER,
      cur_status = CLOCK_MASTER, masterTOslave = 0, wait_ptp_flag = 0\<rparr>"

theorem send_system_time_writes_clock_witness:
  "\<exists>s' r. send_system_time (clock_env 1524787200) clock_st = Some s' \<and>
     emifa_writes (hist s') = zip [0x0A, 0x0B, 0x0C, 0x0D, 0x0E, 0x0F] r \<and>
     registers_time r = 1524787200"
  using send_system_time_writes_clock [of "clock_env 1524787200" clock_st 1524787200 0]
  by (auto simp: clock_env_def clock_st_def)

text \<open>
  In the year 2000 the year register gets 100 instead of 0: the two-digit year is only used
  when it is positive, and the years since 1900 otherwise.
\<close>

theorem year_2000_written_as_100:
  assumes "946684800 \<le> t" and "t < 978307200"
  shows "time_fields (gmtime t) ! 0 = 100"
proof -
  have "10957 \<le> t div 86400" "t div 86400 < 11323" using assms by auto
  then have "tm_year (gmtime t) = 100"
    using gmtime_year_ge [of 2000 t] gmtime_year_le [of t 2000]
    by (simp add: days_before_year_def)
  then show ?thesis by (simp add: time_fields_def Let_def)
qed

theorem year_2000_written_as_100_witness: "time_fields (gmtime 951782400) ! 0 = 100"
  by (rule year_2000_written_as_100) simp_all

subsection \<open>Properties of the configuration register\<close>

lemma config_bit_masks:
  "bit (PTP_VALID :: u32) n \<longleftrightarrow> n = 13" "bit (CLK_GPS :: u32) n \<longleftrightarrow> n = 14"
  "bit (CLK_PTP :: u32) n \<longleftrightarrow> n = 14 \<or> n = 15"
  "bit (OMAP_RUN_LED :: u32) n \<longleftrightarrow> n < 16 \<and> n \<noteq> 12"
proof -
  show "bit (PTP_VALID :: u32) n \<longleftrightarrow> n = 13"
    using bit_exp_iff [of 13 n, where 'a = u32]
    by (auto simp: PTP_VALID_def simp del: bit_numeral_word_iff)
  show "bit (CLK_GPS :: u32) n \<longleftrightarrow> n = 14"
    using bit_exp_iff [of 14 n, where 'a = u32]
    by (auto simp: CLK_GPS_def simp del: bit_numeral_word_iff)
  have ptp: "CLK_PTP = 2 ^ 14 OR (2 ^ 15 :: u32)" by (simp add: CLK_PTP_def)
  show "bit (CLK_PTP :: u32) n \<longleftrightarrow> n = 14 \<or> n = 15"
    by (simp only: ptp bit_or_iff bit_exp_iff) auto
  have led: "OMAP_RUN_LED = mask 16 AND NOT (2 ^ 12 :: u32)" by (simp add: OMAP_RUN_LED_def mask_numeral)
  show "bit (OMAP_RUN_LED :: u32) n \<longleftrightarrow> n < 16 \<and> n \<noteq> 12"
    by (simp only: led bit_and_iff bit_not_iff bit_mask_iff bit_exp_iff) auto
qed

text \<open>What the traps say after a configuration has been reported.\<close>

lemma reported_config:
  "reported (p\<lparr>clock_source := c AND 0xc000, ptp_lockstate := c AND 0x2000, arm_runstate := c AND 0x1000\<rparr>)
     CDD_CLK_SOURCE_TRAP =
   (if bit c 15 then (if bit c 14 then ''PTPClock'' else ''RS422Clock'')
    else (if bit c 14 then ''GPSClock'' else ''AutoClock''))"
  "reported (p\<lparr>clock_source := c AND 0x4000, ptp_lockstate := c AND 0x2000, arm_runstate := c AND 0x1000\<rparr>)
     CDD_CLK_SOURCE_TRAP = (if bit c 14 then ''GPSClock'' else ''AutoClock'')"
  "reported (p\<lparr>clock_source := x, ptp_lockstate := c AND 0x2000, arm_runstate := c AND 0x1000\<rparr>)
     CDD_PTP_LOCK_TRAP = (if bit c 13 then ''Lock'' else ''UnLock'')"
  "reported (p\<lparr>clock_source := x, ptp_lockstate := c AND 0x2000, arm_runstate := c AND 0x1000\<rparr>)
     CDD_OMAP_RUN_TRAP = (if bit c 12 then ''Stop'' else ''Run'')"
proof -
  have "bit (0xc000 :: u32) 14" "bit (0xc000 :: u32) 15" "bit (0x4000 :: u32) 14"
    "\<not> bit (0x4000 :: u32) 15" "bit (0x2000 :: u32) 13" "bit (0x1000 :: u32) 12"
    by simp_all
  then show
    "reported (p\<lparr>clock_source := c AND 0xc000, ptp_lockstate := c AND 0x2000, arm_runstate := c AND 0x1000\<rparr>)
     CDD_CLK_SOURCE_TRAP =
     (if bit c 15 then (if bit c 14 then ''PTPClock'' else ''RS422Clock'')
      else (if bit c 14 then ''GPSClock'' else ''AutoClock''))"
    "reported (p\<lparr>clock_source := c AND 0x4000, ptp_lockstate := c AND 0x2000, arm_runstate := c AND 0x1000\<rparr>)
     CDD_CLK_SOURCE_TRAP = (if bit c 14 then ''GPSClock'' else ''AutoClock'')"
    "reported (p\<lparr>clock_source := x, ptp_lockstate := c AND 0x2000, arm_runstate := c AND 0x1000\<rparr>)
     CDD_PTP_LOCK_TRAP = (if bit c 13 then ''Lock'' else ''UnLock'')"
    "reported (p\<lparr>clock_source := x, ptp_lockstate := c AND 0x2000, arm_runstate := c AND 0x1000\<rparr>)
     CDD_OMAP_RUN_TRAP = (if bit c 12 then ''Stop'' else ''Run'')"
    by (simp_all add: reported_def bit_and_iff trap_code_defs del: bit_numeral_word_iff)
qed

text \<open>Sending the time and switching the light do not touch the parameters.\<close>

lemma send_system_time_para:
  "\<exists>s'. send_system_time E s = Some s' \<and> ClockParameter s' = ClockParameter s"
  using send_system_time_result [OF refl, of E s] by force

lemma led_ctl_para [simp]: "ClockParameter (led_ctl l s) = ClockParameter s"
  by (simp add: led_ctl_def sys_ioctl_def emit_def)

lemma reported_send:
  assumes "send_system_time E s = Some s'"
  shows "ClockParameter s' = ClockParameter s"
  using send_system_time_para [of E s] assms by auto

context emifa_device
begin

text \<open>Writing the configuration and reading it back through the code's two functions.\<close>

lemma write_read_config:
  obtains s' where "fpga_read_config E fd' (fpga_write_config E fd v s) = (v, s')"
    and "s' = snd (fpga_read_config E fd' (fpga_write_config E fd v s))"
  using rx_read_config [of fd' "fpga_write_config E fd v s"] config_after_write [of fd v s]
  by (metis prod.collapse)

lemma slave_linked_reports:
  assumes "ts_sec l = tv_sec l"
  shows "\<exists>l' s'. slave_linked E l s = Some (l', s') \<and>
     fpga_config l' = (fpga_status l OR CLK_PTP) AND OMAP_RUN_LED \<and>
     (\<exists>p. ClockParameter s' = p\<lparr>clock_source := fpga_config l' AND 0xc000,
        ptp_lockstate := fpga_config l' AND 0x2000, arm_runstate := fpga_config l' AND 0x1000\<rparr>)"
proof -
  let ?v = "(fpga_status l OR CLK_PTP) AND OMAP_RUN_LED"
  define s1 where "s1 = sys_system ''./ptp/testptp -S'' s"
  define s2 where "s2 = fpga_write_config E (emifa_fd s1) ?v s1"
  obtain s3 where s3: "fpga_read_config E (emifa_fd s2) s2 = (?v, s3)"
    using write_read_config [of "emifa_fd s2" "emifa_fd s1" ?v s1] by (auto simp: s2_def)
  obtain s4 where s4: "send_system_time E (report_config 0xc000 ?v s3) = Some s4"
    "ClockParameter s4 = ClockParameter (report_config 0xc000 ?v s3)"
    using send_system_time_para by blast
  have "\<exists>l' s'. slave_linked E l s = Some (l', s') \<and> fpga_config l' = ?v \<and>
      ClockParameter s' = ClockParameter s4"
    using assms s3 s4(1)
    by (simp add: slave_linked_def Let_def s1_def s2_def sys_system_def emit_def)
  then show ?thesis using s4(2) by (force simp: report_config_def)
qed

lemma read_config_at:
  "fpga_read_config E fd s = (config_reg (hist s), snd (fpga_read_config E fd s))"
  by (simp add: prod_eq_iff rx_read_config)

text \<open>The master's report comes from a value it has just read only when the two clocks agree.\<close>

lemma master_linked_reports:
  assumes "ts_sec l = tv_sec l"
  shows "\<exists>l' s'. master_linked E l s = Some (l', s') \<and>
     fpga_config l' = (fpga_status l OR CLK_GPS) AND OMAP_RUN_LED \<and>
     (\<exists>p. ClockParameter s' = p\<lparr>clock_source := fpga_config l' AND 0x4000,
        ptp_lockstate := fpga_config l' AND 0x2000, arm_runstate := fpga_config l' AND 0x1000\<rparr>)"
proof -
  let ?v = "(fpga_status l OR CLK_GPS) AND OMAP_RUN_LED"
  obtain l1 s1 where m: "master_timer E l s = (l1, s1)" by fastforce
  then have l1: "ts_sec l1 = ts_sec l" "tv_sec l1 = tv_sec l" "fpga_status l1 = fpga_status l"
    by (auto simp: master_timer_def Let_def split: if_splits prod.splits)
  define s2 where "s2 = fpga_write_config E (emifa_fd s1) ?v s1"
  obtain s3 where s3: "fpga_read_config E (emifa_fd s2) s2 = (?v, s3)"
    using write_read_config [of "emifa_fd s2" "emifa_fd s1" ?v s1] by (auto simp: s2_def)
  obtain s4 where s4: "send_system_time E (report_config 0x4000 ?v s3) = Some s4"
    "ClockParameter s4 = ClockParameter (report_config 0x4000 ?v s3)"
    using send_system_time_para by blast
  have "\<exists>l' s'. master_linked E l s = Some (l', s') \<and> fpga_config l' = ?v \<and>
      ClockParameter s' = ClockParameter s4"
    using assms s3 s4(1) m l1
    by (simp add: master_linked_def Let_def s2_def sys_system_def emit_def)
  then show ?thesis using s4(2) by (force simp: report_config_def)
qed

end

text \<open>
  C30. A slave with a link whose two clocks agree: the configuration it wrote is read back,
  selects PTP, has the valid bit and not the stop bit, and the traps then say so: clock
  source \<open>PTPClock\<close>, PTP \<open>Lock\<close>, program \<open>Run\<close>.
\<close>

theorem slave_reports_ptp:
  assumes "emifa_device E creg" and "cur_status s = CLOCK_SLAVE" and "buffnet l = 49"
    and "ts_sec l = tv_sec l"
  shows "\<exists>l' s'. ptp_event E l s = Some (l', s') \<and>
     fpga_config l' = (creg (hist s) OR PTP_VALID OR CLK_PTP) AND OMAP_RUN_LED \<and>
     reported (ClockParameter s') CDD_CLK_SOURCE_TRAP = ''PTPClock'' \<and>
     reported (ClockParameter s') CDD_PTP_LOCK_TRAP = ''Lock'' \<and>
     reported (ClockParameter s') CDD_OMAP_RUN_TRAP = ''Run''"
proof -
  let ?l = "l\<lparr>ptp_num := ptp_num l + 1, fpga_status := creg (hist s) OR PTP_VALID\<rparr>"
  let ?s = "snd (fpga_read_config E (emifa_fd s) s)"
  note rd = emifa_device.read_config_at [OF assms(1), of "emifa_fd s" s]
  have "cur_status ?s = cur_status s"
    by (simp add: fpga_fun_defs emifa_ioctl_def emit_def)
  then have "ptp_event E l s = slave_linked E ?l ?s"
    using assms(2,3) by (subst ptp_event_def, subst rd) (simp add: Let_def)
  moreover obtain l' s' p where r: "slave_linked E ?l ?s = Some (l', s')"
    "fpga_config l' = (creg (hist s) OR PTP_VALID OR CLK_PTP) AND OMAP_RUN_LED"
    "ClockParameter s' = p\<lparr>clock_source := fpga_config l' AND 0xc000,
        ptp_lockstate := fpga_config l' AND 0x2000, arm_runstate := fpga_config l' AND 0x1000\<rparr>"
    using emifa_device.slave_linked_reports [OF assms(1), of ?l ?s] assms(4)
    by (auto simp: or.assoc)
  ultimately show ?thesis
    by (intro exI [of _ l'] exI [of _ s'])
       (simp add: reported_config bit_and_iff bit_or_iff config_bit_masks)
qed

theorem slave_reports_ptp_witness:
  "\<exists>l' s'. ptp_event (reg_env (\<lambda>a. 0)) \<lparr>ptp_val = 1, fpga_status = 0, buffnet = 49, ts_sec = 0,
       tv_sec = 0, ptp_num = 0, fpga_config = 0, net_flag = 0, net_count = 0\<rparr>
       (clock_st\<lparr>cur_status := CLOCK_SLAVE\<rparr>) = Some (l', s') \<and>
     fpga_config l' = 0xe000 \<and> reported (ClockParameter s') CDD_CLK_SOURCE_TRAP = ''PTPClock''"
proof -
  have "(last_written ADDR_CONFIG 0 [] OR PTP_VALID OR CLK_PTP) AND OMAP_RUN_LED = 0xe000"
    by (simp add: config_bits)
  then show ?thesis
    using slave_reports_ptp [OF regs.emifa_device_axioms [of "\<lambda>a. 0"],
        of "clock_st\<lparr>cur_status := CLOCK_SLAVE\<rparr>"
           "\<lparr>ptp_val = 1, fpga_status = 0, buffnet = 49, ts_sec = 0, tv_sec = 0, ptp_num = 0,
             fpga_config = 0, net_flag = 0, net_count = 0\<rparr>"]
    by (force simp: clock_st_def)
qed

text \<open>
  C31. A master with a link whose two clocks agree reports \<open>GPSClock\<close>, \<open>Lock\<close> and \<open>Run\<close>, but it
  only ever adds the GPS bit: bit 15 of the configuration, which together with it selects
  PTP, stays as it was, so the reported source can differ from the selected one.
\<close>

theorem master_reports_gps:
  assumes "emifa_device E creg" and "cur_status s = CLOCK_MASTER" and "buffnet l = 49"
    and "ts_sec l = tv_sec l"
  shows "\<exists>l' s'. ptp_event E l s = Some (l', s') \<and>
     fpga_config l' = (creg (hist s) OR PTP_VALID OR CLK_GPS) AND OMAP_RUN_LED \<and>
     bit (fpga_config l') 15 = bit (creg (hist s)) 15 \<and>
     reported (ClockParameter s') CDD_CLK_SOURCE_TRAP = ''GPSClock'' \<and>
     reported (ClockParameter s') CDD_PTP_LOCK_TRAP = ''Lock'' \<and>
     reported (ClockParameter s') CDD_OMAP_RUN_TRAP = ''Run''"
proof -
  let ?l = "l\<lparr>ptp_num := ptp_num l + 1, fpga_status := creg (hist s) OR PTP_VALID\<rparr>"
  let ?s = "snd (fpga_read_config E (emifa_fd s) s)"
  note rd = emifa_device.read_config_at [OF assms(1), of "emifa_fd s" s]
  have "cur_status ?s = cur_status s"
    by (simp add: fpga_fun_defs emifa_ioctl_def emit_def)
  then have "ptp_event E l s = master_linked E ?l ?s"
    using assms(2,3) by (subst ptp_event_def, subst rd) (simp add: Let_def mode_defs)
  moreover obtain l' s' p where r: "master_linked E ?l ?s = Some (l', s')"
    "fpga_config l' = (creg (hist s) OR PTP_VALID OR CLK_GPS) AND OMAP_RUN_LED"
    "ClockParameter s' = p\<lparr>clock_source := fpga_config l' AND 0x4000,
        ptp_lockstate := fpga_config l' AND 0x2000, arm_runstate := fpga_config l' AND 0x1000\<rparr>"
    using emifa_device.master_linked_reports [OF assms(1), of ?l ?s] assms(4)
    by (auto simp: or.assoc)
  ultimately show ?thesis
    by (intro exI [of _ l'] exI [of _ s'])
       (simp add: reported_config bit_and_iff bit_or_iff config_bit_masks)
qed

theorem master_reports_gps_witness:
  "\<exists>l' s'. ptp_event (reg_env (\<lambda>a. 0xc000)) \<lparr>ptp_val = 1, fpga_status = 0, buffnet = 49, ts_sec = 0,
       tv_sec = 0, ptp_num = 0, fpga_config = 0, net_flag = 0, net_count = 0\<rparr> clock_st
       = Some (l', s') \<and>
     fpga_config l' = 0xe000 \<and> reported (ClockParameter s') CDD_CLK_SOURCE_TRAP = ''GPSClock''"
proof -
  have "(last_written ADDR_CONFIG 0xc000 [] OR PTP_VALID OR CLK_GPS) AND OMAP_RUN_LED = 0xe000"
    by (simp add: config_bits)
  then show ?thesis
    using master_reports_gps [OF regs.emifa_device_axioms [of "\<lambda>a. 0xc000"], of clock_st
           "\<lparr>ptp_val = 1, fpga_status = 0, buffnet = 49, ts_sec = 0, tv_sec = 0, ptp_num = 0,
             fpga_config = 0, net_flag = 0, net_count = 0\<rparr>"]
    by (force simp: clock_st_def)
qed

end
