(* ===== verification/Clock_Turns.thy ===== *)
theory Clock_Turns
  imports Clock_Sync
begin

text \<open>
  What a turn of the GPS thread and a turn of the PTP thread leave alone: the queues and
  semaphores of the management side, the form of the parameter block, and the mode up to the
  switch at the end of the turn; and that a turn of the PTP thread is always defined as long as
  the strings of \<open>ctime\<close> fit their fields.
\<close>

text \<open>The variables the two threads decide the mode with. Only the end of a turn changes the mode.\<close>

definition modes :: "('q, 'z) app_st_scheme \<Rightarrow> u8 \<times> u8 \<times> u8 \<times> u8" where
  "modes s = (mach_type s, cur_status s, masterTOslave s, gps_status s)"

text \<open>
  The part of the state that belongs to the management side, whether the parameter block is
  well-formed, and all of it together.
\<close>

definition mgmt where
  "mgmt s = (send_queue s, ack_queue s, ack_sem s, sem_full s, sem_mutex s, trapsignal s,
     flag_trap s, SnmpData s)"

definition para_ok :: "('q, 'z) app_st_scheme \<Rightarrow> bool" where
  "para_ok s \<longleftrightarrow> clock_para_wf (ClockParameter s)"

definition own where
  "own s = (para_ok s, mgmt s, modes s)"

lemmas own_defs = own_def para_ok_def mgmt_def modes_def

lemma own_emit [simp]: "own (emit e s) = own s"
  by (simp add: own_defs emit_def)

lemma own_hist [simp]: "own (s\<lparr>hist := h\<rparr>) = own s"
  by (simp add: own_defs)

lemma own_fpga [simp]:
  "own (snd (fpga_read_config E fd s)) = own s" "own (fpga_write_config E fd v s) = own s"
  "own (snd (fpga_read_work_status E fd s)) = own s"
  "own (snd (fpga_read_logic_status E fd s)) = own s"
  by (simp_all add: fpga_fun_defs emifa_ioctl_def emit_def own_defs)

lemma own_sys [simp]:
  "own (sys_system c s) = own s" "own (led_ctl v s) = own s" "own (sys_sleep n s) = own s"
  "own (sys_close fd s) = own s"
  by (simp_all add: sys_system_def led_ctl_def sys_ioctl_def sys_sleep_def sys_close_def)

lemma own_updates [simp]:
  "own (s\<lparr>net_fd := fd\<rparr>) = own s" "own (s\<lparr>wait_ptp_flag := w\<rparr>) = own s"
  "own (report_config bits c s) = own s"
  "own (s\<lparr>ClockParameter := (ClockParameter s)\<lparr>device_fpgastate := w'\<rparr>\<rparr>) = own s"
  "own (s\<lparr>ClockParameter := (ClockParameter s)\<lparr>net_connectstate := b\<rparr>\<rparr>) = own s"
  "own (s\<lparr>ClockParameter := (ClockParameter s)\<lparr>gps_lockstate := w'\<rparr>\<rparr>) = own s"
  by (simp_all add: own_defs report_config_def clock_para_wf_status)

lemma own_read_config: "fpga_read_config E fd s = (c, t) \<Longrightarrow> own t = own s"
  and own_read_work: "fpga_read_work_status E fd s = (c, t) \<Longrightarrow> own t = own s"
  and own_read_logic: "fpga_read_logic_status E fd s = (c, t) \<Longrightarrow> own t = own s"
  using own_fpga(1,3,4) [of E fd s] by simp_all

lemma own_send_system_time: "send_system_time E s = Some t \<Longrightarrow> own t = own s"
  using send_system_time_result [OF refl, of E s] by (auto simp: own_defs)

lemma own_master_timer: "master_timer E l s = (l', t) \<Longrightarrow> own t = own s"
  by (auto simp: master_timer_def Let_def split: if_splits prod.splits dest!: own_read_config)

lemma own_slave_linked: "slave_linked E l s = Some (l', t) \<Longrightarrow> own t = own s"
  by (auto simp: slave_linked_def Let_def split: if_splits prod.splits option.splits
      dest!: own_read_config own_send_system_time)

lemma own_slave_unlinked: "slave_unlinked E l s = (l', t) \<Longrightarrow> own t = own s"
  by (auto simp: slave_unlinked_def Let_def split: prod.splits dest!: own_read_config)

lemma own_master_linked: "master_linked E l s = Some (l', t) \<Longrightarrow> own t = own s"
  by (auto simp: master_linked_def Let_def split: if_splits prod.splits option.splits
      dest!: own_read_config own_send_system_time own_master_timer)

lemma own_ptp_event: "ptp_event E l s = Some (l', t) \<Longrightarrow> own t = own s"
  by (auto simp: ptp_event_def Let_def split: if_splits prod.splits
      dest!: own_read_config own_slave_linked own_slave_unlinked own_master_linked)

lemma own_read_status: "own (read_status E s) = own s"
  by (auto simp: read_status_def dest: own_read_work split: prod.split)

lemma read_clocks_result:
  assumes "\<And>h t. length (e_ctime E h t) < PARAM_LEN" and "para_ok s"
  shows "\<exists>l' t. read_clocks E l s = Some (l', t)"
proof -
  have fits: "\<exists>b. store_ctime E n (ptp_time (ClockParameter s)) u = Some b"
    "\<exists>b. store_ctime E n (gps_time (ClockParameter s)) u = Some b"
    for n and u :: "('a, 'b) app_st_scheme"
    using assms(1) [of "hist u" n] assms(2)
    by (simp_all add: store_ctime_def c_store_def para_ok_def clock_para_wf_def param_string_def)
  show ?thesis
    using fits
    by (auto simp: read_clocks_def sys_clock_gettime_def sys_gettimeofday_def Let_def emit_def
        split: option.splits prod.splits)
qed

lemma own_read_clocks:
  assumes "read_clocks E l s = Some (l', t)"
  shows "snd (own t) = snd (own s)" and "para_ok s \<Longrightarrow> para_ok t"
  using assms
  by (auto simp: read_clocks_def sys_clock_gettime_def sys_gettimeofday_def Let_def own_defs
      emit_def store_ctime_def clock_para_wf_def split: option.splits prod.splits
      dest: param_string_store)

lemma own_read_carrier: "read_carrier E l s = Next (l', t) \<Longrightarrow> own t = own s"
  by (auto simp: read_carrier_def sys_open_def sys_read_def Let_def split: if_splits)

lemma own_read_trigger: "read_trigger E l s = Next (l', t) \<Longrightarrow> own t = own s"
  by (auto simp: read_trigger_def sys_read_def Let_def split: option.splits)

text \<open>The mode at the end of a turn, from the variables at its start.\<close>

definition next_mode :: "u8 \<times> u8 \<times> u8 \<times> u8 \<Rightarrow> u8" where
  "next_mode = (\<lambda>(mach, cur, mts, gps).
     if cur = CLOCK_MASTER then (if gps = GPS_UNCONNECT then CLOCK_SLAVE else CLOCK_MASTER)
     else if cur = CLOCK_SLAVE \<and> mach = CLOCK_MASTER \<and> gps = GPS_CONNECT \<and> mts = 0
     then CLOCK_MASTER else cur)"

lemma own_mode_switch:
  assumes "mode_switch E l s = (l', t)"
  shows "own t = (para_ok s, mgmt s, mach_type s, next_mode (modes s), masterTOslave s, gps_status s)"
proof -
  have [simp]: "own (u\<lparr>cur_status := c\<rparr>) = (para_ok u, mgmt u, mach_type u, c, masterTOslave u, gps_status u)"
    for u :: "('a, 'b) app_st_scheme" and c by (simp add: own_defs)
  show ?thesis
    using assms
    by (auto simp: mode_switch_def Let_def next_mode_def mode_defs modes_def
        split: if_splits prod.splits dest!: own_read_config) (simp_all add: own_defs)
qed

lemma own_send_ptp_turn:
  assumes "send_ptp_turn E l s = Some (Next (l', t))"
  shows "snd (own t) = (mgmt s, mach_type s, next_mode (modes s), masterTOslave s, gps_status s)"
    and "para_ok s \<Longrightarrow> para_ok t"
proof -
  obtain l1 s1 where 1: "read_clocks E l (read_status E s) = Some (l1, s1)"
    using assms by (auto simp: send_ptp_turn_def split: option.splits)
  obtain l2 s2 where 2: "read_carrier E l1 s1 = Next (l2, s2)"
    using assms 1 by (auto simp: send_ptp_turn_def split: turn.splits)
  obtain l3 s3 where 3: "read_trigger E l2 s2 = Next (l3, s3)"
    using assms 1 2 by (auto simp: send_ptp_turn_def split: turn.splits)
  obtain l4 s4 where 4: "(if ptp_val l3 = 1 then ptp_event E l3 s3 else Some (l3, s3)) = Some (l4, s4)"
    and m: "mode_switch E l4 s4 = (l', t)"
    using assms 1 2 3 by (auto simp: send_ptp_turn_def split: option.splits)
  have "own s4 = own s1"
    using own_read_carrier [OF 2] own_read_trigger [OF 3] 4
    by (auto split: if_splits dest!: own_ptp_event)
  moreover have "snd (own s1) = snd (own s)" "para_ok s \<Longrightarrow> para_ok s1"
    using own_read_clocks [OF 1] own_read_status [of E s] by (simp_all add: own_def)
  ultimately show "snd (own t) = (mgmt s, mach_type s, next_mode (modes s), masterTOslave s, gps_status s)"
    "para_ok s \<Longrightarrow> para_ok t"
    using own_mode_switch [OF m] by (simp_all add: own_defs)
qed

text \<open>A turn that ends the thread, at the carrier file or at the trigger, leaves the same alone.\<close>

lemma own_ptp_exit:
  assumes "send_ptp_turn E l s = Some (Thread_exit (l', t))"
  shows "snd (own t) = snd (own s)" and "para_ok s \<Longrightarrow> para_ok t"
proof -
  obtain l1 s1 where 1: "read_clocks E l (read_status E s) = Some (l1, s1)"
    using assms by (auto simp: send_ptp_turn_def split: option.splits)
  have "own t = own s1"
  proof (cases "read_carrier E l1 s1")
    case (Thread_exit r)
    with assms 1 show ?thesis
      by (auto simp: send_ptp_turn_def read_carrier_def sys_open_def sys_read_def Let_def
          split: if_splits)
  next
    case (Next r)
    obtain l2 s2 where r: "r = (l2, s2)" by (cases r)
    with Next assms 1 have "read_trigger E l2 s2 = Thread_exit (l', t)"
      by (auto simp: send_ptp_turn_def split: turn.splits option.splits)
    then have "own t = own s2"
      by (auto simp: read_trigger_def sys_read_def Let_def split: option.splits)
    then show ?thesis using own_read_carrier Next r by fastforce
  qed
  then show "snd (own t) = snd (own s)" "para_ok s \<Longrightarrow> para_ok t"
    using own_read_clocks [OF 1] own_read_status [of E s] by (simp_all add: own_def)
qed

lemma modes_send_ptp_turn:
  "send_ptp_turn E l s = Some (Next (l', t)) \<Longrightarrow>
     modes t = (mach_type s, next_mode (modes s), masterTOslave s, gps_status s)"
  using own_send_ptp_turn(1) [of E l s l' t] by (simp add: own_def)

lemma own_check_gps:
  "own (check_gps_turn E s) = (para_ok s, mgmt s, mach_type s, cur_status s, masterTOslave s,
     if bit (fst (fpga_read_logic_status E (emifa_fd s) s)) 7 then GPS_CONNECT else GPS_UNCONNECT)"
proof -
  obtain v u where v: "fpga_read_logic_status E (emifa_fd s) s = (v, u)" by fastforce
  have "(ucast v :: u8) AND 0x80 \<noteq> 0 \<longleftrightarrow> bit v 7"
    using and_exp_eq_0_iff_not_bit [of "ucast v :: u8" 7] by (simp add: bit_ucast_iff)
  moreover have [simp]:
    "own (w\<lparr>gps_status := g\<rparr>) = (para_ok w, mgmt w, mach_type w, cur_status w, masterTOslave w, g)"
    for w :: "('a, 'b) app_st_scheme" and g by (simp add: own_defs)
  ultimately show ?thesis
    using own_read_logic [OF v] by (simp add: check_gps_turn_def v Let_def) (simp add: own_defs clock_para_wf_status)
qed

lemma modes_check_gps:
  "modes (check_gps_turn E s) = (mach_type s, cur_status s, masterTOslave s,
     if bit (fst (fpga_read_logic_status E (emifa_fd s) s)) 7 then GPS_CONNECT else GPS_UNCONNECT)"
  using own_check_gps [of E s] by (simp add: own_def)

subsection \<open>Every turn is defined\<close>

lemma send_system_time_defined [simp]: "send_system_time E s \<noteq> None"
  using send_system_time_result [OF refl, of E s] by auto

lemma linked_defined: "slave_linked E l s \<noteq> None" "master_linked E l s \<noteq> None"
  by (auto simp: slave_linked_def master_linked_def Let_def split: option.splits prod.splits)

lemma ptp_event_defined: "ptp_event E l s \<noteq> None"
proof -
  have "\<exists>a b. slave_linked E l s = Some (a, b)" "\<exists>a b. master_linked E l s = Some (a, b)" for l s
    using linked_defined [of E l s] by auto
  then show ?thesis by (auto simp: ptp_event_def Let_def split: prod.splits)
qed

lemma send_ptp_turn_defined:
  assumes "\<And>h t. length (e_ctime E h t) < PARAM_LEN" and "para_ok s"
  shows "send_ptp_turn E l s \<noteq> None"
proof -
  have "para_ok (read_status E s)" using own_read_status [of E s] assms(2) by (simp add: own_def)
  from read_clocks_result [OF assms(1) this] obtain l1 s1 where
    "read_clocks E l (read_status E s) = Some (l1, s1)" by blast
  then show ?thesis
    by (auto simp: send_ptp_turn_def split: turn.splits option.splits elim: notE [OF ptp_event_defined])
qed

end
