(* ===== verification/Clock_Modes.thy ===== *)
theory Clock_Modes
  imports Clock_Turns
begin

text \<open>
  The behaviour of the clock over many turns: when a master sets its hardware clock, when a
  slave reboots after an outage, and which modes can be reached by any interleaving of the
  turns of the GPS thread and the PTP thread.
\<close>

subsection \<open>How often a master sets its hardware clock\<close>

definition times_run :: "string \<Rightarrow> history \<Rightarrow> nat" where
  "times_run c h = count_list (commands h) c"

text \<open>One event of a linked master as far as its counter is concerned.\<close>

definition master_tick ::
  "env \<Rightarrow> ptp_locals \<times> ('q, 'z) app_st_scheme \<Rightarrow> ptp_locals \<times> ('q, 'z) app_st_scheme" where
  "master_tick E x = master_timer E ((fst x)\<lparr>ptp_num := ptp_num (fst x) + 1\<rparr>) (snd x)"

text \<open>The value of the counter after \<open>k\<close> events.\<close>

definition counter_after :: "nat \<Rightarrow> nat" where
  "counter_after k =
     (if k < 60 then k else if k < 3760 then k + 40 else 3700 + (k - 3760) mod 100)"

lemma counter_after_0: "counter_after 0 = 0"
  by (simp add: counter_after_def)

lemma counter_after_Suc:
  "counter_after (Suc k) =
     (if Suc (counter_after k) = 60 then 100
      else if Suc (counter_after k) = 3800 then 3700 else Suc (counter_after k))"
proof -
  consider "k < 59" | "k = 59" | "60 \<le> k" "k < 3759" | "k = 3759" | "3760 \<le> k" by linarith
  then show ?thesis
  proof cases
    case 5
    then obtain j where k: "k = 3760 + j" using le_Suc_ex by blast
    have "Suc j mod 100 = (if Suc (j mod 100) = 100 then 0 else Suc (j mod 100))"
      by (rule mod_Suc)
    then show ?thesis by (simp add: k counter_after_def)
  qed (simp_all add: counter_after_def)
qed

lemma counter_after_small: "counter_after k < 3800"
  by (simp add: counter_after_def)

lemma counter_hits:
  "Suc (counter_after k) = 60 \<longleftrightarrow> k = 59" "Suc (counter_after k) = 3700 \<longleftrightarrow> k = 3659"
  by (auto simp: counter_after_def)

lemma commands_config [simp]:
  "commands (hist (fpga_write_config E fd v s)) = commands (hist s)"
  "commands (hist (snd (fpga_read_config E fd s))) = commands (hist s)"
  by (simp_all add: fpga_write_config_def fpga_read_config_def return_rx_def hist_write_code
      hist_read_code)

lemma unat_suc: "unat w < 3800 \<Longrightarrow> unat (w + 1) = Suc (unat w)" for w :: u32
  by (simp add: unat_word_ariths)

lemma master_tick_step:
  assumes "unat (ptp_num l) = counter_after k" and "master_tick E (l, s) = (l', s')"
  shows "unat (ptp_num l') = counter_after (Suc k)"
    and "times_run ''./ptp/testptp -s'' (hist s') = times_run ''./ptp/testptp -s'' (hist s) +
           (if k = 59 \<or> k = 3659 then 1 else 0)"
proof -
  let ?l = "l\<lparr>ptp_num := ptp_num l + 1\<rparr>"
  have n: "unat (ptp_num ?l) = Suc (counter_after k)"
    using assms(1) counter_after_small [of k] by (simp add: unat_suc)
  have w: "ptp_num ?l = 60 \<longleftrightarrow> Suc (counter_after k) = 60"
    unfolding n [symmetric] by (rule unat_eq_numeral [symmetric]) simp
  have w': "ptp_num ?l = 3700 \<longleftrightarrow> Suc (counter_after k) = 3700"
    unfolding n [symmetric] by (rule unat_eq_numeral [symmetric]) simp
  have w'': "ptp_num ?l = 3800 \<longleftrightarrow> Suc (counter_after k) = 3800"
    unfolding n [symmetric] by (rule unat_eq_numeral [symmetric]) simp
  obtain c t where c: "fpga_read_config E (emifa_fd (fpga_write_config E (emifa_fd s)
        (fpga_status l AND OMAP_RUN_LED) (sys_system ''./ptp/testptp -s'' s)))
      (fpga_write_config E (emifa_fd s) (fpga_status l AND OMAP_RUN_LED)
        (sys_system ''./ptp/testptp -s'' s)) = (c, t)" by fastforce
  then have t: "commands (hist t) = commands (hist s) @ [''./ptp/testptp -s'']"
    using commands_config(2) [of E "emifa_fd (fpga_write_config E (emifa_fd s)
        (fpga_status l AND OMAP_RUN_LED) (sys_system ''./ptp/testptp -s'' s))"
      "fpga_write_config E (emifa_fd s) (fpga_status l AND OMAP_RUN_LED)
        (sys_system ''./ptp/testptp -s'' s)"]
    by (simp add: sys_system_def emit_def)
  have m: "master_timer E ?l s = (l', s')" using assms(2) by (simp add: master_tick_def)
  show "unat (ptp_num l') = counter_after (Suc k)"
    and "times_run ''./ptp/testptp -s'' (hist s') = times_run ''./ptp/testptp -s'' (hist s) +
           (if k = 59 \<or> k = 3659 then 1 else 0)"
  proof -
    consider "Suc (counter_after k) = 60" | "Suc (counter_after k) = 3700"
      | "Suc (counter_after k) \<noteq> 60" "Suc (counter_after k) \<noteq> 3700" by blast
    then have "unat (ptp_num l') = counter_after (Suc k) \<and>
      times_run ''./ptp/testptp -s'' (hist s') = times_run ''./ptp/testptp -s'' (hist s) +
           (if k = 59 \<or> k = 3659 then 1 else 0)"
    proof cases
      case 1
      then have "l' = ?l\<lparr>fpga_config := c, ptp_num := 100\<rparr>" "s' = t"
        using m w w' w'' c by (auto simp: master_timer_def Let_def sys_system_def emit_def)
      with 1 t show ?thesis using counter_hits [of k] counter_after_Suc [of k]
        by (simp add: times_run_def)
    next
      case 2
      then have "l' = ?l" "s' = sys_system ''./ptp/testptp -s'' s"
        using m w w' w'' by (auto simp: master_timer_def Let_def)
      with 2 n show ?thesis using counter_hits [of k] counter_after_Suc [of k]
        by (simp add: times_run_def sys_system_def emit_def)
    next
      case 3
      then have "l' = (if Suc (counter_after k) = 3800 then ?l\<lparr>ptp_num := 3700\<rparr> else ?l)" "s' = s"
        using m w w' w'' by (auto simp: master_timer_def Let_def)
      with 3 n show ?thesis using counter_hits [of k] counter_after_Suc [of k]
        by simp
    qed
    then show "unat (ptp_num l') = counter_after (Suc k)"
      and "times_run ''./ptp/testptp -s'' (hist s') = times_run ''./ptp/testptp -s'' (hist s) +
           (if k = 59 \<or> k = 3659 then 1 else 0)" by auto
  qed
qed

lemma master_ticks:
  assumes "ptp_num l = 0"
  shows "unat (ptp_num (fst ((master_tick E ^^ k) (l, s)))) = counter_after k \<and>
     times_run ''./ptp/testptp -s'' (hist (snd ((master_tick E ^^ k) (l, s)))) =
       times_run ''./ptp/testptp -s'' (hist s) + (if k < 60 then 0 else if k < 3660 then 1 else 2)"
proof (induction k)
  case 0
  then show ?case using assms by (simp add: counter_after_0)
next
  case (Suc k)
  obtain l1 s1 where 1: "(master_tick E ^^ k) (l, s) = (l1, s1)" by fastforce
  obtain l2 s2 where 2: "master_tick E (l1, s1) = (l2, s2)" by fastforce
  from Suc 1 have "unat (ptp_num l1) = counter_after k" by simp
  from master_tick_step [OF this 2] Suc 1 2 show ?case by simp
qed

lemma counter_after_late:
  "counter_after k = (if k < 60 then k else if k < 3660 then k + 40 else 3700 + (k - 3660) mod 100)"
proof (cases "3760 \<le> k")
  case True
  then have "k - 3660 = (k - 3760) + 100" by simp
  then have "(k - 3660) mod 100 = (k - 3760) mod 100" by (metis mod_add_self2)
  with True show ?thesis by (simp add: counter_after_def)
qed (auto simp: counter_after_def)

text \<open>
  C33. The counter of a linked master sets the hardware clock at the 60th and at the 3660th
  event and never again. It counts the events up to 59, goes on from 100 at the 60th and reaches
  3700 at the 3660th; from then on it goes round from 3700 to 3799 every hundred events, being put
  back to 3700 instead of 3800. That is a value that sets the clock, but the counter is
  incremented before it is compared, so it is never compared at 3700 again.
\<close>

theorem timer_sets_clock_twice:
  assumes "ptp_num l = 0"
  shows "times_run ''./ptp/testptp -s'' (hist (snd ((master_tick E ^^ k) (l, s)))) =
       times_run ''./ptp/testptp -s'' (hist s) + (if k < 60 then 0 else if k < 3660 then 1 else 2) \<and>
     unat (ptp_num (fst ((master_tick E ^^ k) (l, s)))) =
       (if k < 60 then k else if k < 3660 then k + 40 else 3700 + (k - 3660) mod 100)"
  using master_ticks [OF assms] unfolding counter_after_late by blast

definition locals_0 :: ptp_locals where
  "locals_0 = \<lparr>ptp_val = 0, fpga_status = 0, buffnet = 0, ts_sec = 0, tv_sec = 0, ptp_num = 0,
     fpga_config = 0, net_flag = 0, net_count = 0\<rparr>"

theorem timer_sets_clock_twice_witness:
  "times_run ''./ptp/testptp -s''
     (hist (snd ((master_tick idle_env ^^ 100000) (locals_0, clock_st)))) = 2 \<and>
   unat (ptp_num (fst ((master_tick idle_env ^^ 100000) (locals_0, clock_st)))) = 3740"
  using timer_sets_clock_twice [of locals_0 100000 idle_env clock_st]
  by (simp add: locals_0_def times_run_def clock_st_def)

subsection \<open>Outages of a slave\<close>

text \<open>A sequence of events, each with the carrier byte the turn has read before it.\<close>

fun ptp_events ::
  "env \<Rightarrow> u8 list \<Rightarrow> ptp_locals \<Rightarrow> ('q, 'z) app_st_scheme
     \<Rightarrow> (ptp_locals \<times> ('q, 'z) app_st_scheme) option" where
  "ptp_events E [] l s = Some (l, s)"
| "ptp_events E (b # bs) l s =
     (case ptp_event E (l\<lparr>buffnet := b\<rparr>) s of
        None \<Rightarrow> None | Some (l, s) \<Rightarrow> ptp_events E bs l s)"

text \<open>
  What it amounts to: the number of events without a link since the last reboot, and the number
  of reboots. 49 is a link, 48 none.
\<close>

fun outage_spec :: "nat \<Rightarrow> u8 list \<Rightarrow> nat \<times> nat" where
  "outage_spec c [] = (c, 0)"
| "outage_spec c (b # bs) =
     (if b = 48 then outage_spec (c + 1) bs
      else if b = 49 \<and> 3 \<le> c then (let (c', r) = outage_spec 0 bs in (c', r + 1))
      else outage_spec c bs)"

definition outage_state :: "nat \<Rightarrow> ptp_locals \<Rightarrow> bool" where
  "outage_state c l \<longleftrightarrow>
     unat (net_count l) = c \<and> (net_flag l = 1 \<longleftrightarrow> 0 < c)"

lemma cur_status_read_config [simp]:
  "cur_status (snd (fpga_read_config E fd s)) = cur_status s"
  "cur_status (fpga_write_config E fd v s) = cur_status s"
  by (simp_all add: fpga_fun_defs emifa_ioctl_def emit_def)

lemma send_system_time_commands:
  "\<exists>s'. send_system_time E s = Some s' \<and> commands (hist s') = commands (hist s) \<and>
     cur_status s' = cur_status s"
  using send_system_time_result [OF refl, of E s] by force

lemma led_ctl_simps [simp]:
  "commands (hist (led_ctl v s)) = commands (hist s)" "cur_status (led_ctl v s) = cur_status s"
  by (simp_all add: led_ctl_def sys_ioctl_def emit_def)

lemma sys_system_simps [simp]:
  "commands (hist (sys_system c s)) = commands (hist s) @ [c]"
  by (simp add: sys_system_def emit_def)

lemma cur_status_system [simp]: "cur_status (sys_system c s) = cur_status s"
  by (simp add: sys_system_def emit_def)

lemma slave_linked_outage:
  assumes "outage_state c l"
  shows "\<exists>l' s'. slave_linked E l s = Some (l', s') \<and> cur_status s' = cur_status s \<and>
     outage_state (if 3 \<le> c then 0 else c) l' \<and>
     commands (hist s') = commands (hist s) @ ''./ptp/testptp -S'' #
       (if 3 \<le> c then [''reboot''] else [])"
proof -
  let ?v = "(fpga_status l OR CLK_PTP) AND OMAP_RUN_LED"
  define s1 where "s1 = sys_system ''./ptp/testptp -S'' s"
  define s2 where "s2 = fpga_write_config E (emifa_fd s1) ?v s1"
  obtain k s3 where s3: "fpga_read_config E (emifa_fd s2) s2 = (k, s3)" by fastforce
  define t where "t = (if ts_sec l = tv_sec l then report_config 0xc000 k s3 else s1)"
  define l1 where "l1 = (if ts_sec l = tv_sec l then l\<lparr>fpga_config := k\<rparr> else l)"
  have "s3 = snd (fpga_read_config E (emifa_fd s2) s2)" by (simp add: s3)
  then have s3': "commands (hist s3) = commands (hist s1)" "cur_status s3 = cur_status s1"
    by (simp_all add: s2_def)
  then have t: "commands (hist t) = commands (hist s) @ [''./ptp/testptp -S'']"
    "cur_status t = cur_status s"
    by (simp_all add: t_def report_config_def s1_def)
  obtain s4 where s4: "send_system_time E t = Some s4" "commands (hist s4) = commands (hist t)"
    "cur_status s4 = cur_status t" using send_system_time_commands by blast
  have n: "net_flag l1 = net_flag l" "net_count l1 = net_count l" by (simp_all add: l1_def)
  have three: "net_flag l = 1 \<and> 3 \<le> net_count l \<longleftrightarrow> 3 \<le> c"
    using assms by (auto simp: outage_state_def word_le_nat_alt)
  have "slave_linked E l s = Some (if 3 \<le> c
      then (l1\<lparr>net_flag := 0, net_count := 0\<rparr>, led_ctl LED_ON (sys_system ''reboot'' s4))
      else (l1, led_ctl LED_ON s4))"
    using s3 s4(1) n unfolding three [symmetric]
    by (simp add: slave_linked_def Let_def s1_def s2_def t_def l1_def split: if_splits)
  then show ?thesis
    using assms t s4(2,3) n by (auto simp: outage_state_def)
qed

lemma slave_unlinked_outage:
  assumes "outage_state c l" and "Suc c < 2 ^ 32" and "slave_unlinked E l s = (l', s')"
  shows "outage_state (Suc c) l'" and "commands (hist s') = commands (hist s)"
    and "cur_status s' = cur_status s"
proof -
  let ?t = "fpga_write_config E (emifa_fd s) (fpga_status l AND NOT PTP_VALID) s"
  obtain k u where k: "fpga_read_config E (emifa_fd ?t) ?t = (k, u)" by fastforce
  then have l': "l' = l\<lparr>fpga_config := k, net_flag := 1, net_count := net_count l + 1\<rparr>"
    and s': "s' = snd (fpga_read_config E (emifa_fd ?t) ?t)"
    using assms(3) by (simp_all add: slave_unlinked_def Let_def)
  have "unat (net_count l + 1) = Suc c"
    using assms(1,2) by (simp add: outage_state_def unat_word_ariths)
  then show "outage_state (Suc c) l'" by (simp add: l' outage_state_def)
  show "commands (hist s') = commands (hist s)" "cur_status s' = cur_status s"
    by (simp_all add: s')
qed

text \<open>One event of a slave, as a step of the specification.\<close>

definition outage_next :: "nat \<Rightarrow> u8 \<Rightarrow> nat" where
  "outage_next c b = (if b = 48 then Suc c else if b = 49 \<and> 3 \<le> c then 0 else c)"

lemma ptp_event_outage:
  assumes "cur_status s = CLOCK_SLAVE" and "outage_state c l" and "Suc c < 2 ^ 32"
  obtains l' s' where "ptp_event E (l\<lparr>buffnet := b\<rparr>) s = Some (l', s')"
    and "cur_status s' = CLOCK_SLAVE" and "outage_state (outage_next c b) l'"
    and "times_run ''reboot'' (hist s') =
           times_run ''reboot'' (hist s) + (if b = 49 \<and> 3 \<le> c then 1 else 0)"
proof -
  obtain k t where k: "fpga_read_config E (emifa_fd s) s = (k, t)" by fastforce
  then have "t = snd (fpga_read_config E (emifa_fd s) s)" by simp
  then have t: "commands (hist t) = commands (hist s)" "cur_status t = CLOCK_SLAVE"
    using assms(1) by simp_all
  let ?l = "l\<lparr>buffnet := b, ptp_num := ptp_num l + 1, fpga_status := k OR PTP_VALID\<rparr>"
  have ev: "ptp_event E (l\<lparr>buffnet := b\<rparr>) s =
      (if b = 49 then slave_linked E ?l t else if b = 48 then Some (slave_unlinked E ?l t)
       else Some (?l, t))"
    using k t(2) by (simp add: ptp_event_def Let_def mode_defs)
  have l: "outage_state c ?l" using assms(2) by (simp add: outage_state_def)
  consider "b = 49" | "b = 48" | "b \<noteq> 49" "b \<noteq> 48" by blast
  then show ?thesis
  proof cases
    case 1
    then show ?thesis
      using slave_linked_outage [OF l, of E t] ev t that
      by (force simp: outage_next_def times_run_def)
  next
    case 2
    obtain l' s' where u: "slave_unlinked E ?l t = (l', s')" by fastforce
    from 2 show ?thesis
      using slave_unlinked_outage [OF l assms(3) u] ev t u that
      by (simp add: outage_next_def times_run_def)
  next
    case 3
    with l ev t that show ?thesis by (simp add: outage_next_def times_run_def)
  qed
qed

lemma outage_spec_step:
  "outage_spec c (b # bs) = (let (c', r) = outage_spec (outage_next c b) bs
     in (c', r + (if b = 49 \<and> 3 \<le> c then 1 else 0)))"
  by (simp add: outage_next_def split: prod.split)

lemma outage_next_le: "outage_next c b \<le> Suc c"
  by (simp add: outage_next_def)

text \<open>
  C16. When a slave reboots: over any sequence of carrier bytes the events of the PTP thread count and
  reboot exactly as the specification says, which counts the events without a link since the
  last reboot and reboots at the first event with a link once there have been three. The
  count is not reset when the link comes back earlier, so outages add up.
\<close>

theorem outages_refine_spec:
  assumes "cur_status s = CLOCK_SLAVE" and "outage_state c l" and "c + length bs < 2 ^ 32"
  shows "\<exists>l' s'. ptp_events E bs l s = Some (l', s') \<and> cur_status s' = CLOCK_SLAVE \<and>
     outage_state (fst (outage_spec c bs)) l' \<and>
     times_run ''reboot'' (hist s') = times_run ''reboot'' (hist s) + snd (outage_spec c bs)"
  using assms
proof (induction bs arbitrary: c l s)
  case Nil
  then show ?case by simp
next
  case (Cons b bs)
  have "Suc c < 2 ^ 32" using Cons.prems(3) by simp
  from ptp_event_outage [OF Cons.prems(1,2) this] obtain l1 s1 where
    1: "ptp_event E (l\<lparr>buffnet := b\<rparr>) s = Some (l1, s1)" "cur_status s1 = CLOCK_SLAVE"
      "outage_state (outage_next c b) l1"
      "times_run ''reboot'' (hist s1) =
         times_run ''reboot'' (hist s) + (if b = 49 \<and> 3 \<le> c then 1 else 0)" .
  have "outage_next c b + length bs < 2 ^ 32"
    using Cons.prems(3) outage_next_le [of c b] by simp
  from Cons.IH [OF 1(2,3) this] 1 show ?case
    by (auto simp: outage_spec_step simp del: outage_spec.simps split: prod.split)
qed

theorem outages_refine_spec_witness:
  "\<exists>l' s'. ptp_events idle_env [48, 49, 48, 49, 48, 49] locals_0 (clock_st\<lparr>cur_status := CLOCK_SLAVE\<rparr>)
      = Some (l', s') \<and> times_run ''reboot'' (hist s') = 1"
proof -
  have "outage_state 0 locals_0" by (simp add: outage_state_def locals_0_def)
  moreover have "outage_spec 0 [48, 49, 48, 49, 48, 49] = (0, 1)" by simp
  ultimately show ?thesis
    using outages_refine_spec [of "clock_st\<lparr>cur_status := CLOCK_SLAVE\<rparr>" 0 locals_0
        "[48, 49, 48, 49, 48, 49]" idle_env]
    by (auto simp: times_run_def clock_st_def)
qed

subsection \<open>The modes\<close>

text \<open>
  The two threads as a step relation on the locals of the PTP thread and the shared state: in
  any order, a turn of the GPS thread, which only a master starts, or a turn of the PTP thread.
\<close>

inductive clk_step ::
  "env \<Rightarrow> ptp_locals \<times> ('q, 'z) app_st_scheme \<Rightarrow> ptp_locals \<times> ('q, 'z) app_st_scheme \<Rightarrow> bool"
  for E where
  gps_turn: "mach_type s = CLOCK_MASTER \<Longrightarrow> clk_step E (l, s) (l, check_gps_turn E s)"
| ptp_turn: "send_ptp_turn E l s = Some (Next (l', s')) \<Longrightarrow> clk_step E (l, s) (l', s')"

inductive_cases clk_stepE: "clk_step E (l, s) x"

inductive_simps clk_step_simps: "clk_step E (l, s) (l', s')"

text \<open>The state in which \<open>main\<close> starts the threads, for a configured type \<open>m\<close>.\<close>

definition clk_start :: "u8 \<Rightarrow> ptp_locals \<times> ('q, 'z) app_st_scheme \<Rightarrow> bool" where
  "clk_start m x \<longleftrightarrow> modes (snd x) = (m, m, 0, GPS_UNCONNECT)"

text \<open>
  What is true in every state: the configured type, the absence of a forced slave mode, and
  the mode, which for everything but a master is the configured type itself.
\<close>

definition modes_inv :: "u8 \<Rightarrow> u8 \<times> u8 \<times> u8 \<times> u8 \<Rightarrow> bool" where
  "modes_inv m = (\<lambda>(mach, cur, mts, gps).
     mach = m \<and> mts = 0 \<and> gps \<in> {GPS_CONNECT, GPS_UNCONNECT} \<and>
     (if m = CLOCK_MASTER then cur \<in> {CLOCK_MASTER, CLOCK_SLAVE}
      else cur = m \<and> gps = GPS_UNCONNECT))"

interpretation clk: step_invariant "clk_start m" "clk_step E" "\<lambda>x. modes_inv m (modes (snd x))" for m E
proof
  fix x :: "ptp_locals \<times> ('a, 'b) app_st_scheme"
  assume "clk_start m x"
  then show "modes_inv m (modes (snd x))" by (simp add: clk_start_def modes_inv_def)
next
  fix x y :: "ptp_locals \<times> ('a, 'b) app_st_scheme"
  assume inv: "modes_inv m (modes (snd x))" and "clk_step E x y"
  from this(2) show "modes_inv m (modes (snd y))"
  proof cases
    case (gps_turn s l)
    with inv show ?thesis by (auto simp: modes_check_gps) (auto simp: modes_inv_def modes_def)
  next
    case (ptp_turn l s l' s')
    from modes_send_ptp_turn [OF ptp_turn(3)] inv ptp_turn(1,2) show ?thesis
      by (auto simp: modes_inv_def modes_def next_mode_def mode_defs)
  qed
qed

text \<open>
  The modes under any interleaving of the two threads: a clock configured as a slave, or with an
  invalid type, is in that mode for ever; a clock configured as a master is a master or a slave
  and nothing else; the configured type never changes.
\<close>

theorem mode_reachable:
  assumes "reach (clk_start m) (clk_step E) (l, s)"
  shows "mach_type s = m \<and> (if m = CLOCK_MASTER then cur_status s \<in> {CLOCK_MASTER, CLOCK_SLAVE}
                           else cur_status s = m)"
  using clk.reach_I [OF assms] by (auto simp: modes_inv_def modes_def split: if_splits)

theorem mode_reachable_witness:
  "cur_status (check_gps_turn idle_env (clock_st\<lparr>gps_status := GPS_UNCONNECT\<rparr>))
     \<in> {CLOCK_MASTER, CLOCK_SLAVE}"
proof -
  let ?s = "clock_st\<lparr>gps_status := GPS_UNCONNECT\<rparr>"
  have "clk_start CLOCK_MASTER (locals_0, ?s)" by (simp add: clk_start_def modes_def clock_st_def)
  then have "reach (clk_start CLOCK_MASTER) (clk_step idle_env) (locals_0, ?s)" by (rule reach_init)
  then have "reach (clk_start CLOCK_MASTER) (clk_step idle_env) (locals_0, check_gps_turn idle_env ?s)"
    by (rule reach_step) (rule gps_turn, simp add: clock_st_def)
  from mode_reachable [OF this] show ?thesis by simp
qed

text \<open>
  C17. A master follows its GPS receiver: whatever has happened before, a turn of the GPS thread and
  the next turn of the PTP thread leave it a master exactly when bit 7 of the logic status
  register was set, and a slave otherwise.
\<close>

theorem master_follows_gps:
  assumes "reach (clk_start CLOCK_MASTER) (clk_step E) (l, s)"
    and "send_ptp_turn E l (check_gps_turn E s) = Some (Next (l', s'))"
  shows "cur_status s' =
     (if bit (fst (fpga_read_logic_status E (emifa_fd s) s)) 7 then CLOCK_MASTER else CLOCK_SLAVE)"
proof -
  have "modes_inv CLOCK_MASTER (modes s)" using clk.reach_I [OF assms(1)] by simp
  moreover have "modes s' = (mach_type s, next_mode (modes (check_gps_turn E s)), masterTOslave s,
      gps_status (check_gps_turn E s))"
    using modes_send_ptp_turn [OF assms(2)] modes_check_gps [of E s] by (simp add: modes_def)
  ultimately show ?thesis
    unfolding modes_check_gps by (auto simp: modes_inv_def modes_def next_mode_def mode_defs)
qed

text \<open>With a receiver that is not locked, the first turn of the PTP thread makes a master a slave.\<close>

theorem master_follows_gps_witness:
  "\<exists>l' s'. send_ptp_turn idle_env locals_0 (check_gps_turn idle_env
      (clock_st\<lparr>gps_status := GPS_UNCONNECT\<rparr>)) = Some (Next (l', s')) \<and> cur_status s' = CLOCK_SLAVE"
proof -
  let ?s = "clock_st\<lparr>gps_status := GPS_UNCONNECT\<rparr>"
  have "clk_start CLOCK_MASTER (locals_0, ?s)" by (simp add: clk_start_def modes_def clock_st_def)
  then have r: "reach (clk_start CLOCK_MASTER) (clk_step idle_env) (locals_0, ?s)" by (rule reach_init)
  have "para_ok (check_gps_turn idle_env ?s)"
    using own_check_gps [of idle_env ?s] by (simp add: own_def) (simp add: para_ok_def clock_st_def clock_para_wf_0)
  then obtain r where r': "send_ptp_turn idle_env locals_0 (check_gps_turn idle_env ?s) = Some r"
    using send_ptp_turn_defined [of idle_env "check_gps_turn idle_env ?s" locals_0]
    by (auto simp: idle_env_def PARAM_LEN_def)
  have "r \<noteq> Thread_exit x" for x
    using r' by (auto simp: send_ptp_turn_def read_carrier_def read_trigger_def sys_defs
        idle_env_def Let_def split: option.splits prod.splits)
  then obtain l' s' where turn: "send_ptp_turn idle_env locals_0 (check_gps_turn idle_env ?s) = Some (Next (l', s'))"
    using r' by (cases r) auto
  have "\<not> bit (fst (fpga_read_logic_status idle_env (emifa_fd ?s) ?s)) 7"
    by (simp add: fpga_fun_defs emifa_ioctl_def emit_def idle_env_def clock_st_def)
  with master_follows_gps [OF r turn] turn show ?thesis by auto
qed

end
