(* ===== verification/Snmp_Delivery.thy ===== *)
theory Snmp_Delivery
  imports Snmp_Threads
begin

text \<open>
  From a request to the answer in the kernel's queue: the acknowledgement thread hands over what
  the handlers queued. A turn of the sender is described once, draining the queue is an
  induction over its content, and a request that is received, answered and sent is the
  composition of the receiving thread and the sending thread.
\<close>

subsection \<open>Turns of the acknowledgement thread\<close>

definition sent_acks :: "int \<Rightarrow> sn_msg_param list \<Rightarrow> history" where
  "sent_acks qid ns = map (\<lambda>n. Ev_msgsnd qid (data n) (QUEUE_LEN - 4)) ns"

context cstl_queue
begin

lemma ack_turn_sends:
  assumes "queue_ok items wfq (ack_queue s)" and "queue_content items (ack_queue s) = n # ns"
    and "node_ok n" and "length msg = QUEUE_LEN" and "ack_sem s = Suc k"
  obtains q where "snmp_send_ack_turn E C qid node msg s = Done (Next (data n,
      s\<lparr>hist := hist s @ sent_acks qid [n], ack_queue := q, ack_sem := k\<rparr>))"
    and "queue_ok items wfq q" and "queue_content items q = ns"
proof -
  obtain q0 where q0: "ack_queue s = Some q0" "wfq q0" "items q0 = n # ns"
    "length (items q0) \<le> QUEUE_MAX_SIZE"
    using assms(1,2) by (auto simp: queue_ok_def split: option.splits)
  have pop: "queue_content items (Some (queue_pop C q0)) = ns" "queue_ok items wfq (Some (queue_pop C q0))"
    using q0 pop_items [OF q0(2)] pop_inv [OF q0(2)] by (simp_all add: queue_ok_def)
  have "c_memcpy msg (data n) (unat (length_of n)) = Some (data n)" "4 + (QUEUE_LEN - 4) = length (data n)"
    using assms(3,4) node_fits [OF assms(3)] by (simp_all add: c_memcpy_all node_ok_def)
  with q0 assms(5) get_Some [OF q0(2)] pop_Some [OF q0(2)]
  have "snmp_send_ack_turn E C qid node msg s = Done (Next (data n,
      s\<lparr>hist := hist s @ sent_acks qid [n], ack_queue := Some (queue_pop C q0), ack_sem := k\<rparr>))"
    by (simp add: snmp_send_ack_turn_def sem_wait_def sys_msgsnd_def emit_def Let_def sent_acks_def)
  with that pop show ?thesis by blast
qed

lemma ack_turns_drain:
  assumes "queue_ok items wfq (ack_queue s)" and "queue_content items (ack_queue s) = ns @ rest"
    and "list_all node_ok ns" and "length msg = QUEUE_LEN" and "ack_sem s = length ns + k"
  shows "\<exists>q msg'. run_turns (length ns) (\<lambda>(msg, s). snmp_send_ack_turn E C qid node msg s) (msg, s) =
      Done (Next (msg', s\<lparr>hist := hist s @ sent_acks qid ns, ack_queue := q, ack_sem := k\<rparr>)) \<and>
      queue_ok items wfq q \<and> queue_content items q = rest \<and> length msg' = QUEUE_LEN"
  using assms
proof (induction ns arbitrary: s msg)
  case Nil
  then show ?case by (intro exI [of _ "ack_queue s"]) (simp add: sent_acks_def)
next
  case (Cons n ns)
  from Cons.prems have n: "node_ok n" "queue_content items (ack_queue s) = n # (ns @ rest)"
    "ack_sem s = Suc (length ns + k)" by simp_all
  then have len: "length (data n) = QUEUE_LEN" by (simp add: node_ok_def)
  from ack_turn_sends [OF Cons.prems(1) n(2,1) Cons.prems(4) n(3)] obtain q where q:
    "snmp_send_ack_turn E C qid node msg s = Done (Next (data n,
      s\<lparr>hist := hist s @ sent_acks qid [n], ack_queue := q, ack_sem := length ns + k\<rparr>))"
    "queue_ok items wfq q" "queue_content items q = ns @ rest" .
  let ?t = "s\<lparr>hist := hist s @ sent_acks qid [n], ack_queue := q, ack_sem := length ns + k\<rparr>"
  from Cons.IH [of ?t "data n"] q Cons.prems(3) len obtain q' msg' where
    "run_turns (length ns) (\<lambda>(msg, s). snmp_send_ack_turn E C qid node msg s) (data n, ?t) =
       Done (Next (msg', ?t\<lparr>hist := hist ?t @ sent_acks qid ns, ack_queue := q', ack_sem := k\<rparr>))"
    "queue_ok items wfq q'" "queue_content items q' = rest" "length msg' = QUEUE_LEN" by auto
  with q show ?case by (intro exI [of _ q'] exI [of _ msg']) (simp add: sent_acks_def)
qed

lemma ack_turn_waits:
  "ack_sem s = 0 \<Longrightarrow> snmp_send_ack_turn E C qid node msg s = Blocked"
  by (simp add: snmp_send_ack_turn_def sem_wait_def)

end

text \<open>
  Delivery of acknowledgements: with one token for each queued message, the acknowledgement
  thread hands every message of the queue to the kernel in the order in which they were
  queued, declares exactly the bytes behind the type, empties the queue, uses up the tokens
  and changes nothing else. Whether the kernel takes the messages makes no difference: one
  that is refused is dropped.
\<close>

theorem ack_thread_delivers:
  assumes "cstl_queue C items wfq" and "queue_ok items wfq (ack_queue s)"
    and "queue_content items (ack_queue s) = ns" and "list_all node_ok ns"
    and "ack_sem s = length ns" and "e_msgget E (hist s) KEY_ID_ACK IPC_EXCL = qid" and "0 \<le> qid"
  shows "\<exists>q msg. pthread_snmp_send_ack E C node (length ns) s = Done (Next (msg,
      s\<lparr>hist := hist s @ [Ev_msgget KEY_ID_ACK IPC_EXCL] @ sent_acks qid ns,
        ack_queue := q, ack_sem := 0\<rparr>)) \<and>
      queue_ok items wfq q \<and> queue_content items q = []"
  using cstl_queue.ack_turns_drain [OF assms(1), of "emit (Ev_msgget KEY_ID_ACK IPC_EXCL) s" ns "[]"
      "zeros QUEUE_LEN" 0 E qid node] assms(2-)
  by (auto simp: pthread_snmp_send_ack_def sys_msgget_def emit_def)

theorem ack_thread_delivers_witness:
  "\<exists>q msg. pthread_snmp_send_ack idle_env list_cstl sample_node 2
      (snmp_st_0\<lparr>ack_queue := Some [node_of msg_0, node_of msg_0], ack_sem := 2\<rparr>) =
    Done (Next (msg, snmp_st_0\<lparr>ack_queue := q, ack_sem := 0, hist :=
      Ev_msgget KEY_ID_ACK IPC_EXCL # sent_acks 0 [node_of msg_0, node_of msg_0]\<rparr>)) \<and>
    queue_content (\<lambda>q. q) q = []"
proof -
  let ?ns = "[node_of msg_0, node_of msg_0]"
  let ?s = "snmp_st_0\<lparr>ack_queue := Some ?ns, ack_sem := 2\<rparr>"
  have "queue_ok (\<lambda>q. q) (\<lambda>q. True) (ack_queue ?s)" by (simp add: queue_ok_def QUEUE_MAX_SIZE_def)
  moreover have "list_all node_ok ?ns" by (simp add: node_of_ok)
  moreover have "e_msgget idle_env (hist ?s) KEY_ID_ACK IPC_EXCL = 0" by (simp add: idle_env_def)
  ultimately show ?thesis
    using ack_thread_delivers [OF lq.cstl_queue_axioms, of ?s ?ns idle_env 0 sample_node]
    by (auto simp: numeral_2_eq_2 snmp_st_0_def)
qed

subsection \<open>A request, its answer, and its way back\<close>

lemma answer_frame [simp]:
  "answer (s\<lparr>hist := h\<rparr>) code = answer s code"
  "answer (s\<lparr>flag_trap := b\<rparr>) code = answer s code"
  by (simp_all add: answer_def)

lemma data_node_of [simp]: "data (node_of m) = encode_msg m"
  by (simp add: node_of_def)

text \<open>What the receiving thread does with a message before it looks the handler up.\<close>

definition taken :: "int \<Rightarrow> queue_msg_t \<Rightarrow> ('q, 'z) snmp_st_scheme \<Rightarrow> ('q, 'z) snmp_st_scheme" where
  "taken rq m s =
     (let s = emit (Ev_msgrcv rq QUEUE_LEN 0 0) s
      in if msg_type m = CMD_GET \<or> msg_type m = CMD_SET then s\<lparr>flag_trap := True\<rparr> else s)"

lemma flag_trap_idem: "flag_trap s \<Longrightarrow> s\<lparr>flag_trap := True\<rparr> = s"
  by (cases s) simp

lemma recv_turn_taken:
  assumes "e_msgrcv E (hist s) rq QUEUE_LEN 0 0 = Some (ty, bs)" and "received_msg ty bs = Some m"
    and "dispatch E C m (taken rq m s) = Inr (r, s')"
  shows "snmp_recv_turn E C rq s = Inr s'"
proof -
  let ?t = "emit (Ev_msgrcv rq QUEUE_LEN 0 0) s"
  have "(if (msg_type m = CMD_GET \<or> msg_type m = CMD_SET) \<and> \<not> flag_trap ?t
         then ?t\<lparr>flag_trap := True\<rparr> else ?t) = taken rq m s"
    by (auto simp: taken_def Let_def flag_trap_idem)
  with assms show ?thesis by (simp add: snmp_recv_turn_def sys_msgrcv_def Let_def)
qed

text \<open>
  A GET request, from the kernel and back to the kernel: with the acknowledgement queue drained,
  a turn of the receiving thread followed by a turn of the acknowledgement thread takes the
  request from the kernel and sends exactly one message, the acknowledgement of the same
  operation code with error 0 and the text of the requested parameter, whose memory image
  decodes to just that acknowledgement. The queue is empty again and the invariant holds.
\<close>

theorem get_request_served:
  assumes "cstl_queue C items wfq" and "snmp_inv items wfq s"
    and "queue_content items (ack_queue s) = []" and "ack_sem s = 0"
    and "e_msgrcv E (hist s) rq QUEUE_LEN 0 0 = Some (ty, bs)" and "received_msg ty bs = Some m"
    and "msg_type m = CMD_GET" and "answer s (oper_code (snmp_msg m)) = Some tx"
    and "length msg = QUEUE_LEN"
  shows "\<exists>s1 s2 b a. snmp_recv_turn E C rq s = Inr s1 \<and>
     snmp_send_ack_turn E C qid node msg s1 = Done (Next (b, s2)) \<and>
     hist s2 = hist s @ [Ev_msgrcv rq QUEUE_LEN 0 0, Ev_msgsnd qid b (QUEUE_LEN - 4)] \<and>
     decode_msg b = a \<and> ack_msg (oper_code (snmp_msg m)) 0 tx a \<and>
     queue_content items (ack_queue s2) = [] \<and> ack_sem s2 = 0 \<and> snmp_inv items wfq s2"
proof -
  let ?t = "taken rq m s"
  have t: "?t = s\<lparr>hist := hist s @ [Ev_msgrcv rq QUEUE_LEN 0 0], flag_trap := True\<rparr>"
    using assms(7) by (simp add: taken_def emit_def Let_def)
  have inv: "queue_ok items wfq (ack_queue ?t)" "clock_para_wf (ClockParameter ?t)"
    "SnmpData ?t = init_SnmpData SnmpData_0" "answer ?t (oper_code (snmp_msg m)) = Some tx"
    using assms(2,8) by (simp_all add: t snmp_inv_def)
  from cstl_queue.get_replies [OF assms(1) inv(1-3) assms(7) inv(4)] obtain s1 where
    d: "dispatch E C m ?t = Inr (0, s1)" and r: "replied items wfq (oper_code (snmp_msg m)) 0 tx ?t s1"
    by blast
  from r obtain a q1 where a: "ack_msg (oper_code (snmp_msg m)) 0 tx a" and
    q1: "queue_ok items wfq q1" "queue_content items q1 = [node_of a]"
      "s1 = ?t\<lparr>ack_queue := q1, ack_sem := 1\<rparr>"
    using assms(3,4) by (auto simp: replied_def t bounded_push_def QUEUE_MAX_SIZE_def)
  have "node_ok (node_of a)" using a by (simp add: ack_msg_def node_of_ok)
  moreover have "queue_ok items wfq (ack_queue s1)" "queue_content items (ack_queue s1) = [node_of a]"
    "ack_sem s1 = Suc 0" using q1 by simp_all
  ultimately obtain q2 where
    "snmp_send_ack_turn E C qid node msg s1 = Done (Next (data (node_of a),
        s1\<lparr>hist := hist s1 @ sent_acks qid [node_of a], ack_queue := q2, ack_sem := 0\<rparr>))"
    and q2: "queue_ok items wfq q2" "queue_content items q2 = []"
    using cstl_queue.ack_turn_sends [OF assms(1) _ _ _ assms(9)] by blast
  then have turn: "snmp_send_ack_turn E C qid node msg s1 = Done (Next (encode_msg a,
        s1\<lparr>hist := hist s1 @ sent_acks qid [node_of a], ack_queue := q2, ack_sem := 0\<rparr>))"
    by simp
  have "snmp_inv items wfq (s1\<lparr>hist := hist s1 @ sent_acks qid [node_of a], ack_queue := q2, ack_sem := 0\<rparr>)"
    using assms(2) q2 by (simp add: snmp_inv_def q1(3) t)
  with recv_turn_taken [OF assms(5,6) d] turn q2 a show ?thesis
    by (intro exI [of _ s1] exI [of _ "encode_msg a"] exI conjI)
      (assumption | simp add: q1(3) t sent_acks_def decode_encode_msg)+
qed

theorem get_request_served_witness:
  "\<exists>s1 s2 b. snmp_recv_turn (recv_env CMD_GET (short_text 0x60)) list_cstl 0 snmp_st_0 = Inr s1 \<and>
     snmp_send_ack_turn (recv_env CMD_GET (short_text 0x60)) list_cstl 5 sample_node (zeros QUEUE_LEN) s1 =
       Done (Next (b, s2)) \<and>
     hist s2 = [Ev_msgrcv 0 QUEUE_LEN 0 0, Ev_msgsnd 5 b (QUEUE_LEN - 4)] \<and>
     ack_msg 0x60 0 ''Error'' (decode_msg b)"
proof -
  have "answer snmp_st_0 (oper_code (snmp_msg (request CMD_GET 0x60 []))) = Some ''Error''"
    by (simp add: answer_def code_defs mode_text_def) (simp add: snmp_st_0_def clock_para_0_def)
  moreover have "queue_content (\<lambda>q. q) (ack_queue snmp_st_0) = []" "ack_sem snmp_st_0 = 0"
    "hist snmp_st_0 = []" by (simp_all add: snmp_st_0_def)
  moreover have "e_msgrcv (recv_env CMD_GET (short_text 0x60)) h q n t f =
      Some (CMD_GET, short_text 0x60)" for h q n t f by (simp add: recv_env_def)
  ultimately show ?thesis
    using get_request_served [OF lq.cstl_queue_axioms snmp_st_0_simps(5), where
        E = "recv_env CMD_GET (short_text 0x60)" and rq = 0 and ty = CMD_GET and qid = 5
        and bs = "short_text 0x60" and m = "request CMD_GET 0x60 []" and tx = "''Error''"
        and msg = "zeros QUEUE_LEN" and node = sample_node]
    by (auto simp: received_short)
qed

end
