(* ===== verification/Clock_System.thy ===== *)
theory Clock_System
  imports Clock_Start Clock_Modes Snmp_Delivery
begin

text \<open>
  The whole program after \<open>main\<close> has started its threads: a state that holds the shared
  variables and the locals of the threads, and a step relation in which any thread that can run
  takes its next turn, or the interval timer fires. The invariant of the management side is
  kept by every step, and no turn of any thread is undefined in a reachable state. Turns are
  atomic here; the steps inside a turn that touch the queues interleave in \<open>Trap_Pipeline\<close>
  and \<open>Ack_Pipeline\<close>, those that touch the FPGA message in \<open>Fpga_Race\<close>.
\<close>

subsection \<open>The state and its steps\<close>

record 'q clock_system =
  shared :: "'q app_st"
  ptp_vars :: ptp_locals
  send_msg :: string
  ack_msg_buf :: string
  ptp_alive :: bool
  send_alive :: bool
  ack_alive :: bool

text \<open>\<open>rq\<close> and \<open>aq\<close> are the kernel queues the receiving and the acknowledgement thread looked up.\<close>

inductive sys_step ::
  "env \<Rightarrow> 'q cstl_ops \<Rightarrow> sn_msg_param \<Rightarrow> int \<Rightarrow> int \<Rightarrow> 'q clock_system \<Rightarrow> 'q clock_system \<Rightarrow> bool"
  for E C node rq aq where
  gps: "mach_type (shared x) = CLOCK_MASTER \<Longrightarrow>
     sys_step E C node rq aq x (x\<lparr>shared := check_gps_turn E (shared x)\<rparr>)"
| ptp: "ptp_alive x \<Longrightarrow> send_ptp_turn E (ptp_vars x) (shared x) = Some (Next (l, s)) \<Longrightarrow>
     sys_step E C node rq aq x (x\<lparr>shared := s, ptp_vars := l\<rparr>)"
| recv: "snmp_recv_turn E C rq (shared x) = Inr s \<Longrightarrow>
     sys_step E C node rq aq x (x\<lparr>shared := s\<rparr>)"
| second: "second_task_turn E C (shared x) = Done s \<Longrightarrow>
     sys_step E C node rq aq x (x\<lparr>shared := s\<rparr>)"
| send: "send_alive x \<Longrightarrow> snmp_send_turn E C node (send_msg x) (shared x) = Done (Next (m, s)) \<Longrightarrow>
     sys_step E C node rq aq x (x\<lparr>shared := s, send_msg := m\<rparr>)"
| send_exit: "send_alive x \<Longrightarrow>
     snmp_send_turn E C node (send_msg x) (shared x) = Done (Thread_exit (m, s)) \<Longrightarrow>
     sys_step E C node rq aq x (x\<lparr>shared := s, send_alive := False\<rparr>)"
| ack: "ack_alive x \<Longrightarrow>
     snmp_send_ack_turn E C aq node (ack_msg_buf x) (shared x) = Done (Next (m, s)) \<Longrightarrow>
     sys_step E C node rq aq x (x\<lparr>shared := s, ack_msg_buf := m\<rparr>)"
| ack_exit: "ack_alive x \<Longrightarrow>
     snmp_send_ack_turn E C aq node (ack_msg_buf x) (shared x) = Done (Thread_exit (m, s)) \<Longrightarrow>
     sys_step E C node rq aq x (x\<lparr>shared := s, ack_alive := False\<rparr>)"
| ptp_exit: "ptp_alive x \<Longrightarrow> send_ptp_turn E (ptp_vars x) (shared x) = Some (Thread_exit (l, s)) \<Longrightarrow>
     sys_step E C node rq aq x (x\<lparr>shared := s, ptp_alive := False\<rparr>)"
| timer: "sys_step E C node rq aq x (x\<lparr>shared := signal_handler (shared x)\<rparr>)"

text \<open>The state in which the threads start.\<close>

definition sys_start ::
  "('q \<Rightarrow> sn_msg_param list) \<Rightarrow> ('q \<Rightarrow> bool) \<Rightarrow> 'q clock_system \<Rightarrow> bool" where
  "sys_start items wfq x \<longleftrightarrow>
     ready items wfq (shared x) \<and> send_msg x = zeros QUEUE_LEN \<and> ack_msg_buf x = zeros QUEUE_LEN"

subsection \<open>The invariant\<close>

text \<open>Each queued message has its full size and a token that wakes its sender.\<close>

definition acks_ok :: "('q \<Rightarrow> sn_msg_param list) \<Rightarrow> ('q \<Rightarrow> bool) \<Rightarrow> ('q, 'z) snmp_st_scheme \<Rightarrow> bool" where
  "acks_ok items wfq s \<longleftrightarrow>
     queue_ok items wfq (ack_queue s) \<and> list_all node_ok (queue_content items (ack_queue s)) \<and>
     length (queue_content items (ack_queue s)) \<le> ack_sem s"

definition traps_ok :: "('q \<Rightarrow> sn_msg_param list) \<Rightarrow> ('q \<Rightarrow> bool) \<Rightarrow> ('q, 'z) snmp_st_scheme \<Rightarrow> bool" where
  "traps_ok items wfq s \<longleftrightarrow>
     queue_ok items wfq (send_queue s) \<and> list_all node_ok (queue_content items (send_queue s)) \<and>
     length (queue_content items (send_queue s)) \<le> sem_full s \<and> sem_mutex s = 1"

definition shared_inv :: "('q \<Rightarrow> sn_msg_param list) \<Rightarrow> ('q \<Rightarrow> bool) \<Rightarrow> ('q, 'z) snmp_st_scheme \<Rightarrow> bool" where
  "shared_inv items wfq s \<longleftrightarrow> snmp_inv items wfq s \<and> acks_ok items wfq s \<and> traps_ok items wfq s"

definition sys_inv :: "('q \<Rightarrow> sn_msg_param list) \<Rightarrow> ('q \<Rightarrow> bool) \<Rightarrow> 'q clock_system \<Rightarrow> bool" where
  "sys_inv items wfq x \<longleftrightarrow>
     shared_inv items wfq (shared x) \<and> length (send_msg x) = QUEUE_LEN \<and>
     length (ack_msg_buf x) = QUEUE_LEN"

lemma bounded_push_props:
  "list_all P xs \<Longrightarrow> P m \<Longrightarrow> list_all P (bounded_push cap m xs)"
  "length (bounded_push cap m xs) \<le> Suc (length xs)"
  by (cases xs; simp add: bounded_push_def)+

lemma fold_bounded_push_props:
  "list_all P xs \<Longrightarrow> list_all P ms \<Longrightarrow> list_all P (fold (bounded_push cap) ms xs)"
  "length (fold (bounded_push cap) ms xs) \<le> length xs + length ms"
proof -
  show "list_all P xs \<Longrightarrow> list_all P ms \<Longrightarrow> list_all P (fold (bounded_push cap) ms xs)"
    by (induction ms arbitrary: xs) (simp_all add: bounded_push_props(1))
  show "length (fold (bounded_push cap) ms xs) \<le> length xs + length ms"
  proof (induction ms arbitrary: xs)
    case (Cons m ms)
    from Cons [of "bounded_push cap m xs"] bounded_push_props(2) [of cap m xs] show ?case by simp
  qed simp
qed

subsection \<open>The receiving thread\<close>

context cstl_queue
begin

text \<open>Whatever message is acknowledged, a call that returns leaves the queue in order.\<close>

lemma set_ack_acks_ok:
  assumes "snmp_data_set_ack C m code err s = Some (r, s')" and "acks_ok items wfq s"
  shows "acks_ok items wfq s'"
proof -
  obtain q where q: "ack_queue s = Some q" "wfq q" "length (items q) \<le> QUEUE_MAX_SIZE"
    using assms(2) by (auto simp: acks_ok_def queue_ok_def split: option.splits)
  let ?bs = "encode_msg (stamp_msg CMD_ACK err code m)" and ?len = "of_nat QUEUE_LEN :: u16"
  have len: "unat ?len = QUEUE_LEN" "length (zeros QUEUE_LEN) = QUEUE_LEN" "4 \<le> QUEUE_LEN"
    by (simp_all add: len_defs)
  have "push_msg C (stamp_msg CMD_ACK err code m) (ack_queue s) \<noteq> None"
    using assms(1) by (auto simp: snmp_data_set_ack_def split: option.splits)
  then have long: "QUEUE_LEN \<le> length ?bs"
    using q len by (auto simp: push_msg_def SN_Free_Lock_Queue_Push_def full_iff pop_Some c_memcpy_def
        QUEUE_MAX_SIZE_def split: if_splits)
  then obtain q' where p: "push_msg C (stamp_msg CMD_ACK err code m) (ack_queue s) = Some (0, Some q')"
    and w: "wfq q'" and i: "items q' = bounded_push QUEUE_MAX_SIZE \<lparr>cmd = 0, length_of = ?len,
        data = take QUEUE_LEN ?bs @ drop QUEUE_LEN (zeros QUEUE_LEN)\<rparr> (items q)"
    using push_Some [OF q(2), of ?bs ?len "zeros QUEUE_LEN" 0] len by (auto simp: push_msg_def q(1))
  let ?n = "\<lparr>cmd = 0, length_of = ?len, data = take QUEUE_LEN ?bs @ drop QUEUE_LEN (zeros QUEUE_LEN)\<rparr>"
  have "node_ok ?n" using long len by (simp add: node_ok_def)
  moreover have "0 < QUEUE_MAX_SIZE" by (simp add: QUEUE_MAX_SIZE_def)
  ultimately show ?thesis
    using assms p w q bounded_push_props(1) [of node_ok "items q" ?n QUEUE_MAX_SIZE]
      bounded_push_props(2) [of QUEUE_MAX_SIZE ?n "items q"]
    by (auto simp: snmp_data_set_ack_def acks_ok_def queue_ok_def i length_bounded_push)
qed

lemma acks_ok_hist: "acks_ok items wfq (s\<lparr>hist := h\<rparr>) = acks_ok items wfq s"
  by (simp add: acks_ok_def)

lemma ack_acks_ok:
  "snmp_data_ack C m code s = Some (r, s') \<Longrightarrow> acks_ok items wfq s \<Longrightarrow> acks_ok items wfq s'"
  "ack_string C b code s = Some (r, s') \<Longrightarrow> acks_ok items wfq s \<Longrightarrow> acks_ok items wfq s'"
  by (auto simp: snmp_data_ack_eq ack_string_def dest: set_ack_acks_ok split: bind_splits)

lemma net_acks_ok:
  "get_net_parameter E b flag s = Some (r, b', s') \<Longrightarrow> acks_ok items wfq s \<Longrightarrow> acks_ok items wfq s'"
  "get_gateway E g s = Some (r, g', s') \<Longrightarrow> acks_ok items wfq s \<Longrightarrow> acks_ok items wfq s'"
  "set_ipaddress E ip s = (r, s') \<Longrightarrow> acks_ok items wfq s \<Longrightarrow> acks_ok items wfq s'"
  "set_netmask E ip s = (r, s') \<Longrightarrow> acks_ok items wfq s \<Longrightarrow> acks_ok items wfq s'"
  "set_gateway E ip s = (r, s') \<Longrightarrow> acks_ok items wfq s \<Longrightarrow> acks_ok items wfq s'"
  using get_net_parameter_frame [of E b flag s r b' s'] get_gateway_frame [of E g s r g' s']
    set_ipaddress_frame [of E ip s r s'] set_netmask_frame [of E ip s r s']
    set_gateway_frame [of E ip s r s']
  by (auto simp: acks_ok_hist)

lemma run_handler_acks_ok:
  "run_handler E C h m s = Some (r, s') \<Longrightarrow> acks_ok items wfq s \<Longrightarrow> acks_ok items wfq s'"
  by (cases h)
     (auto simp: handler_defs Let_def split: bind_splits if_splits prod.splits
       dest!: ack_acks_ok set_ack_acks_ok net_acks_ok)

lemma dispatch_acks_ok:
  "dispatch E C m s = Inr (r, s') \<Longrightarrow> acks_ok items wfq s \<Longrightarrow> acks_ok items wfq s'"
  by (auto simp: dispatch_def Let_def dest: run_handler_acks_ok split: if_splits option.splits)

lemma traps_ok_frame: "handler_frame s s' \<Longrightarrow> traps_ok items wfq s \<Longrightarrow> traps_ok items wfq s'"
  by (simp add: traps_ok_def handler_frame_flag)

lemma recv_turn_shared:
  assumes "snmp_recv_turn E C rq s = Inr s'" and "snmp_inv items wfq s'" and "shared_inv items wfq s"
  shows "shared_inv items wfq s'"
proof (cases "e_msgrcv E (hist s) rq QUEUE_LEN 0 0")
  case None
  with assms show ?thesis
    by (auto simp: snmp_recv_turn_def sys_defs emit_def shared_inv_def acks_ok_def traps_ok_def)
next
  case (Some b)
  then obtain ty bs where b: "e_msgrcv E (hist s) rq QUEUE_LEN 0 0 = Some (ty, bs)" by (cases b) auto
  let ?s = "emit (Ev_msgrcv rq QUEUE_LEN 0 0) s"
  obtain m where m: "received_msg ty bs = Some m"
    using b assms(1) by (auto simp: snmp_recv_turn_def sys_msgrcv_def split: option.splits)
  define t where "t = (if (msg_type m = CMD_GET \<or> msg_type m = CMD_SET) \<and> \<not> flag_trap ?s
    then ?s\<lparr>flag_trap := True\<rparr> else ?s)"
  obtain r where "dispatch E C m t = Inr (r, s')"
    using b m assms(1)
    by (auto simp: snmp_recv_turn_def sys_msgrcv_def t_def Let_def dest!: map_sum_InrD)
  then have t: "t = ?s \<or> t = ?s\<lparr>flag_trap := True\<rparr>" "dispatch E C m t = Inr (r, s')"
    by (simp_all add: t_def)
  then have "acks_ok items wfq t" "traps_ok items wfq t"
    using assms(3) by (auto simp: shared_inv_def acks_ok_def traps_ok_def emit_def)
  with t(2) assms(2) show ?thesis
    using dispatch_acks_ok traps_ok_frame [OF dispatch_frame] by (auto simp: shared_inv_def)
qed

subsection \<open>The second task and the senders\<close>

lemma second_task_shared:
  assumes "second_task_turn E C s = Done s'" and "shared_inv items wfq s"
  shows "shared_inv items wfq s'"
proof -
  note inv = assms(2) [unfolded shared_inv_def acks_ok_def traps_ok_def]
  then have para: "clock_para_wf (ClockParameter s)" by (simp add: snmp_inv_def)
  obtain v where v: "trapsignal s = Suc v"
    using assms(1) second_task_turn_ticked [OF para, of E C] by (cases "trapsignal s") auto
  have tick: "shared_inv items wfq (ticked v s)"
    using inv ticked_inv [of items wfq s v]
    by (auto simp: shared_inv_def acks_ok_def traps_ok_def) (simp_all add: ticked_def)
  show ?thesis
  proof (cases "flag_trap s")
    case False
    with assms(1) v tick show ?thesis by (simp add: second_task_turn_ticked [OF para])
  next
    case True
    from inv have "snmp_inv items wfq s" "0 < sem_mutex s" by simp_all
    from second_task_queues [OF this v True] assms(1) obtain ms where ms: "trap_queued items wfq ms (ticked v s) s'"
      "traps_of E (hist s) (ClockParameter (ticked v s)) [0x70, 0x71, 0x72, 0x73, 0x74, 0x75] ms"
      by (metis outcome.inject)
    have "list_all node_ok (map node_of ms)"
      using traps_of_props(2) [OF ms(2)] by (auto simp: list_all_iff node_of_ok)
    moreover obtain h q where "s' = (ticked v s)\<lparr>hist := h, send_queue := q,
        sem_full := sem_full (ticked v s) + length ms\<rparr>"
      using ms(1) unfolding trap_queued_def by blast
    moreover have "queue_content items (send_queue s') =
        fold (bounded_push QUEUE_MAX_SIZE) (map node_of ms) (queue_content items (send_queue s))"
      "queue_ok items wfq (send_queue s')"
      using ms(1) by (simp_all add: trap_queued_def)
    ultimately show ?thesis
      using tick fold_bounded_push_props(1) [of node_ok "queue_content items (send_queue s)" "map node_of ms"
          QUEUE_MAX_SIZE]
        fold_bounded_push_props(2) [of QUEUE_MAX_SIZE "map node_of ms" "queue_content items (send_queue s)"]
      by (auto simp: shared_inv_def acks_ok_def traps_ok_def snmp_inv_def)
  qed
qed

lemma second_task_defined:
  assumes "snmp_inv items wfq s" and "0 < sem_mutex s"
  shows "second_task_turn E C s \<noteq> Undefined"
proof -
  have para: "clock_para_wf (ClockParameter s)" using assms(1) by (simp add: snmp_inv_def)
  show ?thesis
  proof (cases "trapsignal s = 0 \<or> \<not> flag_trap s")
    case True
    then show ?thesis
      unfolding second_task_turn_ticked [OF para] by (auto split: nat.split)
  next
    case False
    then obtain v where "trapsignal s = Suc v" by (cases "trapsignal s") auto
    with False second_task_queues [OF assms this, of E] show ?thesis by (metis outcome.distinct(3))
  qed
qed

lemma send_turn_shared:
  assumes "shared_inv items wfq s" and "length msg = QUEUE_LEN"
  shows "case snmp_send_turn E C node msg s of
     Done (Next (m, s')) \<Rightarrow> shared_inv items wfq s' \<and> length m = QUEUE_LEN
   | Done (Thread_exit (m, s')) \<Rightarrow> shared_inv items wfq s'
   | Blocked \<Rightarrow> True | Undefined \<Rightarrow> False"
proof -
  note inv = assms(1) [unfolded shared_inv_def acks_ok_def traps_ok_def]
  show ?thesis
  proof (cases "e_msgget E (hist s) KEY_ID_SEND IPC_EXCL < 0 \<or> sem_full s = 0")
    case True
    then show ?thesis
      using assms(1) by (auto simp: snmp_send_turn_def sys_msgget_def emit_def sem_wait_def
          shared_inv_def snmp_inv_def acks_ok_def traps_ok_def)
  next
    case False
    then obtain f where f: "sem_full s = Suc f" by (cases "sem_full s") auto
    show ?thesis
    proof (cases "queue_content items (send_queue s)")
      case Nil
      with inv f False send_turn_empty [of s E _ f node msg] show ?thesis
        by (auto simp: shared_inv_def snmp_inv_def acks_ok_def traps_ok_def)
    next
      case (Cons n ns)
      then have n: "node_ok n" using inv by simp
      obtain q where "snmp_send_turn E C node msg s = Done (Next (data n,
          s\<lparr>hist := hist s @ sent_trap E (hist s) (data n), send_queue := q, sem_full := f\<rparr>))"
        "queue_ok items wfq q" "queue_content items q = ns"
        using send_turn_sends [OF _ Cons n assms(2) _ f] inv False by (metis One_nat_def not_less)
      with inv f n Cons show ?thesis
        by (simp add: shared_inv_def snmp_inv_def acks_ok_def traps_ok_def node_ok_def)
    qed
  qed
qed

lemma ack_turn_shared:
  assumes "shared_inv items wfq s" and "length msg = QUEUE_LEN"
  shows "case snmp_send_ack_turn E C aq node msg s of
     Done (Next (m, s')) \<Rightarrow> shared_inv items wfq s' \<and> length m = QUEUE_LEN
   | Done (Thread_exit (m, s')) \<Rightarrow> shared_inv items wfq s'
   | Blocked \<Rightarrow> True | Undefined \<Rightarrow> False"
proof -
  note inv = assms(1) [unfolded shared_inv_def acks_ok_def traps_ok_def]
  show ?thesis
  proof (cases "ack_sem s")
    case 0
    then show ?thesis by (simp add: ack_turn_waits)
  next
    case (Suc k)
    show ?thesis
    proof (cases "queue_content items (ack_queue s)")
      case Nil
      obtain q where q: "ack_queue s = Some q" "wfq q" "items q = []"
        using inv Nil by (auto simp: queue_ok_def split: option.splits)
      with inv Suc get_Some [OF q(2)] pop_Some [OF q(2)] show ?thesis
        by (simp add: snmp_send_ack_turn_def sem_wait_def Let_def shared_inv_def snmp_inv_def
            acks_ok_def traps_ok_def)
    next
      case (Cons n ns)
      then have n: "node_ok n" using inv by simp
      obtain q where "snmp_send_ack_turn E C aq node msg s = Done (Next (data n,
          s\<lparr>hist := hist s @ sent_acks aq [n], ack_queue := q, ack_sem := k\<rparr>))"
        "queue_ok items wfq q" "queue_content items q = ns"
        using ack_turn_sends [OF _ Cons n assms(2) Suc] inv by metis
      with inv Suc n Cons show ?thesis
        by (simp add: shared_inv_def snmp_inv_def acks_ok_def traps_ok_def node_ok_def)
    qed
  qed
qed

end

subsection \<open>Every step keeps the invariant\<close>

lemma shared_inv_own:
  assumes "shared_inv items wfq s" and "mgmt t = mgmt s" and "para_ok s \<Longrightarrow> para_ok t"
  shows "shared_inv items wfq t"
  using assms
  by (simp add: shared_inv_def snmp_inv_def acks_ok_def traps_ok_def mgmt_def para_ok_def)

lemma gps_turn_shared: "shared_inv items wfq s \<Longrightarrow> shared_inv items wfq (check_gps_turn E s)"
  by (erule shared_inv_own) (use own_check_gps [of E s] in \<open>simp_all add: own_def\<close>)

lemma ptp_turn_shared:
  assumes "send_ptp_turn E l s = Some r" and "shared_inv items wfq s"
  shows "case r of Next (l', s') \<Rightarrow> shared_inv items wfq s' | Thread_exit (l', s') \<Rightarrow> shared_inv items wfq s'"
proof (cases r)
  case (Next p)
  obtain l' s' where p: "p = (l', s')" by (cases p)
  with Next assms have "send_ptp_turn E l s = Some (Next (l', s'))" by simp
  from own_send_ptp_turn [OF this] have "mgmt s' = mgmt s" "para_ok s \<Longrightarrow> para_ok s'"
    by (simp_all add: own_def)
  from shared_inv_own [OF assms(2) this] show ?thesis by (simp add: Next p)
next
  case (Thread_exit p)
  obtain l' s' where p: "p = (l', s')" by (cases p)
  with Thread_exit assms have "send_ptp_turn E l s = Some (Thread_exit (l', s'))" by simp
  from own_ptp_exit [OF this] have "mgmt s' = mgmt s" "para_ok s \<Longrightarrow> para_ok s'"
    by (simp_all add: own_def)
  from shared_inv_own [OF assms(2) this] show ?thesis by (simp add: Thread_exit p)
qed

lemma timer_shared: "shared_inv items wfq s \<Longrightarrow> shared_inv items wfq (signal_handler s)"
  by (simp add: signal_handler_def shared_inv_def snmp_inv_def acks_ok_def traps_ok_def)

text \<open>
  The world of the program: a container that keeps its promises, an agent that keeps the
  contract of the requests, an \<open>ip route\<close> command that delivers at least one line and only lines
  that fit (\<open>routes_ok\<close>, part of \<open>snmp_agent\<close>), and a C library whose \<open>ctime\<close> strings fit 128 bytes.
\<close>

locale clock_world = snmp_agent +
  fixes node :: sn_msg_param and aq :: int
  assumes ctime_fits: "length (e_ctime E h t) < PARAM_LEN"
begin

lemma sys_step_keeps:
  assumes "sys_inv items wfq x" and "sys_step E C node q aq x y"
  shows "sys_inv items wfq y"
proof -
  have s: "shared_inv items wfq (shared x)" "length (send_msg x) = QUEUE_LEN"
    "length (ack_msg_buf x) = QUEUE_LEN" using assms(1) by (simp_all add: sys_inv_def)
  from assms(2) show ?thesis
  proof cases
    case (recv t)
    then have "snmp_inv items wfq t"
      using recv_turn_keeps [of "shared x"] s(1) by (auto simp: shared_inv_def)
    with recv s show ?thesis by (simp add: sys_inv_def recv_turn_shared [OF recv(2)])
  next
    case (send m t)
    with s send_turn_shared [OF s(1,2), of E node] show ?thesis by (simp add: sys_inv_def)
  next
    case (send_exit m t)
    with s send_turn_shared [OF s(1,2), of E node] show ?thesis by (simp add: sys_inv_def)
  next
    case (ack m t)
    with s ack_turn_shared [OF s(1,3), of E aq node] show ?thesis by (simp add: sys_inv_def)
  next
    case (ack_exit m t)
    with s ack_turn_shared [OF s(1,3), of E aq node] show ?thesis by (simp add: sys_inv_def)
  next
    case (ptp l t)
    with s ptp_turn_shared [OF ptp(3) s(1)] show ?thesis by (simp add: sys_inv_def)
  next
    case (ptp_exit l t)
    with s ptp_turn_shared [OF ptp_exit(3) s(1)] show ?thesis by (simp add: sys_inv_def)
  next
    case (second t)
    with s second_task_shared show ?thesis by (auto simp: sys_inv_def)
  qed (use s in \<open>simp_all add: sys_inv_def gps_turn_shared timer_shared\<close>)
qed

end

text \<open>No thread can do anything undefined in its next turn.\<close>

definition all_defined ::
  "env \<Rightarrow> 'q cstl_ops \<Rightarrow> sn_msg_param \<Rightarrow> int \<Rightarrow> int \<Rightarrow> 'q clock_system \<Rightarrow> bool" where
  "all_defined E C node rq aq x \<longleftrightarrow>
     \<not> isl (snmp_recv_turn E C rq (shared x)) \<and>
     second_task_turn E C (shared x) \<noteq> Undefined \<and>
     snmp_send_turn E C node (send_msg x) (shared x) \<noteq> Undefined \<and>
     snmp_send_ack_turn E C aq node (ack_msg_buf x) (shared x) \<noteq> Undefined \<and>
     send_ptp_turn E (ptp_vars x) (shared x) \<noteq> None"

context clock_world
begin

lemma sys_inv_defined:
  assumes "sys_inv items wfq x"
  shows "all_defined E C node q aq x"
proof -
  have s: "shared_inv items wfq (shared x)" "length (send_msg x) = QUEUE_LEN"
    "length (ack_msg_buf x) = QUEUE_LEN" using assms by (simp_all add: sys_inv_def)
  then have inv: "snmp_inv items wfq (shared x)" "0 < sem_mutex (shared x)"
    "clock_para_wf (ClockParameter (shared x))"
    by (simp_all add: shared_inv_def traps_ok_def snmp_inv_def)
  have "\<not> isl (snmp_recv_turn E C q (shared x))" using recv_turn_keeps [OF inv(1)] by auto
  moreover have "second_task_turn E C (shared x) \<noteq> Undefined"
    by (rule second_task_defined [OF inv(1,2)])
  moreover have "send_ptp_turn E (ptp_vars x) (shared x) \<noteq> None"
    by (rule send_ptp_turn_defined [OF ctime_fits]) (simp add: para_ok_def inv(3))
  moreover have "snmp_send_turn E C node (send_msg x) (shared x) \<noteq> Undefined"
  proof
    assume "snmp_send_turn E C node (send_msg x) (shared x) = Undefined"
    with send_turn_shared [OF s(1,2), of E node] show False by simp
  qed
  moreover have "snmp_send_ack_turn E C aq node (ack_msg_buf x) (shared x) \<noteq> Undefined"
  proof
    assume "snmp_send_ack_turn E C aq node (ack_msg_buf x) (shared x) = Undefined"
    with ack_turn_shared [OF s(1,3), of E aq node] show False by simp
  qed
  ultimately show ?thesis unfolding all_defined_def by blast
qed

lemma start_inv: "sys_start items wfq x \<Longrightarrow> sys_inv items wfq x"
  by (simp add: sys_start_def sys_inv_def ready_def shared_inv_def acks_ok_def traps_ok_def snmp_inv_def)

end

sublocale clock_world \<subseteq> sys: step_invariant "sys_start items wfq" "sys_step E C node q aq"
  "sys_inv items wfq"
  by unfold_locales (auto intro: start_inv sys_step_keeps)

context clock_world
begin

lemma run_inv:
  "sys_start items wfq x \<Longrightarrow> (sys_step E C node q aq)\<^sup>*\<^sup>* x y \<Longrightarrow> sys_inv items wfq y"
  using sys.steps_I start_inv by blast

lemma reach_inv: "reach (sys_start items wfq) (sys_step E C node q aq) y \<Longrightarrow> sys_inv items wfq y"
  by (rule sys.reach_I)

lemma run_defined:
  "sys_start items wfq x \<Longrightarrow> (sys_step E C node q aq)\<^sup>*\<^sup>* x y \<Longrightarrow> all_defined E C node q aq y"
  using run_inv sys_inv_defined by blast

end

interpretation mode_world: clock_world list_cstl "\<lambda>q. q" "\<lambda>q. True"
  "recv_env CMD_GET (short_text 0x60)" rq sample_node aq for rq aq
  by unfold_locales (simp add: recv_env_def route_env_def idle_env_def PARAM_LEN_def)

end
