(* ===== verification/Kernel_Sends.thy ===== *)
theory Kernel_Sends
  imports Clock_Turns Snmp_Delivery
begin

text \<open>
  The messages the program hands to the kernel, read off the history of effects: the trap thread
  declares \<open>QUEUE_LEN\<close> bytes of text and the acknowledgement thread four bytes less, so the
  declared length tells them apart. Only these two threads send: here are the lemmas that no
  handler, no trap being queued and no turn of the clock threads adds a message, nor a read behind
  a buffer that comes with one.
\<close>

subsection \<open>The sent messages in a history\<close>

fun sends :: "history \<Rightarrow> nat \<Rightarrow> string list" where
  "sends [] n = []"
| "sends (Ev_msgsnd qid m k # h) n = (if k = n then m # sends h n else sends h n)"
| "sends (_ # h) n = sends h n"

lemma sends_append: "sends (g @ h) n = sends g n @ sends h n"
  by (induction g n rule: sends.induct) auto

text \<open>The bytes the kernel has read behind a buffer that was too short for the declared length.\<close>

fun overreads :: "history \<Rightarrow> string list" where
  "overreads [] = []"
| "overreads (Ev_overread bs # h) = bs # overreads h"
| "overreads (_ # h) = overreads h"

lemma overreads_append: "overreads (g @ h) = overreads g @ overreads h"
  by (induction g rule: overreads.induct) auto

text \<open>The effects of a send: all that \<open>sends\<close> and \<open>overreads\<close> look at.\<close>

definition loud :: "effect \<Rightarrow> bool" where
  "loud e = (case e of Ev_msgsnd qid m k \<Rightarrow> True | Ev_overread bs \<Rightarrow> True | _ \<Rightarrow> False)"

definition traffic :: "history \<Rightarrow> history" where
  "traffic h = filter loud h"

lemma traffic_append [simp]: "traffic (g @ h) = traffic g @ traffic h"
  by (simp add: traffic_def)

lemma traffic_Cons [simp]: "traffic (e # h) = (if loud e then e # traffic h else traffic h)"
  by (simp add: traffic_def)

lemma traffic_Nil [simp]: "traffic [] = []"
  by (simp add: traffic_def)

lemma loud_simps [simp]:
  "loud (Ev_msgsnd qid m k)" "loud (Ev_overread bs)"
  "(\<And>qid m k. e \<noteq> Ev_msgsnd qid m k) \<Longrightarrow> (\<And>bs. e \<noteq> Ev_overread bs) \<Longrightarrow> \<not> loud e"
  by (simp_all add: loud_def split: effect.split)

lemma sends_traffic: "sends (traffic h) n = sends h n"
  by (induction h n rule: sends.induct) auto

lemma overreads_traffic: "overreads (traffic h) = overreads h"
  by (induction h rule: overreads.induct) auto

lemma same_traffic:
  assumes "traffic g = traffic h"
  shows "sends g = sends h" and "overreads g = overreads h"
proof -
  show "sends g = sends h" by (rule ext) (metis assms sends_traffic)
  show "overreads g = overreads h" by (metis assms overreads_traffic)
qed

definition trap_sends :: "'z plat_scheme \<Rightarrow> string list" where
  "trap_sends s = sends (hist s) QUEUE_LEN"

definition ack_sends :: "'z plat_scheme \<Rightarrow> string list" where
  "ack_sends s = sends (hist s) (QUEUE_LEN - 4)"

lemma sends_same:
  assumes "traffic (hist s) = traffic (hist t)"
  shows "trap_sends s = trap_sends t" and "ack_sends s = ack_sends t"
    and "overreads (hist s) = overreads (hist t)"
  using same_traffic [OF assms] by (simp_all add: trap_sends_def ack_sends_def)

subsection \<open>The FPGA\<close>

lemma traffic_exec_stmt [simp]: "traffic (hist (exec_stmt E fd c s)) = traffic (hist s)"
  by (cases c) (simp_all add: emifa_ioctl_def emit_def)

lemma traffic_exec_stmts [simp]: "traffic (hist (exec_stmts E fd cs s)) = traffic (hist s)"
  by (induction cs arbitrary: s) simp_all

lemma traffic_fpga [simp]:
  "traffic (hist (snd (fpga_read_config E fd s))) = traffic (hist s)"
  "traffic (hist (fpga_write_config E fd v s)) = traffic (hist s)"
  "traffic (hist (snd (fpga_read_work_status E fd s))) = traffic (hist s)"
  "traffic (hist (snd (fpga_read_logic_status E fd s))) = traffic (hist s)"
  "traffic (hist (snd (fpga_read_fpga_time E fd i s))) = traffic (hist s)"
  by (simp_all add: fpga_read_config_def fpga_write_config_def fpga_read_work_status_def
      fpga_read_logic_status_def fpga_read_fpga_time_def return_rx_def)

lemma traffic_read_config: "fpga_read_config E fd s = (c, t) \<Longrightarrow> traffic (hist t) = traffic (hist s)"
  and traffic_read_work: "fpga_read_work_status E fd s = (c, t) \<Longrightarrow> traffic (hist t) = traffic (hist s)"
  and traffic_read_logic: "fpga_read_logic_status E fd s = (c, t) \<Longrightarrow> traffic (hist t) = traffic (hist s)"
  and traffic_read_time: "fpga_read_fpga_time E fd i s = (c, t) \<Longrightarrow> traffic (hist t) = traffic (hist s)"
  using traffic_fpga(1,3,4,5) [of E fd] by (metis snd_conv)+

subsection \<open>The clock threads\<close>

lemma traffic_sys [simp]:
  "traffic (hist (sys_system c s)) = traffic (hist s)" "traffic (hist (led_ctl v t)) = traffic (hist t)"
  "traffic (hist (sys_sleep k s)) = traffic (hist s)" "traffic (hist (sys_close fd s)) = traffic (hist s)"
  by (simp_all add: sys_system_def led_ctl_def sys_ioctl_def sys_sleep_def sys_close_def emit_def)

lemma hist_report_config [simp]: "hist (report_config bits c s) = hist s"
  by (simp add: report_config_def)

lemma traffic_write_times: "write_ptp_times E buff is s = Some t \<Longrightarrow> traffic (hist t) = traffic (hist s)"
  by (induction "is" arbitrary: s) (auto simp: fpga_write_ptp_time_def split: if_splits)

lemma traffic_read_times: "read_fpga_times E buff is s = (b, t) \<Longrightarrow> traffic (hist t) = traffic (hist s)"
  by (induction "is" arbitrary: s buff) (auto dest!: traffic_read_time split: prod.splits)

lemma traffic_system_time: "send_system_time E s = Some t \<Longrightarrow> traffic (hist t) = traffic (hist s)"
  by (auto simp: send_system_time_def sys_clock_gettime_def Let_def emit_def
      dest!: traffic_write_times traffic_read_times split: option.splits prod.splits)

lemma traffic_master_timer: "master_timer E l s = (l', t) \<Longrightarrow> traffic (hist t) = traffic (hist s)"
  by (auto simp: master_timer_def Let_def split: if_splits prod.splits dest!: traffic_read_config)

lemma traffic_slave_linked: "slave_linked E l s = Some (l', t) \<Longrightarrow> traffic (hist t) = traffic (hist s)"
  by (auto simp: slave_linked_def Let_def split: if_splits prod.splits option.splits
      dest!: traffic_read_config traffic_system_time)

lemma traffic_slave_unlinked: "slave_unlinked E l s = (l', t) \<Longrightarrow> traffic (hist t) = traffic (hist s)"
  by (auto simp: slave_unlinked_def Let_def split: prod.splits dest!: traffic_read_config)

lemma traffic_master_linked: "master_linked E l s = Some (l', t) \<Longrightarrow> traffic (hist t) = traffic (hist s)"
  by (auto simp: master_linked_def Let_def split: if_splits prod.splits option.splits
      dest!: traffic_read_config traffic_system_time traffic_master_timer)

lemma traffic_ptp_event: "ptp_event E l s = Some (l', t) \<Longrightarrow> traffic (hist t) = traffic (hist s)"
  by (auto simp: ptp_event_def Let_def split: if_splits prod.splits
      dest!: traffic_read_config traffic_slave_linked traffic_slave_unlinked traffic_master_linked)

lemma traffic_read_status: "traffic (hist (read_status E s)) = traffic (hist s)"
  by (auto simp: read_status_def dest: traffic_read_work split: prod.split)

lemma traffic_read_clocks: "read_clocks E l s = Some (l', t) \<Longrightarrow> traffic (hist t) = traffic (hist s)"
  by (auto simp: read_clocks_def sys_clock_gettime_def sys_gettimeofday_def Let_def emit_def
      split: option.splits prod.splits)

lemma traffic_read_carrier:
  "read_carrier E l s = Next (l', t) \<Longrightarrow> traffic (hist t) = traffic (hist s)"
  "read_carrier E l s = Thread_exit (l', t) \<Longrightarrow> traffic (hist t) = traffic (hist s)"
  by (auto simp: read_carrier_def sys_open_def sys_read_def Let_def emit_def split: if_splits)

lemma traffic_read_trigger:
  "read_trigger E l s = Next (l', t) \<Longrightarrow> traffic (hist t) = traffic (hist s)"
  "read_trigger E l s = Thread_exit (l', t) \<Longrightarrow> traffic (hist t) = traffic (hist s)"
  by (auto simp: read_trigger_def sys_read_def Let_def emit_def split: option.splits)

lemma traffic_mode_switch: "mode_switch E l s = (l', t) \<Longrightarrow> traffic (hist t) = traffic (hist s)"
  by (auto simp: mode_switch_def Let_def split: if_splits prod.splits dest!: traffic_read_config)

lemmas traffic_ptp_parts = traffic_read_clocks traffic_read_carrier traffic_read_trigger traffic_ptp_event
  traffic_mode_switch

lemma traffic_ptp_turn:
  "send_ptp_turn E l s = Some (Next (l', t)) \<Longrightarrow> traffic (hist t) = traffic (hist s)"
  "send_ptp_turn E l s = Some (Thread_exit (l', t)) \<Longrightarrow> traffic (hist t) = traffic (hist s)"
  by (auto simp: send_ptp_turn_def traffic_read_status split: option.splits turn.splits if_splits
      dest!: traffic_ptp_parts)

lemma traffic_check_gps: "traffic (hist (check_gps_turn E s)) = traffic (hist s)"
  by (auto simp: check_gps_turn_def Let_def dest!: traffic_read_logic split: prod.split)

subsection \<open>The handlers and the receiving thread\<close>

lemma traffic_net:
  "get_net_parameter E b flag s = Some (r, b', t) \<Longrightarrow> traffic (hist t) = traffic (hist s)"
  "get_gateway E g s = Some (r, g', t) \<Longrightarrow> traffic (hist t) = traffic (hist s)"
  "set_net_parameter E k text flag s = (r, t) \<Longrightarrow> traffic (hist t) = traffic (hist s)"
  "set_gateway E ip s = (r, t) \<Longrightarrow> traffic (hist t) = traffic (hist s)"
  by (auto simp: get_net_parameter_def get_gateway_def set_net_parameter_def set_gateway_def
      sys_defs emit_def Let_def split: option.splits if_splits)

lemma traffic_set_address:
  "set_ipaddress E ip s = (r, t) \<Longrightarrow> traffic (hist t) = traffic (hist s)"
  "set_netmask E ip s = (r, t) \<Longrightarrow> traffic (hist t) = traffic (hist s)"
  by (auto simp: set_ipaddress_def set_netmask_def dest: traffic_net split: if_splits)

lemma traffic_set_ack: "snmp_data_set_ack C m code err s = Some (r, t) \<Longrightarrow> traffic (hist t) = traffic (hist s)"
  by (auto simp: snmp_data_set_ack_def Let_def split: option.splits if_splits)

lemma traffic_ack: "snmp_data_ack C m code s = Some (r, t) \<Longrightarrow> traffic (hist t) = traffic (hist s)"
  by (simp add: snmp_data_ack_eq traffic_set_ack)

lemma traffic_ack_string: "ack_string C b code s = Some (r, t) \<Longrightarrow> traffic (hist t) = traffic (hist s)"
  by (auto simp: ack_string_def traffic_ack split: bind_splits)

lemma traffic_run_handler: "run_handler E C h m s = Some (r, t) \<Longrightarrow> traffic (hist t) = traffic (hist s)"
  by (cases h)
     (auto simp: handler_defs Let_def split: bind_splits if_splits prod.splits
       dest!: traffic_net traffic_set_address traffic_ack traffic_set_ack traffic_ack_string)

lemma traffic_dispatch: "dispatch E C m s = Inr (r, t) \<Longrightarrow> traffic (hist t) = traffic (hist s)"
  by (auto simp: dispatch_def Let_def traffic_run_handler split: if_splits option.splits)

lemma traffic_recv_turn: "snmp_recv_turn E C rq s = Inr t \<Longrightarrow> traffic (hist t) = traffic (hist s)"
  by (auto simp: snmp_recv_turn_def sys_defs emit_def Let_def split: option.splits if_splits prod.splits
      dest!: map_sum_InrD traffic_dispatch)

subsection \<open>The second task\<close>

lemma traffic_data_trap: "snmp_data_trap C m code s = Done (r, t) \<Longrightarrow> traffic (hist t) = traffic (hist s)"
  by (auto simp: snmp_data_trap_def Let_def split: option.splits if_splits)

lemma traffic_trap_msg: "Trap_msg_to_snmpd E C code s = Done t \<Longrightarrow> traffic (hist t) = traffic (hist s)"
  by (auto simp: Trap_msg_to_snmpd_def Let_def split: option.splits bind_splits outcome.splits
      dest!: traffic_net(1) traffic_data_trap)

lemma traffic_send_traps: "send_traps E C codes s = Done t \<Longrightarrow> traffic (hist t) = traffic (hist s)"
  by (induction codes arbitrary: s) (auto split: outcome.splits dest!: traffic_trap_msg)

lemma traffic_second_task: "second_task_turn E C s = Done t \<Longrightarrow> traffic (hist t) = traffic (hist s)"
  by (auto simp: second_task_turn_def refresh_cdd_param_def simp del: send_traps.simps
      split: option.splits if_splits dest!: traffic_send_traps)

subsection \<open>The sending threads\<close>

text \<open>Each of them adds to its own messages only.\<close>

lemma trap_sends_ack_turn:
  assumes "snmp_send_ack_turn E C aq node msg s = Done r" and "r = Next (m, t) \<or> r = Thread_exit (m, t)"
  shows "trap_sends t = trap_sends s"
proof -
  have "QUEUE_LEN - 4 \<noteq> QUEUE_LEN" by (simp add: len_defs)
  with assms show ?thesis
    by (auto simp: snmp_send_ack_turn_def sys_msgsnd_def emit_def Let_def trap_sends_def sends_append
        split: option.splits prod.splits if_splits)
qed

lemma ack_sends_send_turn:
  assumes "snmp_send_turn E C node msg s = Done r" and "r = Next (m, t) \<or> r = Thread_exit (m, t)"
  shows "ack_sends t = ack_sends s"
proof -
  have "QUEUE_LEN \<noteq> QUEUE_LEN - 4" by (simp add: len_defs)
  with assms show ?thesis
    by (auto simp: snmp_send_turn_def sys_msgget_def sys_msgsnd_def emit_def Let_def ack_sends_def sends_append
        split: option.splits prod.splits if_splits)
qed

end
