(* ===== verification/System_Progress.thy ===== *)
theory System_Progress
  imports Clock_System Kernel_Sends
begin

text \<open>
  Progress of the whole program. In every state of \<open>Clock_System\<close> the threads that are still alive
  can bring what is queued to the kernel: the next message, the whole queue, and from end to
  end the answer to a request (receiving thread, handler, acknowledgement thread) and the six
  traps of a timer signal (timer, second task, trap thread).
\<close>

subsection \<open>The next message\<close>

context clock_world
begin

lemma next_trap:
  assumes "sys_inv items wfq y" and "send_alive y" and "queue_content items (send_queue (shared y)) = n # ns"
    and "0 \<le> e_msgget E (hist (shared y)) KEY_ID_SEND IPC_EXCL"
  shows "\<exists>z. sys_step E C node q aq y z \<and> trap_sends (shared z) = trap_sends (shared y) @ [data n] \<and>
     queue_content items (send_queue (shared z)) = ns \<and> send_alive z \<and>
     ClockParameter (shared z) = ClockParameter (shared y) \<and> Suc (sem_full (shared z)) = sem_full (shared y)"
proof -
  let ?s = "shared y"
  note inv = assms(1) [unfolded sys_inv_def shared_inv_def traps_ok_def]
  then have ok: "queue_ok items wfq (send_queue ?s)" "node_ok n" "length (send_msg y) = QUEUE_LEN"
    "sem_mutex ?s = Suc 0" using assms(3) by simp_all
  obtain f where f: "sem_full ?s = Suc f" using inv assms(3) by (cases "sem_full ?s") auto
  from send_turn_sends [OF ok(1) assms(3) ok(2,3) assms(4) f ok(4), of node] obtain q' where
    turn: "snmp_send_turn E C node (send_msg y) ?s = Done (Next (data n,
      ?s\<lparr>hist := hist ?s @ sent_trap E (hist ?s) (data n), send_queue := q', sem_full := f\<rparr>))" and q': "queue_content items q' = ns" .
  from sys_step.send [OF assms(2) turn] show ?thesis
    using q' assms(2) f by (intro exI conjI) (assumption | simp add: trap_sends_def sends_append sent_trap_def)+
qed

lemma next_ack:
  assumes "sys_inv items wfq y" and "ack_alive y" and "queue_content items (ack_queue (shared y)) = n # ns"
  shows "\<exists>z. sys_step E C node q aq y z \<and> ack_sends (shared z) = ack_sends (shared y) @ [data n] \<and>
     queue_content items (ack_queue (shared z)) = ns \<and> ack_alive z \<and>
     Suc (ack_sem (shared z)) = ack_sem (shared y)"
proof -
  let ?s = "shared y"
  note inv = assms(1) [unfolded sys_inv_def shared_inv_def acks_ok_def]
  then have ok: "queue_ok items wfq (ack_queue ?s)" "node_ok n" "length (ack_msg_buf y) = QUEUE_LEN"
    using assms(3) by simp_all
  obtain k where k: "ack_sem ?s = Suc k" using inv assms(3) by (cases "ack_sem ?s") auto
  from ack_turn_sends [OF ok(1) assms(3) ok(2,3) k] obtain q' where
    turn: "snmp_send_ack_turn E C aq node (ack_msg_buf y) ?s = Done (Next (data n,
      ?s\<lparr>hist := hist ?s @ sent_acks aq [n], ack_queue := q', ack_sem := k\<rparr>))"
    and q': "queue_content items q' = ns" by metis
  from sys_step.ack [OF assms(2) turn] show ?thesis
    using q' assms(2) k by (intro exI conjI) (assumption | simp add: ack_sends_def sent_acks_def sends_append)+
qed

end

subsection \<open>The whole queue\<close>

text \<open>
  Taking turn after turn, a living sender hands the kernel everything that is queued, oldest
  first; of a trap sender the kernel must not lose the queue meanwhile.
\<close>

context clock_world
begin

lemma drain_acks:
  assumes "sys_inv items wfq y" and "ack_alive y" and "queue_content items (ack_queue (shared y)) = ns"
  shows "\<exists>z. (sys_step E C node q aq)\<^sup>*\<^sup>* y z \<and>
     ack_sends (shared z) = ack_sends (shared y) @ map data ns \<and> queue_content items (ack_queue (shared z)) = [] \<and>
     ack_alive z \<and> ack_sem (shared z) + length ns = ack_sem (shared y)"
  using assms
proof (induction ns arbitrary: y)
  case Nil
  then show ?case by (intro exI [of _ y]) simp
next
  case (Cons n ns)
  from next_ack [OF Cons.prems] obtain x where x: "sys_step E C node q aq y x"
      "ack_sends (shared x) = ack_sends (shared y) @ [data n]"
      "queue_content items (ack_queue (shared x)) = ns" "ack_alive x"
      "Suc (ack_sem (shared x)) = ack_sem (shared y)" by blast
  from Cons.IH [OF sys_step_keeps [OF Cons.prems(1) x(1)] x(4,3)] x(1,2,5) show ?case
    by (auto intro: converse_rtranclp_into_rtranclp)
qed

lemma drain_traps:
  assumes "sys_inv items wfq y" and "send_alive y" and "queue_content items (send_queue (shared y)) = ns"
    and "\<And>h. 0 \<le> e_msgget E h KEY_ID_SEND IPC_EXCL"
  shows "\<exists>z. (sys_step E C node q aq)\<^sup>*\<^sup>* y z \<and>
     trap_sends (shared z) = trap_sends (shared y) @ map data ns \<and>
     queue_content items (send_queue (shared z)) = [] \<and> ClockParameter (shared z) = ClockParameter (shared y) \<and>
     send_alive z \<and> sem_full (shared z) + length ns = sem_full (shared y)"
  using assms(1-3)
proof (induction ns arbitrary: y)
  case Nil
  then show ?case by (intro exI [of _ y]) simp
next
  case (Cons n ns)
  from next_trap [OF Cons.prems assms(4)] obtain x where x: "sys_step E C node q aq y x"
      "trap_sends (shared x) = trap_sends (shared y) @ [data n]"
      "queue_content items (send_queue (shared x)) = ns" "send_alive x"
      "ClockParameter (shared x) = ClockParameter (shared y)"
      "Suc (sem_full (shared x)) = sem_full (shared y)" by blast
  from Cons.IH [OF sys_step_keeps [OF Cons.prems(1) x(1)] x(4,3)] x(1,2,5,6) show ?case
    by (auto intro: converse_rtranclp_into_rtranclp)
qed

end

text \<open>What a full queue keeps of the messages pushed onto it.\<close>

lemma fold_bounded_push_last_n:
  assumes "0 < cap" and "length xs \<le> cap"
  shows "fold (bounded_push cap) ms xs = last_n cap (xs @ ms)"
proof -
  have "fold (bounded_push cap) ms (last_n cap xs) = last_n cap (xs @ ms)" for xs
    by (induction ms arbitrary: xs) (simp_all add: bounded_push_last_n assms(1))
  moreover have "last_n cap xs = xs" using assms(2) by (simp add: last_n_def)
  ultimately show ?thesis by metis
qed

lemma suffix_last_n: "length ms \<le> cap \<Longrightarrow> suffix ms (last_n cap (xs @ ms))"
  by (simp add: last_n_def suffix_def)

lemma QUEUE_MAX_SIZE_pos: "6 \<le> QUEUE_MAX_SIZE" "0 < QUEUE_MAX_SIZE"
  by (simp_all add: QUEUE_MAX_SIZE_def)

subsection \<open>From a request to its answer\<close>

text \<open>
  A turn of the receiving thread whose handler has replied; \<open>s1\<close> is the state in which the reply is
  queued, after the requests to the kernel that the handler made.
\<close>

lemma replied_turn:
  assumes "e_msgrcv E (hist (shared y)) q QUEUE_LEN 0 0 = Some (ty, bs)" and "received_msg ty bs = Some m"
    and "msg_type m = CMD_GET \<or> msg_type m = CMD_SET"
    and "dispatch E C m (taken q m (shared y)) = Inr (v, s)"
    and "replied items wfq code err tx s1 s" and "s1 = (taken q m (shared y))\<lparr>hist := h\<rparr>"
  shows "\<exists>a. sys_step E C node q aq y (y\<lparr>shared := s\<rparr>) \<and> ack_msg code err tx a \<and>
     queue_content items (ack_queue s) =
       bounded_push QUEUE_MAX_SIZE (node_of a) (queue_content items (ack_queue (shared y))) \<and>
     ack_sends s = ack_sends (shared y) \<and> ack_sem s = Suc (ack_sem (shared y)) \<and> flag_trap s"
proof -
  let ?s = "shared y"
  have t: "taken q m ?s = ?s\<lparr>hist := hist ?s @ [Ev_msgrcv q QUEUE_LEN 0 0], flag_trap := True\<rparr>"
    using assms(3) by (auto simp: taken_def emit_def Let_def)
  note turn = recv_turn_taken [OF assms(1,2,4)]
  from assms(5) obtain a where "ack_msg code err tx a" "flag_trap s" "ack_sem s = Suc (ack_sem ?s)"
      "queue_content items (ack_queue s) =
         bounded_push QUEUE_MAX_SIZE (node_of a) (queue_content items (ack_queue ?s))"
    by (auto simp: replied_def t assms(6))
  with sys_step.recv [OF turn, of node aq] sends_same(2) [OF traffic_recv_turn [OF turn]] show ?thesis
    by (intro exI [of _ a]) simp
qed

context clock_world
begin

text \<open>A GET request queues its answer, a SET request its acknowledgement.\<close>

lemma get_queues_answer:
  assumes "sys_inv items wfq y"
    and "e_msgrcv E (hist (shared y)) q QUEUE_LEN 0 0 = Some (ty, bs)" and "received_msg ty bs = Some m"
    and "msg_type m = CMD_GET" and "answer (shared y) (oper_code (snmp_msg m)) = Some tx"
  shows "\<exists>s a. sys_step E C node q aq y (y\<lparr>shared := s\<rparr>) \<and> ack_msg (oper_code (snmp_msg m)) 0 tx a \<and>
     queue_content items (ack_queue s) =
       bounded_push QUEUE_MAX_SIZE (node_of a) (queue_content items (ack_queue (shared y))) \<and>
     ack_sends s = ack_sends (shared y) \<and> ack_sem s = Suc (ack_sem (shared y)) \<and> flag_trap s"
proof -
  let ?t = "taken q m (shared y)"
  have ok: "queue_ok items wfq (ack_queue ?t)" "clock_para_wf (ClockParameter ?t)"
      "SnmpData ?t = init_SnmpData SnmpData_0" "answer ?t (oper_code (snmp_msg m)) = Some tx"
    using assms(1,4,5) by (simp_all add: taken_def emit_def Let_def sys_inv_def shared_inv_def snmp_inv_def)
  from get_replies [OF ok(1-3) assms(4) ok(4)] obtain s where "dispatch E C m ?t = Inr (0, s)"
      "replied items wfq (oper_code (snmp_msg m)) 0 tx ?t s" by blast
  from replied_turn [OF assms(2,3) _ this, of "hist ?t" node aq] assms(4) show ?thesis by (intro exI [of _ s]) simp
qed

lemma set_queues_answer:
  assumes "sys_inv items wfq y"
    and "e_msgrcv E (hist (shared y)) q QUEUE_LEN 0 0 = Some (ty, bs)" and "received_msg ty bs = Some m"
    and "msg_type m = CMD_SET" and "oper_code (snmp_msg m) \<in> set net_codes" and "has_nul (u_data (snmp_msg m))"
    and "net_setter E (oper_code (snmp_msg m)) (msg_data_str m) (taken q m (shared y)) = (r, s1)"
  shows "\<exists>s a. sys_step E C node q aq y (y\<lparr>shared := s\<rparr>) \<and>
     ack_msg (oper_code (snmp_msg m)) (if r \<noteq> 0 then -1 else 0) [] a \<and>
     queue_content items (ack_queue s) =
       bounded_push QUEUE_MAX_SIZE (node_of a) (queue_content items (ack_queue (shared y))) \<and>
     ack_sends s = ack_sends (shared y) \<and> ack_sem s = Suc (ack_sem (shared y)) \<and> flag_trap s"
proof -
  let ?t = "taken q m (shared y)"
  have ok: "queue_ok items wfq (ack_queue ?t)" "SnmpData ?t = init_SnmpData SnmpData_0"
    using assms(1,4) by (simp_all add: taken_def emit_def Let_def sys_inv_def shared_inv_def snmp_inv_def)
  from set_replies [OF ok assms(4-7)] obtain v s where d: "dispatch E C m ?t = Inr (v, s)"
      "replied items wfq (oper_code (snmp_msg m)) (if r \<noteq> 0 then -1 else 0) [] s1 s" by blast
  obtain h where "s1 = ?t\<lparr>hist := h\<rparr>" using net_setter_frame [OF assms(7)] by blast
  from replied_turn [OF assms(2,3) disjI2 [OF assms(4)] d this, of node aq] show ?thesis by (rule exI)
qed

text \<open>Once an answer is queued, the acknowledgement thread can send everything up to it.\<close>

lemma queued_answer_sent:
  assumes "sys_inv items wfq y" and "ack_alive y" and "sys_step E C node q aq y (y\<lparr>shared := s\<rparr>)"
    and "queue_content items (ack_queue s) =
      bounded_push QUEUE_MAX_SIZE (node_of a) (queue_content items (ack_queue (shared y)))"
    and "ack_sends s = ack_sends (shared y)" and "queue_content items (ack_queue (shared y)) = ns"
  shows "\<exists>z. (sys_step E C node q aq)\<^sup>*\<^sup>* y z \<and>
     ack_sends (shared z) = ack_sends (shared y) @ map data (last_n QUEUE_MAX_SIZE (ns @ [node_of a])) \<and>
     last (ack_sends (shared z)) = encode_msg a \<and> queue_content items (ack_queue (shared z)) = []"
proof -
  let ?ns = "last_n QUEUE_MAX_SIZE (ns @ [node_of a])"
  have "length ns \<le> QUEUE_MAX_SIZE"
    using assms(1,6) by (auto simp: sys_inv_def shared_inv_def acks_ok_def intro: queue_bound)
  then have q: "queue_content items (ack_queue s) = ?ns"
    using fold_bounded_push_last_n [OF QUEUE_MAX_SIZE_pos(2), of ns "[node_of a]"] assms(4,6) by simp
  from drain_acks [OF sys_step_keeps [OF assms(1,3)], of ?ns] q assms(2,5) obtain z where
    z: "(sys_step E C node q aq)\<^sup>*\<^sup>* (y\<lparr>shared := s\<rparr>) z" "queue_content items (ack_queue (shared z)) = []"
      "ack_sends (shared z) = ack_sends (shared y) @ map data ?ns" by auto
  have "last (ack_sends (shared z)) = encode_msg a"
    using QUEUE_MAX_SIZE_pos(2) by (simp add: z(3) last_n_def last_map)
  with z converse_rtranclp_into_rtranclp [of "sys_step E C node q aq", OF assms(3) z(1)] show ?thesis by blast
qed

end

context clock_world
begin

subsection \<open>From a timer signal to the traps\<close>

lemma tick_queues_traps:
  assumes "sys_inv items wfq y" and "flag_trap (shared y)"
  shows "\<exists>s ms. (sys_step E C node q aq)\<^sup>*\<^sup>* y (y\<lparr>shared := s\<rparr>) \<and>
     traps_of E (hist (shared y)) (ClockParameter s) [0x70, 0x71, 0x72, 0x73, 0x74, 0x75] ms \<and>
     queue_content items (send_queue s) =
       fold (bounded_push QUEUE_MAX_SIZE) (map node_of ms) (queue_content items (send_queue (shared y))) \<and>
     trap_sends s = trap_sends (shared y) \<and> sem_full s = sem_full (shared y) + 6 \<and> flag_trap s"
proof -
  let ?t = "signal_handler (shared y)"
  have ok: "snmp_inv items wfq ?t" "0 < sem_mutex ?t" "trapsignal ?t = Suc (trapsignal (shared y))" "flag_trap ?t"
    using assms by (simp_all add: sys_inv_def shared_inv_def traps_ok_def snmp_inv_def signal_handler_def)
  obtain s ms where s: "second_task_turn E C ?t = Done s"
      "trap_queued items wfq ms (ticked (trapsignal (shared y)) ?t) s"
      "traps_of E (hist ?t) (ClockParameter (ticked (trapsignal (shared y)) ?t))
         [0x70, 0x71, 0x72, 0x73, 0x74, 0x75] ms"
    by (rule second_task_queues [OF ok])
  have "sys_step E C node q aq y (y\<lparr>shared := ?t\<rparr>)" by (rule sys_step.timer)
  moreover have "sys_step E C node q aq (y\<lparr>shared := ?t\<rparr>) (y\<lparr>shared := s\<rparr>)"
    using sys_step.second [of E C "y\<lparr>shared := ?t\<rparr>" s] s(1) by simp
  moreover have "trap_sends s = trap_sends (shared y)"
    using sends_same(1) [OF traffic_second_task [OF s(1)]] by (simp add: trap_sends_def signal_handler_def)
  moreover have "queue_content items (send_queue s) =
      fold (bounded_push QUEUE_MAX_SIZE) (map node_of ms) (queue_content items (send_queue (shared y)))"
    using s(2) by (simp add: trap_queued_def ticked_def signal_handler_def)
  moreover have "sem_full s = sem_full (shared y) + 6" "flag_trap s"
    using trap_queued_simps(4,5) [OF s(2)] traps_of_props(1) [OF s(3)] assms(2)
    by (simp_all add: ticked_def signal_handler_def)
  moreover have "traps_of E (hist (shared y)) (ClockParameter s) [0x70, 0x71, 0x72, 0x73, 0x74, 0x75] ms"
    using s(3) trap_queued_simps(3) [OF s(2)] by (simp add: signal_handler_def del: traps_of.simps)
  ultimately show ?thesis
    by (intro exI [of _ s] exI [of _ ms]) (auto simp del: traps_of.simps intro: converse_rtranclp_into_rtranclp)
qed

end

subsection \<open>A system to start from\<close>

text \<open>A master whose threads have just started, with an agent that asks for the mode.\<close>

definition start_st :: "sn_msg_param list app_st" where
  "start_st = clock_st\<lparr>hist := start_events CLOCK_MASTER, ClockParameter := clock_para_0\<lparr>device_mode := 1\<rparr>\<rparr>"

definition start_system :: "sn_msg_param list clock_system" where
  "start_system =
     \<lparr>shared = start_st, ptp_vars = locals_0, send_msg = zeros QUEUE_LEN, ack_msg_buf = zeros QUEUE_LEN,
      ptp_alive = True, send_alive = True, ack_alive = True\<rparr>"

lemma start_system_starts: "sys_start (\<lambda>q. q) (\<lambda>q. True) start_system"
proof -
  have "clock_para_wf (clock_para_0\<lparr>device_mode := 1\<rparr>)" by (simp add: clock_para_wf_status clock_para_wf_0)
  then show ?thesis
    by (simp add: sys_start_def start_system_def start_st_def ready_def snmp_inv_def clock_st_def queue_ok_def
        mode_defs)
qed

lemma start_system_sends: "trap_sends (shared start_system) = []" "ack_sends (shared start_system) = []"
  by (simp_all add: start_system_def start_st_def trap_sends_def ack_sends_def start_events_def
      service_threads_def)

lemma start_system_simps:
  "send_queue start_st = Some []" "sem_mutex start_st = 1" "ack_queue start_st = Some []" "ack_sem start_st = 0"
  "shared start_system = start_st"
  "ack_alive start_system"
  by (simp_all add: start_system_def start_st_def clock_st_def)

text \<open>A well-behaved world whose agent repeats one request without a text.\<close>

lemma recv_world:
  assumes "request_ok (request ty code [])"
  shows "clock_world list_cstl (\<lambda>q. q) (\<lambda>q. True) (recv_env ty (short_text code)) rq"
proof -
  have "\<exists>m. received_msg ty' bs = Some m \<and> request_ok m"
    if "e_msgrcv (recv_env ty (short_text code)) h q n t f = Some (ty', bs)" for h q n t f ty' bs
    using that assms received_short [of ty code] by (auto simp: recv_env_def)
  moreover have "length (e_ctime (recv_env ty (short_text code)) h t) < PARAM_LEN" for h t
    by (simp add: recv_env_def route_env_def idle_env_def PARAM_LEN_def)
  ultimately show ?thesis
    by (simp add: clock_world_def clock_world_axioms_def snmp_agent_def snmp_agent_axioms_def
        lq.cstl_queue_axioms routes_ok_recv_env)
qed

text \<open>Its agent asks for the mode, which opens the gate for the traps.\<close>

lemma start_request:
  "e_msgrcv (recv_env CMD_GET (short_text 0x60)) h q n t f = Some (CMD_GET, short_text 0x60)"
  "received_msg CMD_GET (short_text 0x60) = Some (request CMD_GET 0x60 [])"
  "answer start_st 0x60 = Some ''Master''"
  by (simp add: recv_env_def, rule received_short)
    (simp add: answer_def code_defs mode_text_def, simp add: start_st_def clock_st_def)

lemma start_reach:
  "reach (sys_start (\<lambda>q. q) (\<lambda>q. True))
     (sys_step (recv_env CMD_GET (short_text 0x60)) list_cstl sample_node 0 0) start_system"
  by (rule reach_init) (rule start_system_starts)

lemma start_gate:
  obtains s where "sys_step (recv_env CMD_GET (short_text 0x60)) list_cstl sample_node 0 0
      start_system (start_system\<lparr>shared := s\<rparr>)" and "flag_trap s"
  using mode_world.get_queues_answer [OF mode_world.reach_inv [OF start_reach] start_request(1,2), of "''Master''"]
  by (auto simp: start_request(3) start_system_simps)

lemma start_keeps_queue: "0 \<le> e_msgget (recv_env CMD_GET (short_text 0x60)) h KEY_ID_SEND IPC_EXCL"
  by (simp add: recv_env_def route_env_def idle_env_def)

subsection \<open>Properties\<close>

text \<open>
  C3. A GET request for a value the state holds can be answered, in the whole program: in any state
  the threads reach with the acknowledgement thread still alive, when a GET for one of the eight
  codes 0x32 and 0x60 to 0x66 (device type, mode, the three versions, model, the two times) is the
  next message of the agent, the receiving thread and then the acknowledgement thread have turns
  that hand the kernel what was queued before (but for the oldest message, if the queue was full)
  and last the answer: same code, no error, and the text that the state holds for it. Nothing is
  said of the other codes, nor after the acknowledgement thread has ended. The container, the
  agent, \<open>ip route\<close> and \<open>ctime\<close> are assumed to behave as in \<open>clock_world\<close>.
\<close>

theorem request_is_answered:
  assumes "clock_world C items wfq E rq"
    and "reach (sys_start items wfq) (sys_step E C node rq aq) y" and "ack_alive y"
    and "e_msgrcv E (hist (shared y)) rq QUEUE_LEN 0 0 = Some (ty, bs)" and "received_msg ty bs = Some m"
    and "msg_type m = CMD_GET" and "answer (shared y) (oper_code (snmp_msg m)) = Some tx"
    and "queue_content items (ack_queue (shared y)) = ns"
  shows "\<exists>z a. (sys_step E C node rq aq)\<^sup>*\<^sup>* y z \<and> ack_msg (oper_code (snmp_msg m)) 0 tx a \<and>
     ack_sends (shared z) = ack_sends (shared y) @ map data (last_n QUEUE_MAX_SIZE (ns @ [node_of a])) \<and>
     last (ack_sends (shared z)) = encode_msg a \<and> queue_content items (ack_queue (shared z)) = []"
proof -
  note inv = clock_world.reach_inv [OF assms(1,2)]
  from clock_world.get_queues_answer [OF assms(1) inv assms(4-7), of node aq] obtain s a where
    "sys_step E C node rq aq y (y\<lparr>shared := s\<rparr>)" "ack_msg (oper_code (snmp_msg m)) 0 tx a"
    "queue_content items (ack_queue s) =
       bounded_push QUEUE_MAX_SIZE (node_of a) (queue_content items (ack_queue (shared y)))"
    "ack_sends s = ack_sends (shared y)" by blast
  with clock_world.queued_answer_sent [OF assms(1) inv assms(3) this(1,3,4) assms(8)] show ?thesis by blast
qed

theorem request_is_answered_witness:
  "\<exists>z a. (sys_step (recv_env CMD_GET (short_text 0x60)) list_cstl sample_node 0 0)\<^sup>*\<^sup>* start_system z \<and>
     ack_msg 0x60 0 ''Master'' a \<and> ack_sends (shared z) = [encode_msg a]"
proof -
  from request_is_answered [OF mode_world.clock_world_axioms start_reach start_system_simps(6) start_request(1,2), of "''Master''" "[]"]
  obtain z a where "(sys_step (recv_env CMD_GET (short_text 0x60)) list_cstl sample_node 0 0)\<^sup>*\<^sup>* start_system z"
      "ack_msg 0x60 0 ''Master'' a"
      "ack_sends (shared z) = ack_sends (shared start_system) @ map data (last_n QUEUE_MAX_SIZE ([] @ [node_of a]))"
    by (auto simp: start_request(3) start_system_simps)
  then show ?thesis
    using QUEUE_MAX_SIZE_pos by (auto simp: start_system_sends last_n_def)
qed

text \<open>
  C4. A SET request for the address, the netmask or the gateway can be acknowledged in the whole
  program: in any state the threads reach with the acknowledgement thread still alive, when such a
  request, with a NUL in its text, is the next message of the agent, the receiving thread applies
  the setter and the acknowledgement thread has turns that hand the kernel what was queued before
  (but for the oldest message, if the queue was full) and last the acknowledgement: same code, no
  text, and the error code 0 or -1 that the setter's result \<open>r\<close> stands for. Nothing is said after
  the acknowledgement thread has ended. The container, the agent, \<open>ip route\<close> and \<open>ctime\<close> are
  assumed to behave as in \<open>clock_world\<close>.
\<close>

theorem set_request_is_acknowledged:
  assumes "clock_world C items wfq E rq"
    and "reach (sys_start items wfq) (sys_step E C node rq aq) y" and "ack_alive y"
    and "e_msgrcv E (hist (shared y)) rq QUEUE_LEN 0 0 = Some (ty, bs)" and "received_msg ty bs = Some m"
    and "msg_type m = CMD_SET" and "oper_code (snmp_msg m) \<in> set net_codes" and "has_nul (u_data (snmp_msg m))"
    and "net_setter E (oper_code (snmp_msg m)) (msg_data_str m) (taken rq m (shared y)) = (r, s1)"
    and "queue_content items (ack_queue (shared y)) = ns"
  shows "\<exists>z a. (sys_step E C node rq aq)\<^sup>*\<^sup>* y z \<and>
     ack_msg (oper_code (snmp_msg m)) (if r \<noteq> 0 then -1 else 0) [] a \<and>
     ack_sends (shared z) = ack_sends (shared y) @ map data (last_n QUEUE_MAX_SIZE (ns @ [node_of a])) \<and>
     last (ack_sends (shared z)) = encode_msg a \<and> queue_content items (ack_queue (shared z)) = []"
proof -
  note inv = clock_world.reach_inv [OF assms(1,2)]
  from clock_world.set_queues_answer [OF assms(1) inv assms(4-9), of node aq] obtain s a where
    "sys_step E C node rq aq y (y\<lparr>shared := s\<rparr>)"
    "ack_msg (oper_code (snmp_msg m)) (if r \<noteq> 0 then -1 else 0) [] a"
    "queue_content items (ack_queue s) =
       bounded_push QUEUE_MAX_SIZE (node_of a) (queue_content items (ack_queue (shared y)))"
    "ack_sends s = ack_sends (shared y)" by blast
  with clock_world.queued_answer_sent [OF assms(1) inv assms(3) this(1,3,4) assms(10)] show ?thesis by blast
qed

theorem set_request_is_acknowledged_witness:
  "\<exists>z a. (sys_step (recv_env CMD_SET (short_text 0x01)) list_cstl sample_node 0 0)\<^sup>*\<^sup>* start_system z \<and>
     ack_msg 0x01 (- 1) [] a \<and> ack_sends (shared z) = [encode_msg a]"
proof -
  let ?E = "recv_env CMD_SET (short_text 0x01)" and ?m = "request CMD_SET 0x01 []"
  have "request_ok ?m" by (simp add: request_ok_def handled_codes_def len_defs)
  then have world: "clock_world list_cstl (\<lambda>q. q) (\<lambda>q. True) ?E 0" by (rule recv_world)
  have start: "reach (sys_start (\<lambda>q. q) (\<lambda>q. True)) (sys_step ?E list_cstl sample_node 0 0) start_system"
    by (rule reach_init) (rule start_system_starts)
  have msg: "received_msg CMD_SET (short_text 0x01) = Some ?m" by (rule received_short)
  have "inet_aton [] = None"
    by (simp add: inet_aton_def aton_parts.simps strtoul0_def isdigit_def isspace_def)
  then have setter: "net_setter ?E 0x01 [] s = (-1, s)" for s :: "sn_msg_param list app_st"
    by (simp add: net_setter_def code_defs set_ipaddress_def is_valid_ip_def)
  have "e_msgrcv ?E h q n t f = Some (CMD_SET, short_text 0x01)" for h q n t f by (simp add: recv_env_def)
  moreover have "oper_code (snmp_msg ?m) \<in> set net_codes" "has_nul (u_data (snmp_msg ?m))"
      "net_setter ?E (oper_code (snmp_msg ?m)) (msg_data_str ?m) (taken 0 ?m (shared start_system)) =
        (-1, taken 0 ?m (shared start_system))" "msg_type ?m = CMD_SET"
    by (simp_all add: net_codes_def code_defs len_defs setter)
  ultimately obtain z a where "(sys_step ?E list_cstl sample_node 0 0)\<^sup>*\<^sup>* start_system z"
      "ack_msg 0x01 (- 1) [] a"
      "ack_sends (shared z) = ack_sends (shared start_system) @ map data (last_n QUEUE_MAX_SIZE ([] @ [node_of a]))"
    using set_request_is_acknowledged [OF world start start_system_simps(6) _ msg,
        where r = "-1" and ?s1.0 = "taken 0 ?m (shared start_system)" and ns = "[]"]
    by (auto simp: start_system_simps)
  then show ?thesis
    using QUEUE_MAX_SIZE_pos by (auto simp: start_system_sends last_n_def)
qed

text \<open>
  C5. A timer signal can reach the agent as traps, in the whole program: in any state the threads
  reach after the first request with the trap thread still alive, and as long as the kernel keeps
  the queue of the traps at all times, a timer signal, a turn of the second task and turns of the
  trap thread hand the kernel what was queued before (but for the oldest messages, if the queue
  overflows) and last the six traps 0x70 to 0x75, each with the state that the parameter block
  holds and the address that the kernel reports for the interface when the trap is composed.
  Nothing is said after the trap thread has ended. The container, the agent, \<open>ip route\<close> and
  \<open>ctime\<close> are assumed to behave as in \<open>clock_world\<close>.
\<close>

theorem tick_reaches_agent:
  assumes "clock_world C items wfq E rq"
    and "reach (sys_start items wfq) (sys_step E C node rq aq) y" and "send_alive y"
    and "flag_trap (shared y)" and "\<And>h. 0 \<le> e_msgget E h KEY_ID_SEND IPC_EXCL"
    and "queue_content items (send_queue (shared y)) = ns"
  shows "\<exists>z ms. (sys_step E C node rq aq)\<^sup>*\<^sup>* y z \<and>
     traps_of E (hist (shared y)) (ClockParameter (shared z)) [0x70, 0x71, 0x72, 0x73, 0x74, 0x75] ms \<and>
     trap_sends (shared z) =
       trap_sends (shared y) @ map data (last_n QUEUE_MAX_SIZE (ns @ map node_of ms)) \<and>
     suffix (map encode_msg ms) (trap_sends (shared z)) \<and> queue_content items (send_queue (shared z)) = []"
proof -
  note inv = clock_world.reach_inv [OF assms(1,2)]
  have "length ns \<le> QUEUE_MAX_SIZE"
    using inv assms(6) clock_world.axioms(1) [OF assms(1)]
    by (auto simp: sys_inv_def shared_inv_def traps_ok_def snmp_agent_def intro: cstl_queue.queue_bound)
  note push = fold_bounded_push_last_n [OF QUEUE_MAX_SIZE_pos(2) this]
  from clock_world.tick_queues_traps [OF assms(1) inv assms(4), of node aq] obtain s ms where
    run: "(sys_step E C node rq aq)\<^sup>*\<^sup>* y (y\<lparr>shared := s\<rparr>)"
    and ms: "traps_of E (hist (shared y)) (ClockParameter s) [0x70, 0x71, 0x72, 0x73, 0x74, 0x75] ms"
    and q: "queue_content items (send_queue s) = last_n QUEUE_MAX_SIZE (ns @ map node_of ms)"
    and sent: "trap_sends s = trap_sends (shared y)" unfolding assms(6) push by blast
  have "reach (sys_start items wfq) (sys_step E C node rq aq) (y\<lparr>shared := s\<rparr>)"
    by (rule reach_rtranclp [OF assms(2) run])
  from clock_world.drain_traps [OF assms(1) clock_world.reach_inv [OF assms(1) this] _ _ assms(5), of _ node aq]
    q assms(3) sent
  obtain z where z: "(sys_step E C node rq aq)\<^sup>*\<^sup>* (y\<lparr>shared := s\<rparr>) z"
      "trap_sends (shared z) = trap_sends (shared y) @ map data (last_n QUEUE_MAX_SIZE (ns @ map node_of ms))"
      "queue_content items (send_queue (shared z)) = []" "ClockParameter (shared z) = ClockParameter s" by auto
  have "suffix (map node_of ms) (last_n QUEUE_MAX_SIZE (ns @ map node_of ms))"
    using traps_of_props(1) [OF ms] QUEUE_MAX_SIZE_pos by (intro suffix_last_n) simp
  from map_mono_suffix [OF this, of data] have "suffix (map encode_msg ms) (trap_sends (shared z))"
    unfolding z(2) by (intro suffix_appendI) (simp add: comp_def)
  with z ms run show ?thesis
    by (intro exI [of _ z] exI [of _ ms]) (auto simp del: traps_of.simps intro: rtranclp_trans)
qed

theorem tick_reaches_agent_witness:
  "\<exists>y z ms. (sys_step (recv_env CMD_GET (short_text 0x60)) list_cstl sample_node 0 0)\<^sup>*\<^sup>* start_system y \<and>
     (sys_step (recv_env CMD_GET (short_text 0x60)) list_cstl sample_node 0 0)\<^sup>*\<^sup>* y z \<and>
     length ms = 6 \<and> suffix (map encode_msg ms) (trap_sends (shared z))"
proof -
  let ?step = "sys_step (recv_env CMD_GET (short_text 0x60)) list_cstl sample_node 0 0"
  obtain s where s: "?step start_system (start_system\<lparr>shared := s\<rparr>)" "flag_trap s" by (rule start_gate)
  from tick_reaches_agent [OF mode_world.clock_world_axioms reach_step [OF start_reach s(1)] _ _ start_keeps_queue refl] s(2)
  obtain z ms where "?step\<^sup>*\<^sup>* (start_system\<lparr>shared := s\<rparr>) z" "suffix (map encode_msg ms) (trap_sends (shared z))"
      "traps_of (recv_env CMD_GET (short_text 0x60)) (hist s) (ClockParameter (shared z))
        [0x70, 0x71, 0x72, 0x73, 0x74, 0x75] ms"
    by (auto simp: start_system_def simp del: traps_of.simps)
  with traps_of_props(1) [OF this(3)] r_into_rtranclp [of ?step, OF s(1)] show ?thesis
    by (intro exI [of _ "start_system\<lparr>shared := s\<rparr>"] exI [of _ z] exI [of _ ms]) simp
qed

text \<open>
  Progress of the whole program: in every state that the threads reach, the acknowledgement thread,
  as long as it has not ended, can take a turn that hands the oldest queued acknowledgement to
  the kernel; and so can the trap thread with the oldest queued trap, as long as the kernel
  still knows its queue. Neither ever waits in vain for a token or for the mutex.
\<close>

theorem queued_message_is_sent_next:
  assumes "clock_world C items wfq E rq"
    and "reach (sys_start items wfq) (sys_step E C node rq aq) y"
  shows "(\<forall>n ns. ack_alive y \<and> queue_content items (ack_queue (shared y)) = n # ns \<longrightarrow>
       (\<exists>z. sys_step E C node rq aq y z \<and> ack_sends (shared z) = ack_sends (shared y) @ [data n] \<and>
            queue_content items (ack_queue (shared z)) = ns)) \<and>
     (\<forall>n ns. send_alive y \<and> queue_content items (send_queue (shared y)) = n # ns \<and>
          0 \<le> e_msgget E (hist (shared y)) KEY_ID_SEND IPC_EXCL \<longrightarrow>
       (\<exists>z. sys_step E C node rq aq y z \<and> trap_sends (shared z) = trap_sends (shared y) @ [data n] \<and>
            queue_content items (send_queue (shared z)) = ns))"
  using clock_world.next_ack [OF assms(1) clock_world.reach_inv [OF assms]]
    clock_world.next_trap [OF assms(1) clock_world.reach_inv [OF assms]] by blast

theorem queued_message_is_sent_next_witness:
  "\<exists>s. snmp_recv_turn (recv_env CMD_GET (short_text 0x60)) list_cstl 0 start_st = Inr s \<and>
     (\<exists>z m. sys_step (recv_env CMD_GET (short_text 0x60)) list_cstl sample_node 0 0
            (start_system\<lparr>shared := s\<rparr>) z \<and>
          ack_sends (shared z) = [encode_msg m] \<and> ack_msg 0x60 0 ''Master'' m)"
proof -
  let ?E = "recv_env CMD_GET (short_text 0x60)" and ?m = "request CMD_GET 0x60 []"
  let ?t = "taken 0 ?m start_st" and ?h = "[Ev_msgrcv 0 QUEUE_LEN 0 0]"
  have t: "?t = start_st\<lparr>hist := hist start_st @ ?h, flag_trap := True\<rparr>"
    by (simp add: taken_def emit_def Let_def request_def)
  have "answer ?t (oper_code (snmp_msg ?m)) = Some ''Master''"
    by (simp add: answer_def code_defs mode_text_def t) (simp add: start_st_def clock_st_def)
  moreover have "queue_ok (\<lambda>q. q) (\<lambda>q. True) (ack_queue ?t)" "clock_para_wf (ClockParameter ?t)"
      "SnmpData ?t = init_SnmpData SnmpData_0"
    using start_system_starts by (simp_all add: t sys_start_def ready_def snmp_inv_def start_system_simps)
  moreover have "msg_type ?m = CMD_GET" by (simp add: request_def)
  ultimately obtain s where d: "dispatch ?E list_cstl ?m ?t = Inr (0, s)"
      and r: "replied (\<lambda>q. q) (\<lambda>q. True) (oper_code (snmp_msg ?m)) 0 ''Master'' ?t s"
    using cstl_queue.get_replies [OF lq.cstl_queue_axioms, of ?t ?m _ ?E] by blast
  have recv: "snmp_recv_turn ?E list_cstl 0 start_st = Inr s"
    by (rule recv_turn_taken [OF _ _ d]) (simp_all add: recv_env_def, simp add: received_short)
  from r obtain a where a: "ack_msg 0x60 0 ''Master'' a"
      "queue_content (\<lambda>q. q) (ack_queue s) = [node_of a]"
    by (auto simp: replied_def t start_system_simps bounded_push_def QUEUE_MAX_SIZE_def)
  let ?y = "start_system\<lparr>shared := s\<rparr>"
  have "reach (sys_start (\<lambda>q. q) (\<lambda>q. True)) (sys_step ?E list_cstl sample_node 0 0) ?y"
    by (rule reach_step, rule reach_init, rule start_system_starts, rule sys_step.recv)
      (simp add: start_system_simps recv)
  from queued_message_is_sent_next [OF mode_world.clock_world_axioms this] a(2)
  obtain z where "sys_step ?E list_cstl sample_node 0 0 ?y z" "ack_sends (shared z) = ack_sends s @ [encode_msg a]"
    by (auto simp: start_system_simps)
  moreover have "ack_sends s = []"
    using sends_same(2) [OF traffic_recv_turn [OF recv]] start_system_sends by (simp add: start_system_simps)
  ultimately show ?thesis using recv a(1) by auto
qed

end
