(* ===== verification/Trap_Pipeline.thy ===== *)
theory Trap_Pipeline
  imports Snmp_Threads "HOL-Library.Sublist"
begin

text \<open>
  The trap queue between its two threads, at the grain of the semaphore and queue calls:
  \<open>snmp_data_trap\<close> waits for the mutex, pushes, releases the mutex and posts a token;
  \<open>pthread_snmp_send\<close> waits for a token and for the mutex, gets, pops, releases the mutex and
  sends. The calls of the two threads interleave in any way. Shown are mutual exclusion, the
  account of tokens, the order of what is sent, absence of deadlock, and when the sender ends.
\<close>

subsection \<open>The machine\<close>

text \<open>
  Where each thread is; a popped message is in the sender's hand until it is sent. The sender
  ends in \<open>S_dead\<close> when it could not pop, and in \<open>S_lost\<close> when the kernel does not know its queue.
\<close>

datatype prod_pc = P_idle | P_locked queue_msg_t | P_failed | P_pushed | P_unlocked

datatype cons_pc = S_idle | S_counted | S_locked | S_got sn_msg_param | S_missed | S_retry
  | S_popped sn_msg_param | S_send sn_msg_param | S_leaving | S_dead | S_lost

text \<open>
  The shared variables, the program counters, and three variables the program does not have:
  what was pushed, what was sent, and how many messages an overflowing push has dropped.
\<close>

record 'q pipe =
  trap_q :: "'q option"
  mutex :: nat
  full :: nat
  prod :: prod_pc
  cons :: cons_pc
  pushed :: "sn_msg_param list"
  sent :: "sn_msg_param list"
  dropped :: nat

text \<open>
  A turn of the sender starts with \<open>msgget\<close>, whose answer is the kernel's: the thread goes on to
  wait for a token (\<open>s_count\<close>) or returns (\<open>s_lost\<close>).
\<close>

definition overflows :: "'q cstl_ops \<Rightarrow> 'q option \<Rightarrow> nat" where
  "overflows C q = (if SN_Free_Lock_Queue_full C q = 1 then 1 else 0)"

inductive pipe_step :: "'q cstl_ops \<Rightarrow> sn_msg_param \<Rightarrow> 'q pipe \<Rightarrow> 'q pipe \<Rightarrow> bool"
  for C node where
  p_lock: "prod x = P_idle \<Longrightarrow> msg_wf m \<Longrightarrow> sem_wait (mutex x) = Some v \<Longrightarrow>
     pipe_step C node x (x\<lparr>mutex := v, prod := P_locked m\<rparr>)"
| p_push: "prod x = P_locked m \<Longrightarrow> push_msg C m (trap_q x) = Some (ret, q) \<Longrightarrow> ret \<noteq> -1 \<Longrightarrow>
     pipe_step C node x (x\<lparr>trap_q := q, prod := P_pushed, pushed := pushed x @ [node_of m],
       dropped := dropped x + overflows C (trap_q x)\<rparr>)"
| p_push_fails: "prod x = P_locked m \<Longrightarrow> push_msg C m (trap_q x) = Some (-1, q) \<Longrightarrow>
     pipe_step C node x (x\<lparr>trap_q := q, prod := P_failed\<rparr>)"
| p_give_up: "prod x = P_failed \<Longrightarrow> pipe_step C node x (x\<lparr>mutex := mutex x + 1, prod := P_idle\<rparr>)"
| p_unlock: "prod x = P_pushed \<Longrightarrow> pipe_step C node x (x\<lparr>mutex := mutex x + 1, prod := P_unlocked\<rparr>)"
| p_post: "prod x = P_unlocked \<Longrightarrow> pipe_step C node x (x\<lparr>full := full x + 1, prod := P_idle\<rparr>)"
| s_lost: "cons x = S_idle \<Longrightarrow> pipe_step C node x (x\<lparr>cons := S_lost\<rparr>)"
| s_count: "cons x = S_idle \<Longrightarrow> sem_wait (full x) = Some v \<Longrightarrow>
     pipe_step C node x (x\<lparr>full := v, cons := S_counted\<rparr>)"
| s_lock: "cons x = S_counted \<Longrightarrow> sem_wait (mutex x) = Some v \<Longrightarrow>
     pipe_step C node x (x\<lparr>mutex := v, cons := S_locked\<rparr>)"
| s_get: "cons x = S_locked \<Longrightarrow>
     SN_Free_Lock_Queue_Get C (Some node) (trap_q x) = Some (0, Some n) \<Longrightarrow>
     pipe_step C node x (x\<lparr>cons := S_got n\<rparr>)"
| s_get_fails: "cons x = S_locked \<Longrightarrow>
     SN_Free_Lock_Queue_Get C (Some node) (trap_q x) = Some (ret, Some n) \<Longrightarrow> ret \<noteq> 0 \<Longrightarrow>
     pipe_step C node x (x\<lparr>cons := S_missed\<rparr>)"
| s_pop: "cons x = S_got n \<Longrightarrow> SN_Free_Lock_Queue_Pop C (trap_q x) = (0, q) \<Longrightarrow>
     pipe_step C node x (x\<lparr>trap_q := q, cons := S_popped n\<rparr>)"
| s_pop_missed: "cons x = S_missed \<Longrightarrow> SN_Free_Lock_Queue_Pop C (trap_q x) = (0, q) \<Longrightarrow>
     pipe_step C node x (x\<lparr>trap_q := q, cons := S_retry\<rparr>)"
| s_pop_fails: "cons x = S_missed \<or> cons x = S_got n \<Longrightarrow>
     SN_Free_Lock_Queue_Pop C (trap_q x) = (ret, q) \<Longrightarrow> ret \<noteq> 0 \<Longrightarrow>
     pipe_step C node x (x\<lparr>trap_q := q, cons := S_leaving\<rparr>)"
| s_unlock: "cons x = S_popped n \<Longrightarrow>
     pipe_step C node x (x\<lparr>mutex := mutex x + 1, cons := S_send n\<rparr>)"
| s_unlock_retry: "cons x = S_retry \<Longrightarrow>
     pipe_step C node x (x\<lparr>mutex := mutex x + 1, cons := S_idle\<rparr>)"
| s_unlock_exit: "cons x = S_leaving \<Longrightarrow>
     pipe_step C node x (x\<lparr>mutex := mutex x + 1, cons := S_dead\<rparr>)"
| s_send: "cons x = S_send n \<Longrightarrow>
     pipe_step C node x (x\<lparr>sent := sent x @ [n], cons := S_idle\<rparr>)"

definition pipe_start :: "('q \<Rightarrow> sn_msg_param list) \<Rightarrow> ('q \<Rightarrow> bool) \<Rightarrow> 'q pipe \<Rightarrow> bool" where
  "pipe_start items wfq x \<longleftrightarrow>
     queue_ok items wfq (trap_q x) \<and> queue_content items (trap_q x) = [] \<and> mutex x = 1 \<and>
     full x = 0 \<and> prod x = P_idle \<and> cons x = S_idle \<and> pushed x = [] \<and> sent x = [] \<and> dropped x = 0"

subsection \<open>The invariant\<close>

fun prod_holds :: "prod_pc \<Rightarrow> bool" where
  "prod_holds (P_locked m) = True"
| "prod_holds P_failed = True"
| "prod_holds P_pushed = True"
| "prod_holds _ = False"

fun cons_holds :: "cons_pc \<Rightarrow> bool" where
  "cons_holds S_locked = True"
| "cons_holds (S_got n) = True"
| "cons_holds S_missed = True"
| "cons_holds S_retry = True"
| "cons_holds (S_popped n) = True"
| "cons_holds S_leaving = True"
| "cons_holds _ = False"

fun in_hand :: "cons_pc \<Rightarrow> sn_msg_param list" where
  "in_hand (S_popped n) = [n]"
| "in_hand (S_send n) = [n]"
| "in_hand _ = []"

text \<open>A token the producer still has to post, and one the sender has taken for its present turn.\<close>

definition owed :: "prod_pc \<Rightarrow> nat" where
  "owed p = (if p = P_pushed \<or> p = P_unlocked then 1 else 0)"

definition taken_token :: "cons_pc \<Rightarrow> nat" where
  "taken_token c = (if c = S_idle \<or> c = S_lost then 0 else 1)"

text \<open>What each point of the sender knows about the queue.\<close>

fun cons_knows :: "sn_msg_param list \<Rightarrow> nat \<Rightarrow> cons_pc \<Rightarrow> bool" where
  "cons_knows xs d (S_got n) = (xs \<noteq> [] \<and> hd xs = n)"
| "cons_knows xs d S_missed = (xs = [] \<and> 0 < d)"
| "cons_knows xs d S_leaving = (xs = [] \<and> 0 < d)"
| "cons_knows xs d S_dead = (0 < d)"
| "cons_knows xs d S_retry = False"
| "cons_knows xs d _ = True"

fun prod_knows :: "prod_pc \<Rightarrow> bool" where
  "prod_knows (P_locked m) = msg_wf m"
| "prod_knows P_failed = False"
| "prod_knows _ = True"

definition pipe_inv :: "('q \<Rightarrow> sn_msg_param list) \<Rightarrow> ('q \<Rightarrow> bool) \<Rightarrow> 'q pipe \<Rightarrow> bool" where
  "pipe_inv items wfq x \<longleftrightarrow>
     (let xs = queue_content items (trap_q x); out = sent x @ in_hand (cons x) @ xs
      in queue_ok items wfq (trap_q x) \<and>
         mutex x + of_bool (prod_holds (prod x)) + of_bool (cons_holds (cons x)) = 1 \<and>
         length (pushed x) = full x + owed (prod x) + taken_token (cons x) + length (sent x) \<and>
         length (pushed x) = length out + dropped x \<and>
         subseq out (pushed x) \<and>
         cons_knows xs (dropped x) (cons x) \<and> prod_knows (prod x))"

lemma pipe_invD:
  assumes "pipe_inv items wfq x"
  shows "queue_ok items wfq (trap_q x)"
    and "mutex x + of_bool (prod_holds (prod x)) + of_bool (cons_holds (cons x)) = 1"
    and "length (pushed x) = full x + owed (prod x) + taken_token (cons x) + length (sent x)"
    and "length (pushed x) = length (sent x) + length (in_hand (cons x)) +
           length (queue_content items (trap_q x)) + dropped x"
    and "subseq (sent x @ in_hand (cons x) @ queue_content items (trap_q x)) (pushed x)"
    and "cons_knows (queue_content items (trap_q x)) (dropped x) (cons x)"
    and "prod_knows (prod x)"
  using assms by (simp_all add: pipe_inv_def Let_def)

lemma sem_wait_Some: "sem_wait v = Some w \<longleftrightarrow> v = Suc w"
  by (cases v) (auto simp: sem_wait_def)

lemma subseq_push: "subseq xs ys \<Longrightarrow> subseq (xs @ [a]) (ys @ [a])"
  by (simp add: list_emb_append_mono)

lemma subseq_drop_mid: "subseq (ys @ tl xs) (ys @ xs)"
  by (cases xs) (auto intro: list_emb_append_mono)

lemma subseq_bounded_push:
  assumes "subseq (ys @ xs) zs"
  shows "subseq (ys @ bounded_push cap m xs) (zs @ [m])"
proof -
  have "subseq (ys @ tl xs) zs" using subseq_drop_mid assms by (rule subseq_order.trans)
  then have "subseq ((ys @ tl xs) @ [m]) (zs @ [m])" "subseq ((ys @ xs) @ [m]) (zs @ [m])"
    using assms by (simp_all only: subseq_push)
  then show ?thesis by (simp add: bounded_push_def)
qed

lemma length_bounded_push_eq:
  "0 < cap \<Longrightarrow> length (bounded_push cap m xs) = (if cap \<le> length xs then length xs else Suc (length xs))"
  by (cases xs) (auto simp: bounded_push_def)

lemma cons_knows_mono: "cons_knows xs d c \<Longrightarrow> d \<le> d' \<Longrightarrow> cons_knows xs d' c"
  by (cases c) auto

lemma cons_knows_free: "\<not> cons_holds c \<Longrightarrow> cons_knows xs d c \<Longrightarrow> cons_knows ys d c"
  by (cases c) auto

context cstl_queue
begin

lemma overflows_eq:
  "queue_ok items wfq p \<Longrightarrow>
     overflows C p = (if QUEUE_MAX_SIZE \<le> length (queue_content items p) then 1 else 0)"
  by (auto simp: overflows_def queue_ok_def full_iff split: option.splits)

lemma push_step_inv:
  assumes inv: "pipe_inv items wfq x" and p: "prod x = P_locked m"
    and push: "push_msg C m (trap_q x) = Some (ret, q)"
  shows "pipe_inv items wfq (x\<lparr>trap_q := q, prod := P_pushed, pushed := pushed x @ [node_of m],
       dropped := dropped x + overflows C (trap_q x)\<rparr>)" and "ret = 0"
proof -
  note I = pipe_invD [OF inv]
  have free: "\<not> cons_holds (cons x)" using I(2) p by (auto simp: of_bool_def split: if_splits)
  have "node_ok (node_of m)" using I(7) p by (simp add: node_of_ok)
  from sn.push_spec [OF I(1) this] push have q: "ret = 0" "queue_ok items wfq q"
    "queue_content items q = bounded_push QUEUE_MAX_SIZE (node_of m) (queue_content items (trap_q x))"
    by (auto simp: push_msg_node)
  show "ret = 0" by (rule q(1))
  let ?xs = "queue_content items (trap_q x)"
  have "length (queue_content items q) + overflows C (trap_q x) = Suc (length ?xs)"
    using overflows_eq [OF I(1)] by (simp add: q(3) length_bounded_push_eq QUEUE_MAX_SIZE_def)
  moreover have "subseq (sent x @ in_hand (cons x) @ queue_content items q) (pushed x @ [node_of m])"
    using subseq_bounded_push [of "sent x @ in_hand (cons x)" ?xs "pushed x"] I(5) by (simp add: q(3))
  moreover have "cons_knows (queue_content items q) (dropped x + overflows C (trap_q x)) (cons x)"
    using cons_knows_mono [OF cons_knows_free [OF free I(6)]] by simp
  ultimately show "pipe_inv items wfq (x\<lparr>trap_q := q, prod := P_pushed, pushed := pushed x @ [node_of m],
       dropped := dropped x + overflows C (trap_q x)\<rparr>)"
    using I(2-4) p q(2) by (simp add: pipe_inv_def Let_def owed_def)
qed

lemma pop_step_inv:
  assumes inv: "pipe_inv items wfq x" and c: "cons x = S_got n"
    and pop: "SN_Free_Lock_Queue_Pop C (trap_q x) = (ret, q)"
  shows "pipe_inv items wfq (x\<lparr>trap_q := q, cons := S_popped n\<rparr>)" and "ret = 0"
proof -
  note I = pipe_invD [OF inv]
  let ?xs = "queue_content items (trap_q x)"
  have xs: "?xs \<noteq> []" "hd ?xs = n" using I(6) c by simp_all
  then have eq: "n # tl ?xs = ?xs" by (cases ?xs) auto
  from sn.pop_head [OF I(1) xs(1)] pop have q: "ret = 0" "queue_ok items wfq q"
    "queue_content items q = tl ?xs" by simp_all
  show "ret = 0" by (rule q(1))
  have "Suc (length (tl ?xs)) = length ?xs" using eq by (metis length_Cons)
  then show "pipe_inv items wfq (x\<lparr>trap_q := q, cons := S_popped n\<rparr>)"
    using I(2-5,7) c q(2) eq by (simp add: pipe_inv_def Let_def q(3) taken_token_def)
qed

lemma get_step:
  assumes "pipe_inv items wfq x" and "cons x = S_locked"
    and "SN_Free_Lock_Queue_Get C (Some node) (trap_q x) = Some (ret, Some n)"
  shows "ret = 0 \<Longrightarrow> pipe_inv items wfq (x\<lparr>cons := S_got n\<rparr>)"
    and "ret \<noteq> 0 \<Longrightarrow> pipe_inv items wfq (x\<lparr>cons := S_missed\<rparr>)"
proof -
  note I = pipe_invD [OF assms(1)]
  show "pipe_inv items wfq (x\<lparr>cons := S_got n\<rparr>)" if "ret = 0"
  proof -
    have "queue_content items (trap_q x) \<noteq> []"
      using that sn.get_empty [OF I(1)] assms(3) by fastforce
    with sn.get_head [OF I(1)] assms(3) I assms(2) show ?thesis
      by (simp add: pipe_inv_def Let_def taken_token_def)
  qed
  show "pipe_inv items wfq (x\<lparr>cons := S_missed\<rparr>)" if "ret \<noteq> 0"
  proof -
    have "queue_content items (trap_q x) = []"
      using that sn.get_head [OF I(1)] assms(3) by fastforce
    with I assms(2) show ?thesis by (simp add: pipe_inv_def Let_def taken_token_def)
  qed
qed

lemma pipe_step_inv:
  assumes "pipe_inv items wfq x" and "pipe_step C node x y"
  shows "pipe_inv items wfq y"
proof -
  note I = pipe_invD [OF assms(1)]
  from assms(2) show ?thesis
  proof cases
    case (p_push m ret q)
    then show ?thesis using push_step_inv [OF assms(1)] by simp
  next
    case (p_push_fails m q)
    then show ?thesis using push_step_inv(2) [OF assms(1)] by fastforce
  next
    case (s_pop n q)
    then show ?thesis using pop_step_inv [OF assms(1)] by simp
  next
    case (s_pop_fails n ret q)
    then show ?thesis
    proof (cases "cons x = S_missed")
      case True
      with I(6) have "queue_content items (trap_q x) = []" by simp
      with sn.pop_empty [OF I(1)] s_pop_fails(3) have "q = trap_q x" by simp
      with s_pop_fails(1) True I show ?thesis by (simp add: pipe_inv_def Let_def taken_token_def)
    next
      case False
      with s_pop_fails pop_step_inv(2) [OF assms(1)] show ?thesis by blast
    qed
  next
    case (s_pop_missed q)
    then have "queue_content items (trap_q x) = []" using I(6) by simp
    with s_pop_missed(3) sn.pop_empty [OF I(1)] show ?thesis by simp
  next
    case (s_get n)
    then show ?thesis using get_step(1) [OF assms(1)] by blast
  next
    case (s_get_fails ret n)
    then show ?thesis using get_step(2) [OF assms(1)] by blast
  qed (use I in \<open>auto simp: pipe_inv_def Let_def sem_wait_Some taken_token_def owed_def\<close>)
qed

lemma pipe_start_inv: "pipe_start items wfq x \<Longrightarrow> pipe_inv items wfq x"
  by (simp add: pipe_start_def pipe_inv_def owed_def taken_token_def)

end

sublocale cstl_queue \<subseteq> pipe: step_invariant "pipe_start items wfq" "pipe_step C node"
  "pipe_inv items wfq" for node
  by unfold_locales (auto intro: pipe_start_inv pipe_step_inv)

context cstl_queue
begin

lemma pipe_reach: "reach (pipe_start items wfq) (pipe_step C node) x \<Longrightarrow> pipe_inv items wfq x"
  by (rule pipe.reach_I)

end

subsection \<open>Delivery is always possible\<close>

text \<open>That some run from \<open>x\<close> sends one more message.\<close>

definition can_send :: "'q cstl_ops \<Rightarrow> sn_msg_param \<Rightarrow> 'q pipe \<Rightarrow> bool" where
  "can_send C node x \<longleftrightarrow>
     (\<exists>y. (pipe_step C node)\<^sup>*\<^sup>* x y \<and> length (sent y) = Suc (length (sent x)))"

lemma can_send_step:
  "pipe_step C node x y \<Longrightarrow> sent y = sent x \<Longrightarrow> can_send C node y \<Longrightarrow> can_send C node x"
  unfolding can_send_def by (metis converse_rtranclp_into_rtranclp)

lemma can_send_holding: "cons x = S_send n \<Longrightarrow> can_send C node x"
  unfolding can_send_def
  by (rule exI [of _ "x\<lparr>sent := sent x @ [n], cons := S_idle\<rparr>"]) (auto intro: s_send)

lemma can_send_popped: "cons x = S_popped n \<Longrightarrow> can_send C node x"
  by (rule can_send_step [OF s_unlock]) (auto intro: can_send_holding)

context cstl_queue
begin

lemma can_send_got:
  assumes "pipe_inv items wfq x" and "cons x = S_got n"
  shows "can_send C node x"
proof -
  obtain ret q where q: "SN_Free_Lock_Queue_Pop C (trap_q x) = (ret, q)" by fastforce
  with pop_step_inv(2) [OF assms q] have "SN_Free_Lock_Queue_Pop C (trap_q x) = (0, q)" by simp
  from can_send_step [OF s_pop [OF assms(2) this]] show ?thesis
    by (simp add: can_send_popped)
qed

lemma can_send_locked:
  assumes inv: "pipe_inv items wfq x" and c: "cons x = S_locked"
    and ne: "queue_content items (trap_q x) \<noteq> []"
  shows "can_send C node x"
proof -
  have g: "SN_Free_Lock_Queue_Get C (Some node) (trap_q x) =
      Some (0, Some (hd (queue_content items (trap_q x))))"
    by (rule sn.get_head [OF pipe_invD(1) [OF inv] ne])
  note step = s_get [OF c g]
  from can_send_step [OF step] can_send_got [OF pipe_step_inv [OF inv step]] show ?thesis by simp
qed

lemma can_send_counted:
  assumes inv: "pipe_inv items wfq x" and c: "cons x = S_counted" and p: "prod x = P_idle"
    and ne: "queue_content items (trap_q x) \<noteq> []"
  shows "can_send C node x"
proof -
  have "mutex x = Suc 0" using pipe_invD(2) [OF inv] c p by simp
  then have w: "sem_wait (mutex x) = Some 0" by (simp add: sem_wait_Some)
  note step = s_lock [OF c w]
  from can_send_step [OF step] can_send_locked [OF pipe_step_inv [OF inv step]] ne
  show ?thesis by simp
qed

lemma can_send_idle:
  assumes inv: "pipe_inv items wfq x" and c: "cons x = S_idle" and p: "prod x = P_idle"
    and ne: "queue_content items (trap_q x) \<noteq> []"
  shows "can_send C node x"
proof -
  have "0 < full x"
    using pipe_invD(3,4) [OF inv] c p ne
    by (simp add: owed_def taken_token_def flip: length_greater_0_conv)
  then obtain v where "sem_wait (full x) = Some v" by (cases "full x") (auto simp: sem_wait_Some)
  note step = s_count [OF c this]
  from can_send_step [OF step] can_send_counted [OF pipe_step_inv [OF inv step]] ne p
  show ?thesis by simp
qed

lemma can_send_producer_idle:
  assumes "pipe_inv items wfq x" and "prod x = P_idle" and "cons x \<notin> {S_leaving, S_dead, S_lost}"
    and "in_hand (cons x) @ queue_content items (trap_q x) \<noteq> []"
  shows "can_send C node x"
  using assms pipe_invD(6) [OF assms(1)]
  by (cases "cons x") (auto intro: can_send_holding can_send_popped can_send_got can_send_locked
      can_send_counted can_send_idle)

text \<open>A producer inside the critical section or behind it always gets back to where it starts.\<close>

lemma can_send_unlocked:
  assumes inv: "pipe_inv items wfq x" and p: "prod x = P_unlocked"
    and "cons x \<notin> {S_leaving, S_dead, S_lost}" and "in_hand (cons x) @ queue_content items (trap_q x) \<noteq> []"
  shows "can_send C node x"
proof -
  note step = p_post [OF p, of C node]
  from can_send_step [OF step] can_send_producer_idle [OF pipe_step_inv [OF inv step]] assms(3,4)
  show ?thesis by simp
qed

lemma can_send_pushed:
  assumes inv: "pipe_inv items wfq x" and p: "prod x = P_pushed"
    and "cons x \<notin> {S_leaving, S_dead, S_lost}" and "in_hand (cons x) @ queue_content items (trap_q x) \<noteq> []"
  shows "can_send C node x"
proof -
  note step = p_unlock [OF p, of C node]
  from can_send_step [OF step] can_send_unlocked [OF pipe_step_inv [OF inv step]] assms(3,4)
  show ?thesis by simp
qed

lemma can_send_producer_locked:
  assumes inv: "pipe_inv items wfq x" and p: "prod x = P_locked m"
    and "cons x \<notin> {S_leaving, S_dead, S_lost}"
  shows "can_send C node x"
proof -
  note I = pipe_invD [OF inv]
  have "node_ok (node_of m)" using I(7) p by (simp add: node_of_ok)
  from sn.push_spec [OF I(1) this] obtain q where
    push: "push_msg C m (trap_q x) = Some (0, q)" and
    q: "queue_content items q = bounded_push QUEUE_MAX_SIZE (node_of m) (queue_content items (trap_q x))"
    by (auto simp: push_msg_node)
  have step: "pipe_step C node x (x\<lparr>trap_q := q, prod := P_pushed, pushed := pushed x @ [node_of m],
      dropped := dropped x + overflows C (trap_q x)\<rparr>)"
    by (rule pipe_step.p_push [OF p push]) simp
  have "queue_content items q \<noteq> []" by (simp add: q bounded_push_def)
  with can_send_step [OF step] can_send_pushed [OF pipe_step_inv [OF inv step]] assms(3)
  show ?thesis by simp
qed

lemma can_send_always:
  assumes "pipe_inv items wfq x" and "cons x \<notin> {S_leaving, S_dead, S_lost}"
    and "in_hand (cons x) @ queue_content items (trap_q x) \<noteq> []"
  shows "can_send C node x"
  using assms pipe_invD(7) [OF assms(1)]
  by (cases "prod x") (auto intro: can_send_producer_idle can_send_producer_locked can_send_pushed
      can_send_unlocked)

end

subsection \<open>The functions are runs of the machine\<close>

text \<open>The machine's shared variables as they are in a state of the program.\<close>

definition views :: "('q, 'z) snmp_st_scheme \<Rightarrow> 'q pipe \<Rightarrow> bool" where
  "views s x \<longleftrightarrow> trap_q x = send_queue s \<and> mutex x = sem_mutex s \<and> full x = sem_full s"

lemma data_trap_run:
  assumes "snmp_data_trap C m code s = Done (r, s')" and "msg_wf m" and "views s x" and "prod x = P_idle"
  shows "\<exists>y. (pipe_step C node)\<^sup>*\<^sup>* x y \<and> views s' y \<and> prod y = P_idle \<and> cons y = cons x \<and> sent y = sent x \<and>
     pushed y = pushed x @ (if r = -1 then [] else [node_of (stamp_msg CMD_TRAP 0 code m)])"
proof -
  let ?m = "stamp_msg CMD_TRAP 0 code m"
  obtain v q ret where w: "sem_wait (mutex x) = Some v" and push: "push_msg C ?m (trap_q x) = Some (ret, q)"
    and r: "r = (if ret = -1 then -1 else 0)"
    and s': "s' = (if ret = -1 then s\<lparr>send_queue := q, sem_mutex := v + 1\<rparr>
      else s\<lparr>send_queue := q, sem_mutex := v + 1, sem_full := sem_full s + 1\<rparr>)"
    using assms(1,3)
    by (auto simp: snmp_data_trap_def views_def Let_def split: option.splits if_splits)
  define x1 where "x1 = x\<lparr>mutex := v, prod := P_locked ?m\<rparr>"
  have lock: "pipe_step C node x x1"
    unfolding x1_def by (rule p_lock [OF assms(4) _ w]) (simp add: assms(2))
  show ?thesis
  proof (cases "ret = -1")
    case True
    define x2 where "x2 = x1\<lparr>trap_q := q, prod := P_failed\<rparr>"
    have "pipe_step C node x1 x2"
      unfolding x2_def by (rule p_push_fails) (use push True in \<open>simp_all add: x1_def\<close>)
    moreover have "pipe_step C node x2 (x2\<lparr>mutex := mutex x2 + 1, prod := P_idle\<rparr>)"
      by (rule p_give_up) (simp add: x2_def)
    ultimately have "(pipe_step C node)\<^sup>*\<^sup>* x (x2\<lparr>mutex := mutex x2 + 1, prod := P_idle\<rparr>)"
      using lock by (meson converse_rtranclp_into_rtranclp rtranclp.rtrancl_refl)
    then show ?thesis
      using assms(3) True r
      by (intro exI conjI) (assumption | simp add: x2_def x1_def views_def s')+
  next
    case False
    define x2 where "x2 = x1\<lparr>trap_q := q, prod := P_pushed, pushed := pushed x1 @ [node_of ?m],
        dropped := dropped x1 + overflows C (trap_q x1)\<rparr>"
    define x3 where "x3 = x2\<lparr>mutex := mutex x2 + 1, prod := P_unlocked\<rparr>"
    have "pipe_step C node x1 x2"
      unfolding x2_def by (rule pipe_step.p_push [OF _ _ False]) (use push in \<open>simp_all add: x1_def\<close>)
    moreover have "pipe_step C node x2 x3"
      unfolding x3_def by (rule p_unlock) (simp add: x2_def)
    moreover have "pipe_step C node x3 (x3\<lparr>full := full x3 + 1, prod := P_idle\<rparr>)"
      by (rule p_post) (simp add: x3_def)
    ultimately have "(pipe_step C node)\<^sup>*\<^sup>* x (x3\<lparr>full := full x3 + 1, prod := P_idle\<rparr>)"
      using lock by (meson converse_rtranclp_into_rtranclp rtranclp.rtrancl_refl)
    then show ?thesis
      using assms(3) False r
      by (intro exI conjI) (assumption | simp add: x3_def x2_def x1_def views_def s')+
  qed
qed

text \<open>What the second task does to the queue, as runs that leave the sender where it is.\<close>

definition trap_runs ::
  "'q cstl_ops \<Rightarrow> sn_msg_param \<Rightarrow> ('q, 'z) snmp_st_scheme \<Rightarrow> ('q, 'z) snmp_st_scheme \<Rightarrow> bool" where
  "trap_runs C node s s' \<longleftrightarrow>
     (\<forall>x. views s x \<and> prod x = P_idle \<longrightarrow>
        (\<exists>y. (pipe_step C node)\<^sup>*\<^sup>* x y \<and> views s' y \<and> prod y = P_idle \<and> cons y = cons x \<and> sent y = sent x))"

lemma trap_runs_refl: "views s = views s' \<Longrightarrow> trap_runs C node s s'"
  by (auto simp: trap_runs_def)

lemma trap_runs_trans: "trap_runs C node s t \<Longrightarrow> trap_runs C node t u \<Longrightarrow> trap_runs C node s u"
  unfolding trap_runs_def by (metis rtranclp_trans)

lemma views_hist [simp]: "views (s\<lparr>hist := h\<rparr>) = views s"
  by (simp add: views_def fun_eq_iff)

lemma data_trap_runs: "snmp_data_trap C m code s = Done (r, s') \<Longrightarrow> msg_wf m \<Longrightarrow> trap_runs C node s s'"
  unfolding trap_runs_def using data_trap_run [of C m code s r s'] by blast

lemma trap_message_wf: "trap_message p code b = Some m \<Longrightarrow> msg_wf m"
  by (auto simp: trap_message_def split: bind_splits if_splits
      intro!: set_u_data_wf dest!: c_strcpy_length)

lemma trap_msg_runs:
  assumes "Trap_msg_to_snmpd E C code s = Done s'"
  shows "trap_runs C node s s'"
proof -
  obtain m h r where m: "snmp_data_trap C m code (s\<lparr>hist := h\<rparr>) = Done (r, s')" "msg_wf m"
    using assms
    by (auto simp: Trap_msg_to_snmpd_def Let_def split: option.splits bind_splits outcome.splits
        dest!: get_net_parameter_frame trap_message_wf)
  have "trap_runs C node s (s\<lparr>hist := h\<rparr>)" by (rule trap_runs_refl) simp
  from trap_runs_trans [OF this data_trap_runs [OF m]] show ?thesis .
qed

lemma send_traps_runs: "send_traps E C codes s = Done s' \<Longrightarrow> trap_runs C node s s'"
proof (induction codes arbitrary: s)
  case Nil
  then show ?case by (simp add: trap_runs_refl)
next
  case (Cons code codes)
  then obtain t where "Trap_msg_to_snmpd E C code s = Done t" "send_traps E C codes t = Done s'"
    by (auto split: outcome.splits)
  with Cons.IH trap_msg_runs show ?case by (blast intro: trap_runs_trans)
qed

lemma second_task_runs:
  assumes "second_task_turn E C s = Done s'"
  shows "trap_runs C node s s'"
proof -
  obtain v t where t: "refresh_cdd_param (s\<lparr>trapsignal := v\<rparr>) = Some t"
    "s' = t \<or> send_traps E C [0x70, 0x71, 0x72, 0x73, 0x74, 0x75] t = Done s'"
    using assms by (auto simp: second_task_turn_def split: option.splits if_splits)
  then have "views t = views s"
    by (auto simp: refresh_cdd_param_def views_def fun_eq_iff split: option.splits)
  then have "trap_runs C node s t" by (intro trap_runs_refl) simp
  with t(2) show ?thesis using send_traps_runs trap_runs_trans by blast
qed

context cstl_queue
begin

lemma send_turn_run:
  assumes "queue_ok items wfq (send_queue s)" and "queue_content items (send_queue s) = n # ns"
    and "node_ok n" and "length msg = QUEUE_LEN" and "0 \<le> e_msgget E (hist s) KEY_ID_SEND IPC_EXCL"
    and "sem_full s = Suc f" and "sem_mutex s = Suc 0" and "views s x" and "cons x = S_idle"
    and "snmp_send_turn E C node msg s = Done (Next (msg', s'))"
  shows "\<exists>y. (pipe_step C node)\<^sup>*\<^sup>* x y \<and> views s' y \<and> cons y = S_idle \<and> prod y = prod x \<and>
     sent y = sent x @ [n] \<and> msg' = data n"
proof -
  obtain q0 where q0: "send_queue s = Some q0" "wfq q0" "items q0 = n # ns"
    using assms(1,2) by (auto simp: queue_ok_def split: option.splits)
  have m: "c_memcpy msg (data n) (unat (length_of n)) = Some (data n)"
    using assms(3,4) by (simp add: c_memcpy_all node_ok_def)
  have r: "msg' = data n" and s': "send_queue s' = Some (queue_pop C q0)" "sem_full s' = f"
    "sem_mutex s' = Suc 0"
    using q0 m assms(5-7,10) get_Some [OF q0(2)] pop_Some [OF q0(2)]
    by (auto simp: snmp_send_turn_def sys_msgget_def sys_msgsnd_def emit_def sem_wait_def Let_def)
  define x1 where "x1 = x\<lparr>full := f, cons := S_counted\<rparr>"
  define x2 where "x2 = x1\<lparr>mutex := 0, cons := S_locked\<rparr>"
  define x3 where "x3 = x2\<lparr>cons := S_got n\<rparr>"
  define x4 where "x4 = x3\<lparr>trap_q := Some (queue_pop C q0), cons := S_popped n\<rparr>"
  define x5 where "x5 = x4\<lparr>mutex := mutex x4 + 1, cons := S_send n\<rparr>"
  have x: "trap_q x = Some q0" "mutex x = Suc 0" "full x = Suc f"
    using assms(6-8) q0(1) by (simp_all add: views_def)
  have "pipe_step C node x x1"
    unfolding x1_def by (rule s_count [OF assms(9)]) (simp add: sem_wait_Some x)
  moreover have "pipe_step C node x1 x2"
    unfolding x2_def by (rule s_lock) (simp_all add: sem_wait_Some x1_def x)
  moreover have "pipe_step C node x2 x3"
    unfolding x3_def by (rule s_get) (simp_all add: x2_def x1_def x get_Some [OF q0(2)] q0(3))
  moreover have "pipe_step C node x3 x4"
    unfolding x4_def by (rule s_pop) (simp_all add: x3_def x2_def x1_def x pop_Some [OF q0(2)] q0(3))
  moreover have "pipe_step C node x4 x5"
    unfolding x5_def by (rule s_unlock) (simp add: x4_def)
  moreover have "pipe_step C node x5 (x5\<lparr>sent := sent x5 @ [n], cons := S_idle\<rparr>)"
    by (rule s_send) (simp add: x5_def)
  ultimately have "(pipe_step C node)\<^sup>*\<^sup>* x (x5\<lparr>sent := sent x5 @ [n], cons := S_idle\<rparr>)"
    by (meson converse_rtranclp_into_rtranclp rtranclp.rtrancl_refl)
  then show ?thesis
    by (intro exI conjI) (assumption | simp add: x5_def x4_def x3_def x2_def x1_def views_def s' x r)+
qed

text \<open>A sender that finds the queue empty runs to its end.\<close>

lemma send_exit_run:
  assumes "queue_ok items wfq (send_queue s)" and "queue_content items (send_queue s) = []"
    and "sem_full s = Suc f" and "sem_mutex s = Suc 0" and "views s x" and "cons x = S_idle"
  shows "\<exists>y. (pipe_step C node)\<^sup>*\<^sup>* x y \<and> views (s\<lparr>hist := h, sem_full := f\<rparr>) y \<and> cons y = S_dead \<and>
     prod y = prod x \<and> sent y = sent x"
proof -
  obtain q0 where q0: "send_queue s = Some q0" "wfq q0" "items q0 = []"
    using assms(1,2) by (auto simp: queue_ok_def split: option.splits)
  have x: "trap_q x = Some q0" "mutex x = Suc 0" "full x = Suc f"
    using assms(3-5) q0(1) by (simp_all add: views_def)
  define x1 where "x1 = x\<lparr>full := f, cons := S_counted\<rparr>"
  define x2 where "x2 = x1\<lparr>mutex := 0, cons := S_locked\<rparr>"
  define x3 where "x3 = x2\<lparr>cons := S_missed\<rparr>"
  define x4 where "x4 = x3\<lparr>trap_q := Some q0, cons := S_leaving\<rparr>"
  have "pipe_step C node x x1"
    unfolding x1_def by (rule s_count [OF assms(6)]) (simp add: sem_wait_Some x)
  moreover have "pipe_step C node x1 x2"
    unfolding x2_def by (rule s_lock) (simp_all add: sem_wait_Some x1_def x)
  moreover have "pipe_step C node x2 x3"
    unfolding x3_def
    by (rule s_get_fails [where ret = "-1" and n = node])
      (simp_all add: x2_def x1_def x get_Some [OF q0(2)] q0(3))
  moreover have "pipe_step C node x3 x4"
    unfolding x4_def
    by (rule s_pop_fails [where ret = "-1" and n = node])
      (simp_all add: x3_def x2_def x1_def x pop_Some [OF q0(2)] q0(3))
  moreover have "pipe_step C node x4 (x4\<lparr>mutex := mutex x4 + 1, cons := S_dead\<rparr>)"
    by (rule s_unlock_exit) (simp add: x4_def)
  ultimately have "(pipe_step C node)\<^sup>*\<^sup>* x (x4\<lparr>mutex := mutex x4 + 1, cons := S_dead\<rparr>)"
    by (meson converse_rtranclp_into_rtranclp rtranclp.rtrancl_refl)
  then show ?thesis
    using assms(4) q0(1)
    by (intro exI conjI) (assumption | simp add: x4_def x3_def x2_def x1_def views_def)+
qed

end

subsection \<open>Properties\<close>

text \<open>
  C14. Order and loss on the trap queue, for every interleaving of the two threads: what has been
  sent, what the sender holds and what is queued are, in this order, what was pushed, with the
  messages left out that overflowing pushes dropped; without an overflow nothing is missing.
\<close>

theorem trap_pipeline_order:
  assumes "cstl_queue C items wfq" and "reach (pipe_start items wfq) (pipe_step C node) x"
    and "out = sent x @ in_hand (cons x) @ queue_content items (trap_q x)"
  shows "subseq out (pushed x) \<and> length (pushed x) = length out + dropped x \<and>
     (dropped x = 0 \<longrightarrow> out = pushed x)"
proof -
  note I = pipe_invD [OF cstl_queue.pipe_reach [OF assms(1,2)]]
  have "length (pushed x) = length out + dropped x" using I(4) by (simp add: assms(3))
  with I(5) show ?thesis using subseq_same_length [of out "pushed x"] by (simp add: assms(3))
qed

text \<open>Concrete states for the witnesses: the start, and one trap inside the critical section.\<close>

definition pipe_0 :: "sn_msg_param list pipe" where
  "pipe_0 = \<lparr>trap_q = Some [], mutex = 1, full = 0, prod = P_idle, cons = S_idle, pushed = [], sent = [],
     dropped = 0\<rparr>"

definition pipe_1 :: "sn_msg_param list pipe" where
  "pipe_1 = pipe_0\<lparr>mutex := 0, prod := P_locked msg_0\<rparr>"

definition pipe_2 :: "sn_msg_param list pipe" where
  "pipe_2 = pipe_1\<lparr>trap_q := Some [node_of msg_0], prod := P_pushed, pushed := [node_of msg_0]\<rparr>"

lemma reach_pipe_0: "reach (pipe_start (\<lambda>q. q) (\<lambda>q. True)) (pipe_step list_cstl sample_node) pipe_0"
  by (rule reach_init) (simp add: pipe_start_def pipe_0_def queue_ok_def)

lemma reach_pipe_1: "reach (pipe_start (\<lambda>q. q) (\<lambda>q. True)) (pipe_step list_cstl sample_node) pipe_1"
proof -
  have "pipe_step list_cstl sample_node pipe_0 (pipe_0\<lparr>mutex := 0, prod := P_locked msg_0\<rparr>)"
    by (rule p_lock) (simp_all add: pipe_0_def sem_wait_Some)
  with reach_pipe_0 show ?thesis unfolding pipe_1_def by (rule reach_step)
qed

lemma reach_pipe_2: "reach (pipe_start (\<lambda>q. q) (\<lambda>q. True)) (pipe_step list_cstl sample_node) pipe_2"
proof -
  have "queue_ok (\<lambda>q. q) (\<lambda>q. True) (Some ([] :: sn_msg_param list))" by (simp add: queue_ok_def)
  from lq.sn.push_spec [OF this node_of_ok [OF msg_wf_0]] obtain q where
    q: "push_msg list_cstl msg_0 (Some []) = Some (0, q)" "queue_ok (\<lambda>q. q) (\<lambda>q. True) q"
      "queue_content (\<lambda>q. q) q = bounded_push QUEUE_MAX_SIZE (node_of msg_0) []"
    by (auto simp: push_msg_node)
  then have "q = Some [node_of msg_0]"
    by (cases q) (auto simp: queue_ok_def bounded_push_def QUEUE_MAX_SIZE_def)
  with q(1) have "push_msg list_cstl msg_0 (trap_q pipe_1) = Some (0, Some [node_of msg_0])"
    by (simp add: pipe_1_def pipe_0_def)
  moreover have "prod pipe_1 = P_locked msg_0" by (simp add: pipe_1_def)
  ultimately have "pipe_step list_cstl sample_node pipe_1 (pipe_1\<lparr>trap_q := Some [node_of msg_0],
      prod := P_pushed, pushed := pushed pipe_1 @ [node_of msg_0],
      dropped := dropped pipe_1 + overflows list_cstl (trap_q pipe_1)\<rparr>)"
    using pipe_step.p_push by fastforce
  moreover have "overflows list_cstl (trap_q pipe_1) = 0"
    using lq.overflows_eq [of "trap_q pipe_1"]
    by (simp add: pipe_1_def pipe_0_def queue_ok_def QUEUE_MAX_SIZE_def)
  ultimately have "pipe_step list_cstl sample_node pipe_1 pipe_2"
    by (simp add: pipe_2_def pipe_1_def pipe_0_def)
  with reach_pipe_1 show ?thesis by (rule reach_step)
qed

theorem trap_pipeline_order_witness:
  "sent pipe_2 @ in_hand (cons pipe_2) @ queue_content (\<lambda>q. q) (trap_q pipe_2) = pushed pipe_2"
  using trap_pipeline_order [OF lq.cstl_queue_axioms reach_pipe_2 refl]
  by (simp add: pipe_2_def pipe_1_def pipe_0_def)

text \<open>
  C15. Mutual exclusion and the end of the sender, for every interleaving: the two threads are never
  inside the critical section together, and the mutex is free exactly when neither is. A sender
  whose token finds no message does so in front of an empty queue and after an overflow, and only
  from there does it leave for want of a message, with the mutex released on its way out; the only
  other way out of its loop is from between two turns, when the kernel does not know its queue.
\<close>

theorem trap_pipeline_safe:
  assumes "cstl_queue C items wfq" and "reach (pipe_start items wfq) (pipe_step C node) x"
  shows "\<not> (prod_holds (prod x) \<and> cons_holds (cons x)) \<and>
     (mutex x = (if prod_holds (prod x) \<or> cons_holds (cons x) then 0 else 1)) \<and>
     (cons x \<in> {S_missed, S_leaving} \<longrightarrow> queue_content items (trap_q x) = [] \<and> 0 < dropped x) \<and>
     (cons x = S_dead \<longrightarrow> 0 < dropped x) \<and>
     (\<forall>y. pipe_step C node x y \<and> cons y \<noteq> cons x \<longrightarrow>
        (cons y = S_leaving \<longrightarrow> cons x = S_missed) \<and>
        (cons y = S_dead \<longrightarrow> cons x = S_leaving \<and> mutex y = 1) \<and>
        (cons y = S_lost \<longrightarrow> cons x = S_idle))"
proof -
  note inv = cstl_queue.pipe_reach [OF assms]
  note I = pipe_invD(2,6) [OF inv]
  have "(cons y = S_leaving \<longrightarrow> cons x = S_missed) \<and> (cons y = S_dead \<longrightarrow> cons x = S_leaving \<and> mutex y = 1) \<and>
      (cons y = S_lost \<longrightarrow> cons x = S_idle)" if "pipe_step C node x y" "cons y \<noteq> cons x" for y
    using that(1)
  proof cases
    case (s_pop_fails n ret q)
    then show ?thesis using cstl_queue.pop_step_inv(2) [OF assms(1) inv] by auto
  qed (use I(1) that(2) in auto)
  with I show ?thesis by (auto simp: of_bool_def split: if_splits)
qed

theorem trap_pipeline_safe_witness:
  "\<not> cons_holds (cons pipe_1) \<and> mutex pipe_1 = 0"
  using trap_pipeline_safe [OF lq.cstl_queue_axioms reach_pipe_1] by (simp add: pipe_1_def)

text \<open>
  C13. No deadlock, no lost wake-up: as long as the sender has not left its loop, any state in which a
  trap is queued or in the sender's hand can be continued to one in which one more message
  has been sent.
\<close>

theorem trap_pipeline_delivers:
  assumes "cstl_queue C items wfq" and "reach (pipe_start items wfq) (pipe_step C node) x"
    and "cons x \<notin> {S_leaving, S_dead, S_lost}"
    and "in_hand (cons x) @ queue_content items (trap_q x) \<noteq> []"
  shows "\<exists>y. (pipe_step C node)\<^sup>*\<^sup>* x y \<and> length (sent y) = Suc (length (sent x))"
  using cstl_queue.can_send_always [OF assms(1) cstl_queue.pipe_reach [OF assms(1,2)] assms(3,4)]
  by (simp add: can_send_def)

theorem trap_pipeline_delivers_witness:
  "\<exists>y. (pipe_step list_cstl sample_node)\<^sup>*\<^sup>* pipe_2 y \<and> length (sent y) = 1"
  using trap_pipeline_delivers [OF lq.cstl_queue_axioms reach_pipe_2]
  by (simp add: pipe_2_def pipe_1_def pipe_0_def)

end
