(* ===== verification/Ack_Pipeline.thy ===== *)
theory Ack_Pipeline
  imports Snmp_Threads
begin

text \<open>
  The acknowledgement queue between the receiving thread, which pushes, and
  \<open>pthread_snmp_send_ack\<close>, which gets, sends and pops. Unlike the trap queue it has no mutex, so
  the calls of the push itself (the test for a full queue, the pop that makes room, the push)
  interleave with the sender's. Without an overflow every acknowledgement is sent once and in
  order; with one, a message can be lost that no push has dropped.
\<close>

subsection \<open>The machine\<close>

datatype acker_pc = A_idle | A_drop queue_msg_t | A_room queue_msg_t | A_pushed

datatype sender_pc = T_idle | T_counted | T_got sn_msg_param | T_sent sn_msg_param | T_missed | T_dead

record 'q ack_pipe =
  ack_q :: "'q option"
  acks :: nat
  acker :: acker_pc
  sender :: sender_pc
  acked :: "sn_msg_param list"
  acks_sent :: "sn_msg_param list"
  acks_dropped :: nat

inductive ack_step :: "'q cstl_ops \<Rightarrow> sn_msg_param \<Rightarrow> 'q ack_pipe \<Rightarrow> 'q ack_pipe \<Rightarrow> bool"
  for C node where
  a_full: "acker x = A_idle \<Longrightarrow> msg_wf m \<Longrightarrow> SN_Free_Lock_Queue_full C (ack_q x) = 1 \<Longrightarrow>
     ack_step C node x (x\<lparr>acker := A_drop m\<rparr>)"
| a_room: "acker x = A_idle \<Longrightarrow> msg_wf m \<Longrightarrow> SN_Free_Lock_Queue_full C (ack_q x) \<noteq> 1 \<Longrightarrow>
     ack_step C node x (x\<lparr>acker := A_room m\<rparr>)"
| a_drop: "acker x = A_drop m \<Longrightarrow> SN_Free_Lock_Queue_Pop C (ack_q x) = (0, q) \<Longrightarrow>
     ack_step C node x (x\<lparr>ack_q := q, acker := A_room m, acks_dropped := acks_dropped x + 1\<rparr>)"
| a_drop_fails: "acker x = A_drop m \<Longrightarrow> SN_Free_Lock_Queue_Pop C (ack_q x) = (-1, q) \<Longrightarrow>
     ack_step C node x (x\<lparr>ack_q := q, acker := A_idle\<rparr>)"
| a_push: "acker x = A_room m \<Longrightarrow> ack_q x = Some q \<Longrightarrow>
     ack_step C node x (x\<lparr>ack_q := Some (queue_push C q (node_of m)), acker := A_pushed,
       acked := acked x @ [node_of m]\<rparr>)"
| a_post: "acker x = A_pushed \<Longrightarrow> ack_step C node x (x\<lparr>acks := acks x + 1, acker := A_idle\<rparr>)"
| t_count: "sender x = T_idle \<Longrightarrow> sem_wait (acks x) = Some v \<Longrightarrow>
     ack_step C node x (x\<lparr>acks := v, sender := T_counted\<rparr>)"
| t_get: "sender x = T_counted \<Longrightarrow>
     SN_Free_Lock_Queue_Get C (Some node) (ack_q x) = Some (0, Some n) \<Longrightarrow>
     ack_step C node x (x\<lparr>sender := T_got n\<rparr>)"
| t_get_fails: "sender x = T_counted \<Longrightarrow>
     SN_Free_Lock_Queue_Get C (Some node) (ack_q x) = Some (ret, n) \<Longrightarrow> ret \<noteq> 0 \<Longrightarrow>
     ack_step C node x (x\<lparr>sender := T_missed\<rparr>)"
| t_send: "sender x = T_got n \<Longrightarrow>
     ack_step C node x (x\<lparr>acks_sent := acks_sent x @ [n], sender := T_sent n\<rparr>)"
| t_pop: "sender x = T_sent n \<or> sender x = T_missed \<Longrightarrow>
     SN_Free_Lock_Queue_Pop C (ack_q x) = (0, q) \<Longrightarrow>
     ack_step C node x (x\<lparr>ack_q := q, sender := T_idle\<rparr>)"
| t_pop_fails: "sender x = T_sent n \<or> sender x = T_missed \<Longrightarrow>
     SN_Free_Lock_Queue_Pop C (ack_q x) = (ret, q) \<Longrightarrow> ret \<noteq> 0 \<Longrightarrow>
     ack_step C node x (x\<lparr>ack_q := q, sender := T_dead\<rparr>)"

definition ack_start :: "('q \<Rightarrow> sn_msg_param list) \<Rightarrow> ('q \<Rightarrow> bool) \<Rightarrow> 'q ack_pipe \<Rightarrow> bool" where
  "ack_start items wfq x \<longleftrightarrow>
     queue_ok items wfq (ack_q x) \<and> queue_content items (ack_q x) = [] \<and> acks x = 0 \<and>
     acker x = A_idle \<and> sender x = T_idle \<and> acked x = [] \<and> acks_sent x = [] \<and> acks_dropped x = 0"

subsection \<open>Without an overflow\<close>

text \<open>The queued messages that have not been sent, and what the sender knows about the first one.\<close>

fun unsent :: "sender_pc \<Rightarrow> sn_msg_param list \<Rightarrow> sn_msg_param list" where
  "unsent (T_sent n) xs = tl xs"
| "unsent _ xs = xs"

fun sender_knows :: "sn_msg_param list \<Rightarrow> sender_pc \<Rightarrow> bool" where
  "sender_knows xs (T_got n) = (xs \<noteq> [] \<and> hd xs = n)"
| "sender_knows xs (T_sent n) = (xs \<noteq> [] \<and> hd xs = n)"
| "sender_knows xs T_missed = False"
| "sender_knows xs T_dead = False"
| "sender_knows xs _ = True"

definition ack_inv :: "('q \<Rightarrow> sn_msg_param list) \<Rightarrow> ('q \<Rightarrow> bool) \<Rightarrow> 'q ack_pipe \<Rightarrow> bool" where
  "ack_inv items wfq x \<longleftrightarrow>
     (\<exists>q. ack_q x = Some q \<and> wfq q \<and>
        (acks_dropped x = 0 \<longrightarrow>
           acked x = acks_sent x @ unsent (sender x) (items q) \<and> sender_knows (items q) (sender x) \<and>
           length (items q) = acks x + of_bool (acker x = A_pushed) + of_bool (sender x \<noteq> T_idle)))"

lemma unsent_snoc: "sender_knows xs c \<Longrightarrow> unsent c (xs @ [n]) = unsent c xs @ [n]"
  by (cases c) auto

lemma sender_knows_snoc: "sender_knows xs c \<Longrightarrow> sender_knows (xs @ [n]) c"
  by (cases c) auto

context cstl_queue
begin

lemma ack_step_inv:
  assumes "ack_inv items wfq x" and "ack_step C node x y"
  shows "ack_inv items wfq y"
proof -
  obtain q0 where q0: "ack_q x = Some q0" "wfq q0" and
    I: "acks_dropped x = 0 \<Longrightarrow> acked x = acks_sent x @ unsent (sender x) (items q0) \<and>
      sender_knows (items q0) (sender x) \<and>
      length (items q0) = acks x + of_bool (acker x = A_pushed) + of_bool (sender x \<noteq> T_idle)"
    using assms(1) by (auto simp: ack_inv_def)
  note pop = pop_Some [OF q0(2)] pop_items [OF q0(2)] pop_inv [OF q0(2)]
  note get = get_Some [OF q0(2)]
  from assms(2) show ?thesis
  proof cases
    case (a_push m q)
    with q0 I unsent_snoc [of "items q0" "sender x" "node_of m"]
      sender_knows_snoc [of "items q0" "sender x" "node_of m"]
    show ?thesis by (auto simp: ack_inv_def push_items push_inv)
  next
    case (t_count v)
    then show ?thesis using q0 I by (cases "acks x") (auto simp: ack_inv_def sem_wait_def)
  next
    case (t_get n)
    then show ?thesis using q0 I get by (auto simp: ack_inv_def split: if_splits)
  next
    case (t_get_fails ret n)
    then show ?thesis using q0 I get by (auto simp: ack_inv_def split: if_splits)
  next
    case (t_send n)
    then show ?thesis using q0 I by (cases "items q0") (auto simp: ack_inv_def)
  next
    case (t_pop n q)
    then show ?thesis using q0 I pop by (auto simp: ack_inv_def split: if_splits)
  next
    case (t_pop_fails n ret q)
    then have e: "items q0 = []" "q = Some q0" using q0 pop by (auto split: if_splits)
    then have "0 < acks_dropped x" using I t_pop_fails(2) by (cases "acks_dropped x") auto
    with t_pop_fails(1) e q0(2) show ?thesis by (simp add: ack_inv_def)
  next
    case (a_drop m q)
    then show ?thesis using q0 pop by (auto simp: ack_inv_def split: if_splits)
  next
    case (a_drop_fails m q)
    then have "q = Some q0" using q0 pop by (auto split: if_splits)
    with a_drop_fails(1,2) q0(2) I show ?thesis by (auto simp: ack_inv_def)
  qed (use q0 I in \<open>auto simp: ack_inv_def\<close>)
qed

lemma ack_start_inv: "ack_start items wfq x \<Longrightarrow> ack_inv items wfq x"
  by (auto simp: ack_start_def ack_inv_def queue_ok_def split: option.splits)

end

sublocale cstl_queue \<subseteq> ackp: step_invariant "ack_start items wfq" "ack_step C node"
  "ack_inv items wfq" for node
  by unfold_locales (auto intro: ack_start_inv ack_step_inv)

context cstl_queue
begin

lemma ack_reach: "reach (ack_start items wfq) (ack_step C node) x \<Longrightarrow> ack_inv items wfq x"
  by (rule ackp.reach_I)

end

subsection \<open>Delivery is always possible\<close>

text \<open>Some run from \<open>x\<close> sends \<open>n\<close> next.\<close>

definition sends_next :: "'q cstl_ops \<Rightarrow> sn_msg_param \<Rightarrow> sn_msg_param \<Rightarrow> 'q ack_pipe \<Rightarrow> bool" where
  "sends_next C node n x \<longleftrightarrow> (\<exists>y. (ack_step C node)\<^sup>*\<^sup>* x y \<and> acks_sent y = acks_sent x @ [n])"

lemma sends_next_step:
  "ack_step C node x y \<Longrightarrow> acks_sent y = acks_sent x \<Longrightarrow> sends_next C node n y \<Longrightarrow> sends_next C node n x"
  unfolding sends_next_def by (metis converse_rtranclp_into_rtranclp)

lemma sends_next_got: "sender x = T_got n \<Longrightarrow> sends_next C node n x"
  unfolding sends_next_def
  by (rule exI [of _ "x\<lparr>acks_sent := acks_sent x @ [n], sender := T_sent n\<rparr>"]) (auto intro: t_send)

context cstl_queue
begin

lemma ack_invD:
  assumes "ack_inv items wfq x" and "acks_dropped x = 0"
  obtains q where "ack_q x = Some q" and "wfq q" and "sender_knows (items q) (sender x)"
    and "length (items q) = acks x + of_bool (acker x = A_pushed) + of_bool (sender x \<noteq> T_idle)"
  using assms by (auto simp: ack_inv_def)

lemma sends_next_counted:
  assumes "ack_q x = Some q" and "wfq q" and "items q = n # ns" and "sender x = T_counted"
  shows "sends_next C node n x"
proof -
  have "SN_Free_Lock_Queue_Get C (Some node) (ack_q x) = Some (0, Some n)"
    using get_Some [OF assms(2)] assms(1,3) by simp
  from sends_next_step [OF t_get [OF assms(4) this]] show ?thesis by (simp add: sends_next_got)
qed

lemma sends_next_token:
  assumes "ack_q x = Some q" and "wfq q" and "items q = n # ns" and "sender x = T_idle" and "acks x = Suc k"
  shows "sends_next C node n x"
proof -
  have "sem_wait (acks x) = Some k" by (simp add: assms(5) sem_wait_def)
  from sends_next_step [OF t_count [OF assms(4) this]] show ?thesis
    by (simp add: sends_next_counted [OF _ assms(2,3)] assms(1))
qed

text \<open>Either the token is there, or the receiving thread is about to post it.\<close>

lemma sends_next_idle:
  assumes "ack_q x = Some q" and "wfq q" and "items q = n # ns" and "sender x = T_idle"
    and "length (items q) = acks x + of_bool (acker x = A_pushed)"
  shows "sends_next C node n x"
proof (cases "acks x")
  case 0
  then have "acker x = A_pushed" using assms(3,5) by (cases "acker x = A_pushed") auto
  from sends_next_step [OF a_post [OF this]] show ?thesis
    by (simp add: sends_next_token [OF _ assms(2,3)] assms(1,4))
next
  case (Suc k)
  then show ?thesis by (rule sends_next_token [OF assms(1-4)])
qed

lemma sends_next_always:
  assumes "ack_inv items wfq x" and "acks_dropped x = 0"
    and "unsent (sender x) (queue_content items (ack_q x)) = n # ns"
  shows "sends_next C node n x"
proof -
  obtain q where q: "ack_q x = Some q" "wfq q" and knows: "sender_knows (items q) (sender x)"
    and len: "length (items q) = acks x + of_bool (acker x = A_pushed) + of_bool (sender x \<noteq> T_idle)"
    using assms(1,2) by (rule ack_invD)
  show ?thesis
  proof (cases "sender x")
    case T_idle
    then have "items q = n # ns" "length (items q) = acks x + of_bool (acker x = A_pushed)"
      using q(1) len assms(3) by simp_all
    with T_idle q show ?thesis using sends_next_idle by blast
  next
    case T_counted
    with q assms(3) show ?thesis by (intro sends_next_counted) simp_all
  next
    case (T_got m)
    with q knows assms(3) show ?thesis by (intro sends_next_got) simp
  next
    case (T_sent m)
    with q knows assms(3) obtain i: "items q = m # n # ns" by (cases "items q") simp_all
    then have pop: "SN_Free_Lock_Queue_Pop C (ack_q x) = (0, Some (queue_pop C q))"
      using q by (simp add: pop_Some)
    have next_idle: "sends_next C node n (x\<lparr>ack_q := Some (queue_pop C q), sender := T_idle\<rparr>)"
      by (rule sends_next_idle [of _ "queue_pop C q" n ns]) (use q i len T_sent in \<open>simp_all add: pop_items pop_inv\<close>)
    have "ack_step C node x (x\<lparr>ack_q := Some (queue_pop C q), sender := T_idle\<rparr>)"
      by (rule t_pop [OF _ pop]) (simp add: T_sent)
    from sends_next_step [OF this _ next_idle] show ?thesis by simp
  qed (use knows in simp_all)
qed

end

subsection \<open>With an overflow\<close>

text \<open>
  The receiving thread finds the queue full and drops its head while the sender still works on
  that head; the sender's pop then removes the next message, which nobody has sent.
\<close>

context cstl_queue
begin

lemma ack_race:
  assumes "ack_q x = Some q" and "wfq q" and "items q = a # b # rest"
    and "length (items q) = QUEUE_MAX_SIZE" and "acker x = A_idle" and "sender x = T_got a"
    and "msg_wf m"
  shows "\<exists>y. (ack_step C node)\<^sup>*\<^sup>* x y \<and> acks_sent y = acks_sent x @ [a] \<and>
     queue_content items (ack_q y) = rest @ [node_of m] \<and> acks_dropped y = Suc (acks_dropped x)"
proof -
  define q1 where "q1 = queue_pop C q"
  define q2 where "q2 = queue_pop C q1"
  have q1: "SN_Free_Lock_Queue_Pop C (Some q) = (0, Some q1)" "items q1 = b # rest" "wfq q1"
    using assms(2,3) pop_Some [OF assms(2)] pop_items [OF assms(2)] pop_inv [OF assms(2)]
    by (simp_all add: q1_def)
  then have q2: "SN_Free_Lock_Queue_Pop C (Some q1) = (0, Some q2)" "items q2 = rest" "wfq q2"
    using pop_Some [OF q1(3)] pop_items [OF q1(3)] pop_inv [OF q1(3)] by (simp_all add: q2_def)
  define x1 where "x1 = x\<lparr>acker := A_drop m\<rparr>"
  define x2 where "x2 = x1\<lparr>ack_q := Some q1, acker := A_room m, acks_dropped := acks_dropped x1 + 1\<rparr>"
  define x3 where "x3 = x2\<lparr>acks_sent := acks_sent x2 @ [a], sender := T_sent a\<rparr>"
  define x4 where "x4 = x3\<lparr>ack_q := Some q2, sender := T_idle\<rparr>"
  have "ack_step C node x x1"
    unfolding x1_def by (rule a_full [OF assms(5,7)]) (use assms(1,2,4) full_iff in simp)
  moreover have "ack_step C node x1 x2"
    unfolding x2_def by (rule a_drop) (simp_all add: x1_def assms(1) q1)
  moreover have "ack_step C node x2 x3"
    unfolding x3_def by (rule t_send) (simp add: x2_def x1_def assms(6))
  moreover have "ack_step C node x3 x4"
    unfolding x4_def by (rule t_pop) (simp_all add: x3_def x2_def q2)
  moreover have "ack_step C node x4 (x4\<lparr>ack_q := Some (queue_push C q2 (node_of m)),
      acker := A_pushed, acked := acked x4 @ [node_of m]\<rparr>)"
    by (rule a_push) (simp_all add: x4_def x3_def x2_def)
  ultimately have "(ack_step C node)\<^sup>*\<^sup>* x (x4\<lparr>ack_q := Some (queue_push C q2 (node_of m)),
      acker := A_pushed, acked := acked x4 @ [node_of m]\<rparr>)"
    by (meson converse_rtranclp_into_rtranclp rtranclp.rtrancl_refl)
  then show ?thesis
    by (intro exI conjI)
      (assumption | simp add: x4_def x3_def x2_def x1_def push_items [OF q2(3)] q2(2))+
qed

end

subsection \<open>Uninterrupted calls are runs of this machine\<close>

text \<open>
  An acknowledgement that nothing interrupts, and a turn of the acknowledgement thread that nothing
  interrupts, as the receiving and the acknowledgement thread model them, are sequences of steps.
\<close>

definition ack_views :: "('q, 'z) snmp_st_scheme \<Rightarrow> 'q ack_pipe \<Rightarrow> bool" where
  "ack_views s x \<longleftrightarrow> ack_q x = ack_queue s \<and> acks x = ack_sem s"

text \<open>The parts of a push that succeeds: the pop when the queue is full, then the container's push.\<close>

lemma push_msg_parts:
  assumes "push_msg C m pq = Some (ret, q')" and "ret \<noteq> -1" and "msg_wf m"
  obtains q p where "pq = Some q" and "q' = Some (queue_push C p (node_of m))"
    and "if SN_Free_Lock_Queue_full C pq = 1 then SN_Free_Lock_Queue_Pop C pq = (0, Some p) else p = q"
proof -
  have len: "length (encode_msg m) = QUEUE_LEN" "unat (of_nat QUEUE_LEN :: u16) = QUEUE_LEN"
    "4 \<le> QUEUE_LEN" "length (zeros QUEUE_LEN) = QUEUE_LEN"
    using assms(3) by (simp_all add: length_encode_msg len_defs)
  obtain q where q: "pq = Some q"
    using assms(1,2) by (cases pq) (auto simp: push_msg_def SN_Free_Lock_Queue_Push_def)
  let ?r = "if SN_Free_Lock_Queue_full C (Some q) = 1 then SN_Free_Lock_Queue_Pop C (Some q) else (0, Some q)"
  have "fst ?r \<noteq> -1" "q' = map_option (\<lambda>p. queue_push C p (node_of m)) (snd ?r)"
    using assms(1,2) len
    by (auto simp: push_msg_def q SN_Free_Lock_Queue_Push_def c_memcpy_def node_of_def
        split: prod.splits if_splits)
  moreover have "fst ?r = 0 \<or> fst ?r = -1" "snd ?r \<noteq> None"
    by (auto simp: SN_Free_Lock_Queue_Pop_def)
  ultimately show ?thesis using that [of q] q
    by (cases ?r) (auto split: if_splits)
qed

lemma set_ack_run:
  assumes "snmp_data_set_ack C m code err s = Some (r, s')" and "msg_wf m" and "ack_views s x"
    and "acker x = A_idle"
  shows "\<exists>y. (ack_step C node)\<^sup>*\<^sup>* x y \<and> ack_views s' y \<and> acker y = A_idle \<and> sender y = sender x \<and>
     acks_sent y = acks_sent x \<and>
     acked y = acked x @ (if r = -1 then [] else [node_of (stamp_msg CMD_ACK err code m)])"
proof -
  let ?m = "stamp_msg CMD_ACK err code m"
  have wf: "msg_wf ?m" using assms(2) by simp
  obtain q' ret where push: "push_msg C ?m (ack_q x) = Some (ret, q')"
    and r: "r = (if ret = -1 then -1 else 0)"
    and s': "s' = (if ret = -1 then s\<lparr>ack_queue := q'\<rparr> else s\<lparr>ack_queue := q', ack_sem := ack_sem s + 1\<rparr>)"
    using assms(1,3) by (auto simp: snmp_data_set_ack_def ack_views_def Let_def
        split: option.splits if_splits)
  show ?thesis
  proof (cases "ret = -1")
    case True
    from push True have "ack_q x = None \<and> q' = None \<or>
        SN_Free_Lock_Queue_full C (ack_q x) = 1 \<and> SN_Free_Lock_Queue_Pop C (ack_q x) = (-1, q')"
      by (auto simp: push_msg_def SN_Free_Lock_Queue_Push_def split: option.splits if_splits prod.splits)
    then show ?thesis
    proof
      assume "ack_q x = None \<and> q' = None"
      then show ?thesis
        using assms(3,4) True by (intro exI [of _ x]) (simp add: r s' ack_views_def)
    next
      assume full: "SN_Free_Lock_Queue_full C (ack_q x) = 1 \<and> SN_Free_Lock_Queue_Pop C (ack_q x) = (-1, q')"
      let ?x1 = "x\<lparr>acker := A_drop ?m\<rparr>"
      let ?x2 = "?x1\<lparr>ack_q := q', acker := A_idle\<rparr>"
      have "ack_step C node x ?x1" by (rule a_full [OF assms(4) wf]) (use full in simp)
      moreover have "ack_step C node ?x1 ?x2" by (rule a_drop_fails) (use full in simp_all)
      ultimately have "(ack_step C node)\<^sup>*\<^sup>* x ?x2"
        by (meson converse_rtranclp_into_rtranclp rtranclp.rtrancl_refl)
      then show ?thesis
        using assms(3) True by (intro exI [of _ ?x2]) (simp add: r s' ack_views_def)
    qed
  next
    case False
    from push_msg_parts [OF push False wf] obtain q p where
      q: "ack_q x = Some q" "q' = Some (queue_push C p (node_of ?m))"
      and p: "if SN_Free_Lock_Queue_full C (ack_q x) = 1 then SN_Free_Lock_Queue_Pop C (ack_q x) = (0, Some p)
        else p = q" .
    have "\<exists>y. (ack_step C node)\<^sup>*\<^sup>* x y \<and> ack_q y = Some p \<and> acker y = A_room ?m \<and> sender y = sender x \<and>
        acked y = acked x \<and> acks y = acks x \<and> acks_sent y = acks_sent x"
    proof (cases "SN_Free_Lock_Queue_full C (ack_q x) = 1")
      case True
      let ?x1 = "x\<lparr>acker := A_drop ?m\<rparr>"
      let ?x2 = "?x1\<lparr>ack_q := Some p, acker := A_room ?m, acks_dropped := acks_dropped ?x1 + 1\<rparr>"
      have "ack_step C node x ?x1" by (rule a_full [OF assms(4) wf True])
      moreover have "ack_step C node ?x1 ?x2" by (rule a_drop) (use p True in simp_all)
      ultimately have "(ack_step C node)\<^sup>*\<^sup>* x ?x2"
        by (meson converse_rtranclp_into_rtranclp rtranclp.rtrancl_refl)
      then show ?thesis by (intro exI [of _ ?x2]) simp
    next
      case False
      have "ack_step C node x (x\<lparr>acker := A_room ?m\<rparr>)" by (rule a_room [OF assms(4) wf False])
      then show ?thesis using p False q(1) by (intro exI [of _ "x\<lparr>acker := A_room ?m\<rparr>"]) auto
    qed
    then obtain y where y: "(ack_step C node)\<^sup>*\<^sup>* x y" "ack_q y = Some p" "acker y = A_room ?m"
      "sender y = sender x" "acked y = acked x" "acks y = acks x" "acks_sent y = acks_sent x" by blast
    let ?y1 = "y\<lparr>ack_q := Some (queue_push C p (node_of ?m)), acker := A_pushed, acked := acked y @ [node_of ?m]\<rparr>"
    let ?y2 = "?y1\<lparr>acks := acks ?y1 + 1, acker := A_idle\<rparr>"
    have "ack_step C node y ?y1" by (rule a_push [OF y(3,2)])
    moreover have "ack_step C node ?y1 ?y2" by (rule a_post) simp
    ultimately have "(ack_step C node)\<^sup>*\<^sup>* x ?y2" using y(1) by (meson rtranclp.rtrancl_into_rtrancl)
    then show ?thesis
      using assms(3) False by (intro exI [of _ ?y2]) (simp add: y s' r q(2) ack_views_def)
  qed
qed

text \<open>What the receiving thread does to the queue, as runs that leave the sender where it is.\<close>

definition ack_runs ::
  "'q cstl_ops \<Rightarrow> sn_msg_param \<Rightarrow> ('q, 'z) snmp_st_scheme \<Rightarrow> ('q, 'z) snmp_st_scheme \<Rightarrow> bool" where
  "ack_runs C node s s' \<longleftrightarrow>
     (\<forall>x. ack_views s x \<and> acker x = A_idle \<longrightarrow>
        (\<exists>y. (ack_step C node)\<^sup>*\<^sup>* x y \<and> ack_views s' y \<and> acker y = A_idle \<and> sender y = sender x \<and>
             acks_sent y = acks_sent x))"

lemma ack_runs_refl: "ack_views s = ack_views s' \<Longrightarrow> ack_runs C node s s'"
  by (auto simp: ack_runs_def)

lemma ack_runs_trans: "ack_runs C node s t \<Longrightarrow> ack_runs C node t u \<Longrightarrow> ack_runs C node s u"
  unfolding ack_runs_def by (metis rtranclp_trans)

lemma ack_runs_hist [intro]: "ack_runs C node s (s\<lparr>hist := h\<rparr>)"
  by (rule ack_runs_refl) (simp add: ack_views_def fun_eq_iff)

lemma ack_runs_same [intro]: "ack_runs C node s s"
  by (rule ack_runs_refl) simp

lemma set_ack_runs: "snmp_data_set_ack C m code err s = Some (r, s') \<Longrightarrow> msg_wf m \<Longrightarrow> ack_runs C node s s'"
  unfolding ack_runs_def using set_ack_run [of C m code err s r s'] by blast

lemma data_ack_runs: "snmp_data_ack C m code s = Some (r, s') \<Longrightarrow> msg_wf m \<Longrightarrow> ack_runs C node s s'"
  by (simp add: snmp_data_ack_eq set_ack_runs)

lemma ack_string_runs: "ack_string C b code s = Some (r, s') \<Longrightarrow> ack_runs C node s s'"
  by (auto simp: ack_string_def split: bind_splits dest!: c_strcpy_length intro!: data_ack_runs set_u_data_wf)

lemma net_ack_runs:
  "get_net_parameter E b flag s = Some (r, b', s') \<Longrightarrow> ack_runs C node s s'"
  "get_gateway E g s = Some (r, g', s') \<Longrightarrow> ack_runs C node s s'"
  "set_ipaddress E ip s = (r, s') \<Longrightarrow> ack_runs C node s s'"
  "set_netmask E ip s = (r, s') \<Longrightarrow> ack_runs C node s s'"
  "set_gateway E ip s = (r, s') \<Longrightarrow> ack_runs C node s s'"
  using get_net_parameter_frame [of E b flag s r b' s'] get_gateway_frame [of E g s r g' s']
    set_ipaddress_frame [of E ip s r s'] set_netmask_frame [of E ip s r s']
    set_gateway_frame [of E ip s r s']
  by auto

text \<open>The version handlers print into the data of a cleared message.\<close>

lemma version_wf:
  "get_arm_version v (Some (u_data (snmp_msg msg_0))) = Some (k, Some b) \<Longrightarrow> msg_wf (set_u_data b msg_0)"
  "get_hardware_version (Some (u_data (snmp_msg msg_0))) = Some (k, Some b) \<Longrightarrow> msg_wf (set_u_data b msg_0)"
  by (auto simp: get_arm_version_def get_hardware_version_def split: option.splits
      intro!: set_u_data_wf dest!: c_store_length)

lemma run_handler_ack_runs: "run_handler E C h m s = Some (r, s') \<Longrightarrow> ack_runs C node s s'"
  by (cases h)
     (auto simp: handler_defs Let_def split: bind_splits if_splits prod.splits
       dest: version_wf dest!: net_ack_runs [where C = C and node = node] ack_string_runs [where node = node]
         set_ack_runs [where node = node, OF _ msg_wf_0]
       intro: ack_runs_trans data_ack_runs)

lemma dispatch_ack_runs: "dispatch E C m s = Inr (r, s') \<Longrightarrow> ack_runs C node s s'"
  by (auto simp: dispatch_def Let_def run_handler_ack_runs split: if_splits option.splits)

context cstl_queue
begin

lemma ack_turn_run:
  assumes "queue_ok items wfq (ack_queue s)" and "queue_content items (ack_queue s) = n # ns"
    and "node_ok n" and "length msg = QUEUE_LEN" and "ack_sem s = Suc k" and "ack_views s x"
    and "sender x = T_idle" and "snmp_send_ack_turn E C qid node msg s = Done (Next (msg', s'))"
  shows "\<exists>y. (ack_step C node)\<^sup>*\<^sup>* x y \<and> ack_views s' y \<and> sender y = T_idle \<and> acker y = acker x \<and>
     acks_sent y = acks_sent x @ [n] \<and> msg' = data n"
proof -
  obtain q0 where q0: "ack_queue s = Some q0" "wfq q0" "items q0 = n # ns"
    using assms(1,2) by (auto simp: queue_ok_def split: option.splits)
  have "c_memcpy msg (data n) (unat (length_of n)) = Some (data n)" "4 + (QUEUE_LEN - 4) = length (data n)"
    using assms(3,4) node_fits [OF assms(3)] by (simp_all add: c_memcpy_all node_ok_def)
  then have s': "msg' = data n" "ack_queue s' = Some (queue_pop C q0)" "ack_sem s' = k"
    using q0 assms(5,8) get_Some [OF q0(2)] pop_Some [OF q0(2)]
    by (auto simp: snmp_send_ack_turn_def sys_msgsnd_def emit_def sem_wait_def Let_def)
  define x1 where "x1 = x\<lparr>acks := k, sender := T_counted\<rparr>"
  define x2 where "x2 = x1\<lparr>sender := T_got n\<rparr>"
  define x3 where "x3 = x2\<lparr>acks_sent := acks_sent x2 @ [n], sender := T_sent n\<rparr>"
  have x: "ack_q x = Some q0" "acks x = Suc k" using assms(5,6) q0(1) by (simp_all add: ack_views_def)
  have "ack_step C node x x1"
    unfolding x1_def by (rule t_count [OF assms(7)]) (simp add: sem_wait_def x)
  moreover have "ack_step C node x1 x2"
    unfolding x2_def by (rule t_get) (simp_all add: x1_def x get_Some [OF q0(2)] q0(3))
  moreover have "ack_step C node x2 x3"
    unfolding x3_def by (rule t_send) (simp add: x2_def)
  moreover have "ack_step C node x3 (x3\<lparr>ack_q := Some (queue_pop C q0), sender := T_idle\<rparr>)"
    by (rule t_pop) (simp_all add: x3_def x2_def x1_def x pop_Some [OF q0(2)] q0(3))
  ultimately have "(ack_step C node)\<^sup>*\<^sup>* x (x3\<lparr>ack_q := Some (queue_pop C q0), sender := T_idle\<rparr>)"
    by (meson converse_rtranclp_into_rtranclp rtranclp.rtrancl_refl)
  then show ?thesis
    by (intro exI conjI) (assumption | simp add: x3_def x2_def x1_def ack_views_def s')+
qed

text \<open>A sender that finds the queue empty runs to its end.\<close>

lemma ack_exit_run:
  assumes "queue_ok items wfq (ack_queue s)" and "queue_content items (ack_queue s) = []"
    and "ack_sem s = Suc k" and "ack_views s x" and "sender x = T_idle"
    and "snmp_send_ack_turn E C qid node msg s = Done (Thread_exit (msg', s'))"
  shows "\<exists>y. (ack_step C node)\<^sup>*\<^sup>* x y \<and> ack_views s' y \<and> sender y = T_dead \<and> acker y = acker x \<and>
     acks_sent y = acks_sent x \<and> hist s' = hist s"
proof -
  obtain q0 where q0: "ack_queue s = Some q0" "wfq q0" "items q0 = []"
    using assms(1,2) by (auto simp: queue_ok_def split: option.splits)
  have s': "ack_queue s' = Some q0" "ack_sem s' = k" "hist s' = hist s"
    using q0 assms(3,6) get_Some [OF q0(2)] pop_Some [OF q0(2)]
    by (auto simp: snmp_send_ack_turn_def sem_wait_def Let_def)
  define x1 where "x1 = x\<lparr>acks := k, sender := T_counted\<rparr>"
  define x2 where "x2 = x1\<lparr>sender := T_missed\<rparr>"
  have x: "ack_q x = Some q0" "acks x = Suc k" using assms(3,4) q0(1) by (simp_all add: ack_views_def)
  have "ack_step C node x x1"
    unfolding x1_def by (rule t_count [OF assms(5)]) (simp add: sem_wait_def x)
  moreover have "ack_step C node x1 x2"
    unfolding x2_def
    by (rule t_get_fails [where ret = "-1" and n = "Some node"])
      (simp_all add: x1_def x get_Some [OF q0(2)] q0(3))
  moreover have "ack_step C node x2 (x2\<lparr>ack_q := Some q0, sender := T_dead\<rparr>)"
    by (rule t_pop_fails [where ret = "-1" and n = node])
      (simp_all add: x2_def x1_def x pop_Some [OF q0(2)] q0(3))
  ultimately have "(ack_step C node)\<^sup>*\<^sup>* x (x2\<lparr>ack_q := Some q0, sender := T_dead\<rparr>)"
    by (meson converse_rtranclp_into_rtranclp rtranclp.rtrancl_refl)
  then show ?thesis
    by (intro exI conjI) (assumption | simp add: x2_def x1_def ack_views_def s')+
qed

end

subsection \<open>Properties\<close>

text \<open>
  C23. Order on the acknowledgement queue, for every interleaving: as long as no push has found the
  queue full, what was sent and what is queued and not yet sent are exactly what was
  acknowledged, in order, and the sender is still running.
\<close>

theorem ack_pipeline_order:
  assumes "cstl_queue C items wfq" and "reach (ack_start items wfq) (ack_step C node) x"
    and "acks_dropped x = 0"
  shows "acked x = acks_sent x @ unsent (sender x) (queue_content items (ack_q x)) \<and>
     sender x \<noteq> T_dead"
  using cstl_queue.ack_reach [OF assms(1,2)] assms(3) by (auto simp: ack_inv_def)

definition ack_pipe_0 :: "sn_msg_param list ack_pipe" where
  "ack_pipe_0 = \<lparr>ack_q = Some [], acks = 0, acker = A_idle, sender = T_idle, acked = [], acks_sent = [],
     acks_dropped = 0\<rparr>"

lemma reach_ack_pipe:
  "reach (ack_start (\<lambda>q. q) (\<lambda>q. True)) (ack_step list_cstl sample_node)
     (ack_pipe_0\<lparr>ack_q := Some [node_of msg_0], acker := A_pushed, acked := [node_of msg_0]\<rparr>)"
proof -
  have "reach (ack_start (\<lambda>q. q) (\<lambda>q. True)) (ack_step list_cstl sample_node) ack_pipe_0"
    by (rule reach_init) (simp add: ack_start_def ack_pipe_0_def queue_ok_def)
  moreover have "ack_step list_cstl sample_node ack_pipe_0 (ack_pipe_0\<lparr>acker := A_room msg_0\<rparr>)"
    by (rule a_room) (simp_all add: ack_pipe_0_def lq.full_iff SN_Free_Lock_Queue_full_def list_cstl_def
        QUEUE_MAX_SIZE_def)
  moreover have "ack_step list_cstl sample_node (ack_pipe_0\<lparr>acker := A_room msg_0\<rparr>)
      (ack_pipe_0\<lparr>ack_q := Some [node_of msg_0], acker := A_pushed, acked := [node_of msg_0]\<rparr>)"
    using a_push [of "ack_pipe_0\<lparr>acker := A_room msg_0\<rparr>" msg_0 "[]" list_cstl sample_node]
    by (simp add: ack_pipe_0_def list_cstl_def)
  ultimately show ?thesis by (blast intro: reach_step)
qed

theorem ack_pipeline_order_witness:
  "acks_sent (ack_pipe_0\<lparr>ack_q := Some [node_of msg_0], acker := A_pushed, acked := [node_of msg_0]\<rparr>)
     @ [node_of msg_0] = [node_of msg_0]"
  using ack_pipeline_order [OF lq.cstl_queue_axioms reach_ack_pipe] by (simp add: ack_pipe_0_def)

text \<open>
  C24. Progress on the acknowledgement queue, for every interleaving: as long as no push has found the
  queue full, in every state with a message that is not yet sent, wherever the two threads
  are, the machine can continue so that the oldest such message is the next one sent.
\<close>

theorem ack_pipeline_delivers:
  assumes "cstl_queue C items wfq" and "reach (ack_start items wfq) (ack_step C node) x"
    and "acks_dropped x = 0" and "unsent (sender x) (queue_content items (ack_q x)) = n # ns"
  shows "\<exists>y. (ack_step C node)\<^sup>*\<^sup>* x y \<and> acks_sent y = acks_sent x @ [n]"
  using cstl_queue.sends_next_always [OF assms(1) cstl_queue.ack_reach [OF assms(1,2)] assms(3,4)]
  by (simp add: sends_next_def)

theorem ack_pipeline_delivers_witness:
  "\<exists>y. (ack_step list_cstl sample_node)\<^sup>*\<^sup>*
      (ack_pipe_0\<lparr>ack_q := Some [node_of msg_0], acker := A_pushed, acked := [node_of msg_0]\<rparr>) y \<and>
    acks_sent y = [node_of msg_0]"
  using ack_pipeline_delivers [OF lq.cstl_queue_axioms reach_ack_pipe]
  by (simp add: ack_pipe_0_def)

text \<open>
  C25. The missing mutex: with a full queue whose head \<open>a\<close> the sender has just read, one more
  acknowledgement can lose a message. The push drops \<open>a\<close> to make room, the sender sends \<open>a\<close> and
  then pops \<open>b\<close>: afterwards \<open>b\<close> has not been sent and is not queued, although only \<open>a\<close> was
  dropped.
\<close>

theorem ack_pipeline_race:
  assumes "cstl_queue C items wfq" and "ack_q x = Some q" and "wfq q" and "items q = a # b # rest"
    and "length (items q) = QUEUE_MAX_SIZE" and "acker x = A_idle" and "sender x = T_got a"
    and "msg_wf m"
  shows "\<exists>y. (ack_step C node)\<^sup>*\<^sup>* x y \<and> acks_sent y = acks_sent x @ [a] \<and>
     queue_content items (ack_q y) = rest @ [node_of m] \<and> acks_dropped y = Suc (acks_dropped x)"
  by (rule cstl_queue.ack_race [OF assms])

theorem ack_pipeline_race_witness:
  "\<exists>y. (ack_step list_cstl sample_node)\<^sup>*\<^sup>*
      (ack_pipe_0\<lparr>ack_q := Some (replicate QUEUE_MAX_SIZE sample_node), sender := T_got sample_node\<rparr>) y \<and>
     acks_sent y = [sample_node] \<and>
     queue_content (\<lambda>q. q) (ack_q y) = replicate 2046 sample_node @ [node_of msg_0]"
proof -
  let ?q = "replicate QUEUE_MAX_SIZE sample_node"
  have Q: "QUEUE_MAX_SIZE = Suc (Suc 2046)" by (simp add: QUEUE_MAX_SIZE_def)
  have "?q = sample_node # sample_node # replicate 2046 sample_node"
    unfolding Q by (simp only: replicate_Suc)
  from ack_pipeline_race [OF lq.cstl_queue_axioms _ TrueI this, of "ack_pipe_0\<lparr>ack_q := Some ?q,
      sender := T_got sample_node\<rparr>" msg_0 sample_node]
  show ?thesis by (auto simp: ack_pipe_0_def simp del: replicate_Suc)
qed

end
