(* ===== verification/System_Traces.thy ===== *)
theory System_Traces
  imports System_Progress Trap_Pipeline Ack_Pipeline
begin

text \<open>
  The whole program against the two queue machines: each step of \<open>Clock_System\<close>, in which turns are
  atomic, is matched by steps of \<open>Trap_Pipeline\<close> and of \<open>Ack_Pipeline\<close>, such that queues and
  semaphores agree and the messages in the history are the ones the machine has sent. These
  are forward simulations in the sense of \<open>Prelude\<close>, so every reachable state of the program
  has a reachable counterpart in both machines, and what holds of those holds of the program.
\<close>

subsection \<open>The trap queue\<close>

text \<open>\<open>b\<close> are the messages that had been sent when the threads started.\<close>

definition trap_sim :: "string list \<Rightarrow> 'q clock_system \<Rightarrow> 'q pipe \<Rightarrow> bool" where
  "trap_sim b x p \<longleftrightarrow>
     views (shared x) p \<and> prod p = P_idle \<and> (send_alive x \<longrightarrow> cons p = S_idle) \<and>
     trap_sends (shared x) = b @ map data (sent p)"

lemma trap_sim_frame:
  assumes "trap_sim b x p" and "views (shared y) = views (shared x)" and "send_alive y = send_alive x"
    and "trap_sends (shared y) = trap_sends (shared x)"
  shows "trap_sim b y p"
  using assms by (simp add: trap_sim_def)

lemma trap_sim_runs:
  assumes "trap_sim b x p" and "trap_runs C node (shared x) (shared y)" and "send_alive y = send_alive x"
    and "trap_sends (shared y) = trap_sends (shared x)"
  shows "\<exists>q. (pipe_step C node)\<^sup>*\<^sup>* p q \<and> trap_sim b y q"
  using assms unfolding trap_sim_def trap_runs_def by metis

lemma views_mgmt: "mgmt s = mgmt t \<Longrightarrow> views s = views t"
  by (simp add: mgmt_def views_def fun_eq_iff)

lemma gps_turn_mgmt: "mgmt (check_gps_turn E s) = mgmt s"
  using own_check_gps [of E s] by (simp add: own_def)

lemma ptp_turn_mgmt:
  "send_ptp_turn E l s = Some (Next (l', t)) \<Longrightarrow> mgmt t = mgmt s"
  "send_ptp_turn E l s = Some (Thread_exit (l', t)) \<Longrightarrow> mgmt t = mgmt s"
  using own_send_ptp_turn(1) [of E l s l' t] own_ptp_exit(1) [of E l s l' t] by (simp_all add: own_def)

lemma handler_frame_send:
  "handler_frame s t \<Longrightarrow> send_queue t = send_queue s \<and> sem_full t = sem_full s \<and> sem_mutex t = sem_mutex s"
  by (simp add: handler_frame_flag)

lemma recv_turn_frame:
  assumes "snmp_recv_turn E C rq s = Inr t"
  shows "send_queue t = send_queue s \<and> sem_full t = sem_full s \<and> sem_mutex t = sem_mutex s"
  using assms
  by (auto simp: snmp_recv_turn_def sys_defs emit_def Let_def split: option.splits if_splits prod.splits
      dest!: map_sum_InrD dispatch_frame handler_frame_send)

context cstl_queue
begin

lemma ack_turn_trap_frame:
  assumes "snmp_send_ack_turn E C aq node msg s = Done r"
  obtains m t where "r = Next (m, t) \<or> r = Thread_exit (m, t)" and "views t = views s"
    and "trap_sends t = trap_sends s"
proof -
  obtain m t where r: "r = Next (m, t) \<or> r = Thread_exit (m, t)" by (cases r) auto
  show ?thesis
  proof (rule that [OF r])
    show "views t = views s"
      using assms r
      by (auto simp: snmp_send_ack_turn_def sys_msgsnd_def emit_def Let_def views_def fun_eq_iff
          split: option.splits prod.splits if_splits)
    show "trap_sends t = trap_sends s" by (rule trap_sends_ack_turn [OF assms r])
  qed
qed

end

context clock_world
begin

lemma send_step_trap:
  assumes "shared_inv items wfq s" and "length msg = QUEUE_LEN" and "views s p" and "cons p = S_idle"
    and "snmp_send_turn E C node msg s = Done (Next (m, t))"
  shows "\<exists>q n. (pipe_step C node)\<^sup>*\<^sup>* p q \<and> views t q \<and> cons q = S_idle \<and> prod q = prod p \<and>
     sent q = sent p @ [n] \<and> trap_sends t = trap_sends s @ [data n]"
proof -
  note inv = assms(1) [unfolded shared_inv_def traps_ok_def]
  obtain f where f: "sem_full s = Suc f" and qid: "0 \<le> e_msgget E (hist s) KEY_ID_SEND IPC_EXCL"
    using assms(5) by (cases "sem_full s")
      (auto simp: snmp_send_turn_def sys_msgget_def emit_def sem_wait_def split: if_splits)
  have mutex: "sem_mutex s = Suc 0" using inv by simp
  obtain n ns where n: "queue_content items (send_queue s) = n # ns"
  proof (cases "queue_content items (send_queue s)")
    case Nil
    with send_turn_empty [OF _ Nil refl qid f mutex, of node msg] inv assms(5) show ?thesis by simp
  qed (rule that)
  then have ok: "node_ok n" using inv by simp
  obtain q where "snmp_send_turn E C node msg s = Done (Next (data n,
      s\<lparr>hist := hist s @ sent_trap E (hist s) (data n), send_queue := q, sem_full := f\<rparr>))"
    using send_turn_sends [OF _ n ok assms(2) qid f mutex, of node] inv by metis
  with assms(5) have "trap_sends t = trap_sends s @ [data n]"
    by (auto simp: trap_sends_def sends_append sent_trap_def)
  moreover have "queue_ok items wfq (send_queue s)" using inv by simp
  from send_turn_run [OF this n ok assms(2) qid f mutex assms(3-5)]
  obtain q where "(pipe_step C node)\<^sup>*\<^sup>* p q" "views t q" "cons q = S_idle" "prod q = prod p"
    "sent q = sent p @ [n]" by blast
  ultimately show ?thesis by blast
qed

lemma send_exit_trap:
  assumes "shared_inv items wfq s" and "views s p" and "cons p = S_idle" and "length msg = QUEUE_LEN"
    and "snmp_send_turn E C node msg s = Done (Thread_exit (m, t))"
  shows "\<exists>q. (pipe_step C node)\<^sup>*\<^sup>* p q \<and> views t q \<and> prod q = prod p \<and> sent q = sent p \<and>
     trap_sends t = trap_sends s"
proof (cases "e_msgget E (hist s) KEY_ID_SEND IPC_EXCL < 0")
  case True
  then have t: "t = s\<lparr>hist := hist s @ [Ev_msgget KEY_ID_SEND IPC_EXCL]\<rparr>"
    using assms(5) by (simp add: snmp_send_turn_def sys_msgget_def emit_def)
  have "pipe_step C node p (p\<lparr>cons := S_lost\<rparr>)" by (rule s_lost [OF assms(3)])
  with t assms(2) show ?thesis
    by (intro exI [of _ "p\<lparr>cons := S_lost\<rparr>"]) (auto simp: trap_sends_def sends_append views_def)
next
  case False
  note inv = assms(1) [unfolded shared_inv_def traps_ok_def]
  obtain f where f: "sem_full s = Suc f" and qid: "0 \<le> e_msgget E (hist s) KEY_ID_SEND IPC_EXCL"
    using assms(5) False by (cases "sem_full s")
      (auto simp: snmp_send_turn_def sys_msgget_def emit_def sem_wait_def split: if_splits)
  have mutex: "sem_mutex s = Suc 0" using inv by simp
  have empty: "queue_content items (send_queue s) = []"
  proof (cases "queue_content items (send_queue s)")
    case (Cons n ns)
    then have "node_ok n" using inv by simp
    from send_turn_sends [OF _ Cons this assms(4) qid f mutex, of node] inv assms(5)
    show ?thesis by (metis outcome.inject turn.distinct(1))
  qed
  have "t = s\<lparr>hist := hist s @ [Ev_msgget KEY_ID_SEND IPC_EXCL], sem_full := f\<rparr>"
    using send_turn_empty [OF _ empty refl qid f mutex, of node msg] inv assms(5) by simp
  moreover have "queue_ok items wfq (send_queue s)" using inv by simp
  ultimately show ?thesis
    using send_exit_run [OF _ empty f mutex assms(2,3), of node "hist s @ [Ev_msgget KEY_ID_SEND IPC_EXCL]"]
    by (auto simp: trap_sends_def sends_append)
qed

lemma trap_sim_step:
  assumes "sys_inv items wfq x" and "trap_sim b x p" and "sys_step E C node q aq x y"
  shows "\<exists>p'. (pipe_step C node)\<^sup>*\<^sup>* p p' \<and> trap_sim b y p'"
proof -
  have s: "shared_inv items wfq (shared x)" "length (send_msg x) = QUEUE_LEN"
    using assms(1) by (simp_all add: sys_inv_def)
  have stay: ?thesis if "views (shared y) = views (shared x)" "send_alive y = send_alive x"
    "trap_sends (shared y) = trap_sends (shared x)"
    using trap_sim_frame [OF assms(2) that] by blast
  have own: ?thesis if "mgmt (shared y) = mgmt (shared x)" "send_alive y = send_alive x"
    "traffic (hist (shared y)) = traffic (hist (shared x))"
    using stay [OF views_mgmt [OF that(1)] that(2)] sends_same [OF that(3)] by simp
  from assms(3) show ?thesis
  proof cases
    case gps
    show ?thesis by (rule own) (simp_all add: gps gps_turn_mgmt traffic_check_gps)
  next
    case (ptp l t)
    show ?thesis by (rule own) (simp_all add: ptp ptp_turn_mgmt(1) [OF ptp(3)] traffic_ptp_turn(1) [OF ptp(3)])
  next
    case (ptp_exit l t)
    show ?thesis
      by (rule own) (simp_all add: ptp_exit ptp_turn_mgmt(2) [OF ptp_exit(3)] traffic_ptp_turn(2) [OF ptp_exit(3)])
  next
    case (recv t)
    from recv_turn_frame [OF recv(2)] have "views t = views (shared x)" by (simp add: views_def fun_eq_iff)
    moreover have "trap_sends t = trap_sends (shared x)"
      by (rule sends_same(1) [OF traffic_recv_turn [OF recv(2)]])
    ultimately show ?thesis by (intro stay) (simp_all add: recv(1))
  next
    case (second t)
    have "trap_sends t = trap_sends (shared x)" by (rule sends_same(1) [OF traffic_second_task [OF second(2)]])
    with second trap_sim_runs [OF assms(2), of C node y] second_task_runs [OF second(2), of node]
    show ?thesis by simp
  next
    case (send m t)
    with assms(2) have v: "views (shared x) p" "cons p = S_idle" "prod p = P_idle"
      "trap_sends (shared x) = b @ map data (sent p)" by (simp_all add: trap_sim_def)
    from send_step_trap [OF s v(1,2) send(3)] obtain q n where "(pipe_step C node)\<^sup>*\<^sup>* p q"
      "views t q" "cons q = S_idle" "prod q = prod p" "sent q = sent p @ [n]"
      "trap_sends t = trap_sends (shared x) @ [data n]" by blast
    with v send(1) show ?thesis by (intro exI [of _ q]) (simp add: trap_sim_def)
  next
    case (send_exit m t)
    with assms(2) have v: "views (shared x) p" "cons p = S_idle" "prod p = P_idle"
      "trap_sends (shared x) = b @ map data (sent p)" by (simp_all add: trap_sim_def)
    from send_exit_trap [OF s(1) v(1,2) s(2) send_exit(3)] obtain q where "(pipe_step C node)\<^sup>*\<^sup>* p q"
      "views t q" "prod q = prod p" "sent q = sent p" "trap_sends t = trap_sends (shared x)" by blast
    with v send_exit(1) show ?thesis by (intro exI [of _ q]) (simp add: trap_sim_def)
  next
    case (ack m t)
    from ack_turn_trap_frame [OF ack(3)] have "views t = views (shared x)"
      "trap_sends t = trap_sends (shared x)" by (metis prod.inject turn.inject(1) turn.distinct(1))+
    then show ?thesis by (intro stay) (simp_all add: ack(1))
  next
    case (ack_exit m t)
    from ack_turn_trap_frame [OF ack_exit(3)] have "views t = views (shared x)"
      "trap_sends t = trap_sends (shared x)" by (metis prod.inject turn.inject(2) turn.distinct(1))+
    then show ?thesis by (intro stay) (simp_all add: ack_exit(1))
  next
    case timer
    show ?thesis
      by (rule stay) (simp_all add: timer signal_handler_def views_def fun_eq_iff trap_sends_def)
  qed
qed

end

lemma trap_sim_start:
  assumes "sys_start items wfq x"
  shows "\<exists>p. pipe_start items wfq p \<and> trap_sim (trap_sends (shared x)) x p"
proof (intro exI conjI)
  let ?p = "\<lparr>trap_q = send_queue (shared x), mutex = 1, full = 0, prod = P_idle, cons = S_idle,
    pushed = [], sent = [], dropped = 0\<rparr>"
  show "pipe_start items wfq ?p" "trap_sim (trap_sends (shared x)) x ?p"
    using assms by (simp_all add: sys_start_def ready_def snmp_inv_def pipe_start_def trap_sim_def views_def)
qed

sublocale clock_world \<subseteq> traps: forward_simulation
  "\<lambda>x. sys_start items wfq x \<and> trap_sends (shared x) = b" "sys_step E C node q aq" "sys_inv items wfq"
  "pipe_start items wfq" "pipe_step C node" "trap_sim b" for b
  by unfold_locales (auto intro: start_inv sys_step_keeps trap_sim_step dest: trap_sim_start)

subsection \<open>The acknowledgement queue\<close>

definition ack_sim :: "string list \<Rightarrow> 'q clock_system \<Rightarrow> 'q ack_pipe \<Rightarrow> bool" where
  "ack_sim b x p \<longleftrightarrow>
     ack_views (shared x) p \<and> acker p = A_idle \<and> (ack_alive x \<longrightarrow> sender p = T_idle) \<and>
     ack_sends (shared x) = b @ map data (acks_sent p)"

lemma ack_sim_frame:
  assumes "ack_sim b x p" and "ack_views (shared y) = ack_views (shared x)" and "ack_alive y = ack_alive x"
    and "ack_sends (shared y) = ack_sends (shared x)"
  shows "ack_sim b y p"
  using assms by (simp add: ack_sim_def)

lemma ack_sim_runs:
  assumes "ack_sim b x p" and "ack_runs C node (shared x) (shared y)" and "ack_alive y = ack_alive x"
    and "ack_sends (shared y) = ack_sends (shared x)"
  shows "\<exists>q. (ack_step C node)\<^sup>*\<^sup>* p q \<and> ack_sim b y q"
  using assms unfolding ack_sim_def ack_runs_def by metis

lemma ack_views_mgmt: "mgmt s = mgmt t \<Longrightarrow> ack_views s = ack_views t"
  by (simp add: mgmt_def ack_views_def fun_eq_iff)

lemma ack_views_update [simp]:
  "ack_views (s\<lparr>hist := h\<rparr>) = ack_views s" "ack_views (s\<lparr>flag_trap := f\<rparr>) = ack_views s"
  "ack_views (s\<lparr>trapsignal := k\<rparr>) = ack_views s" "ack_views (s\<lparr>ClockParameter := p\<rparr>) = ack_views s"
  "ack_views (emit e s) = ack_views s"
  by (simp_all add: ack_views_def fun_eq_iff emit_def)

text \<open>Queueing traps and sending them leaves the acknowledgements alone.\<close>

lemma data_trap_ack_frame: "snmp_data_trap C m code s = Done (r, t) \<Longrightarrow> ack_views t = ack_views s"
  by (auto simp: snmp_data_trap_def Let_def ack_views_def fun_eq_iff split: option.splits if_splits)

lemma trap_msg_ack_frame: "Trap_msg_to_snmpd E C code s = Done t \<Longrightarrow> ack_views t = ack_views s"
  by (auto simp: Trap_msg_to_snmpd_def Let_def split: option.splits bind_splits outcome.splits
      dest!: get_net_parameter_frame data_trap_ack_frame)

lemma send_traps_ack_frame: "send_traps E C codes s = Done t \<Longrightarrow> ack_views t = ack_views s"
  by (induction codes arbitrary: s) (auto split: outcome.splits dest!: trap_msg_ack_frame)

lemma second_task_ack_frame: "second_task_turn E C s = Done t \<Longrightarrow> ack_views t = ack_views s"
  by (auto simp: second_task_turn_def refresh_cdd_param_def simp del: send_traps.simps
      split: option.splits if_splits dest!: send_traps_ack_frame)

lemma send_turn_ack_frame:
  assumes "snmp_send_turn E C node msg s = Done r" and "r = Next (m, t) \<or> r = Thread_exit (m, t)"
  shows "ack_views t = ack_views s" and "ack_sends t = ack_sends s"
proof -
  show "ack_views t = ack_views s"
    using assms
    by (auto simp: snmp_send_turn_def sys_msgsnd_def sys_msgget_def emit_def Let_def ack_views_def fun_eq_iff
        split: option.splits prod.splits if_splits)
  show "ack_sends t = ack_sends s" by (rule ack_sends_send_turn [OF assms])
qed

lemma ack_runs_from: "ack_runs C node u t \<Longrightarrow> ack_views s = ack_views u \<Longrightarrow> ack_runs C node s t"
  by (simp add: ack_runs_def)

lemma recv_turn_ack_runs: "snmp_recv_turn E C rq s = Inr t \<Longrightarrow> ack_runs C node s t"
  by (auto simp: snmp_recv_turn_def sys_defs Let_def split: option.splits prod.splits if_splits
      dest!: map_sum_InrD dispatch_ack_runs [where node = node] intro: ack_runs_from ack_runs_refl)

context clock_world
begin

lemma ack_step_sim:
  assumes "shared_inv items wfq s" and "length msg = QUEUE_LEN" and "ack_views s p" and "sender p = T_idle"
    and "snmp_send_ack_turn E C aq node msg s = Done (Next (m, t))"
  shows "\<exists>q n. (ack_step C node)\<^sup>*\<^sup>* p q \<and> ack_views t q \<and> sender q = T_idle \<and> acker q = acker p \<and>
     acks_sent q = acks_sent p @ [n] \<and> ack_sends t = ack_sends s @ [data n]"
proof -
  note inv = assms(1) [unfolded shared_inv_def acks_ok_def]
  obtain k where k: "ack_sem s = Suc k"
    using assms(5) by (cases "ack_sem s") (auto simp: ack_turn_waits)
  have ok: "queue_ok items wfq (ack_queue s)" using inv by simp
  obtain n ns where n: "queue_content items (ack_queue s) = n # ns"
  proof (cases "queue_content items (ack_queue s)")
    case Nil
    obtain q where q: "ack_queue s = Some q" "wfq q" "items q = []"
      using ok Nil by (auto simp: queue_ok_def split: option.splits)
    with assms(5) k get_Some [OF q(2)] pop_Some [OF q(2)] show ?thesis
      by (simp add: snmp_send_ack_turn_def sem_wait_def Let_def)
  qed (rule that)
  then have nok: "node_ok n" using inv by simp
  obtain q where "snmp_send_ack_turn E C aq node msg s = Done (Next (data n,
      s\<lparr>hist := hist s @ sent_acks aq [n], ack_queue := q, ack_sem := k\<rparr>))"
    using ack_turn_sends [OF ok n nok assms(2) k] by metis
  with assms(5) have "ack_sends t = ack_sends s @ [data n]"
    by (auto simp: ack_sends_def sent_acks_def sends_append)
  moreover obtain q where "(ack_step C node)\<^sup>*\<^sup>* p q" "ack_views t q" "sender q = T_idle"
    "acker q = acker p" "acks_sent q = acks_sent p @ [n]"
    using ack_turn_run [OF ok n nok assms(2) k assms(3-5)] by blast
  ultimately show ?thesis by blast
qed

lemma ack_exit_sim:
  assumes "shared_inv items wfq s" and "length msg = QUEUE_LEN" and "ack_views s p" and "sender p = T_idle"
    and "snmp_send_ack_turn E C aq node msg s = Done (Thread_exit (m, t))"
  shows "\<exists>q. (ack_step C node)\<^sup>*\<^sup>* p q \<and> ack_views t q \<and> acker q = acker p \<and>
     acks_sent q = acks_sent p \<and> ack_sends t = ack_sends s"
proof -
  note inv = assms(1) [unfolded shared_inv_def acks_ok_def]
  obtain k where k: "ack_sem s = Suc k"
    using assms(5) by (cases "ack_sem s") (auto simp: ack_turn_waits)
  have ok: "queue_ok items wfq (ack_queue s)" using inv by simp
  have empty: "queue_content items (ack_queue s) = []"
  proof (cases "queue_content items (ack_queue s)")
    case (Cons n ns)
    then have "node_ok n" using inv by simp
    from ack_turn_sends [OF ok Cons this assms(2) k, of E aq node] assms(5) show ?thesis
      by (metis outcome.inject turn.distinct(1))
  qed
  from ack_exit_run [OF ok empty k assms(3-5)] show ?thesis by (auto simp: ack_sends_def)
qed

lemma ack_sim_step:
  assumes "sys_inv items wfq x" and "ack_sim b x p" and "sys_step E C node q aq x y"
  shows "\<exists>p'. (ack_step C node)\<^sup>*\<^sup>* p p' \<and> ack_sim b y p'"
proof -
  have s: "shared_inv items wfq (shared x)" "length (ack_msg_buf x) = QUEUE_LEN"
    using assms(1) by (simp_all add: sys_inv_def)
  have stay: ?thesis if "ack_views (shared y) = ack_views (shared x)" "ack_alive y = ack_alive x"
    "ack_sends (shared y) = ack_sends (shared x)"
    using ack_sim_frame [OF assms(2) that] by blast
  have own: ?thesis if "mgmt (shared y) = mgmt (shared x)" "ack_alive y = ack_alive x"
    "traffic (hist (shared y)) = traffic (hist (shared x))"
    using stay [OF ack_views_mgmt [OF that(1)] that(2)] sends_same [OF that(3)] by simp
  from assms(3) show ?thesis
  proof cases
    case gps
    show ?thesis by (rule own) (simp_all add: gps gps_turn_mgmt traffic_check_gps)
  next
    case (ptp l t)
    show ?thesis by (rule own) (simp_all add: ptp ptp_turn_mgmt(1) [OF ptp(3)] traffic_ptp_turn(1) [OF ptp(3)])
  next
    case (ptp_exit l t)
    show ?thesis
      by (rule own) (simp_all add: ptp_exit ptp_turn_mgmt(2) [OF ptp_exit(3)] traffic_ptp_turn(2) [OF ptp_exit(3)])
  next
    case (recv t)
    have "ack_sends t = ack_sends (shared x)" by (rule sends_same(2) [OF traffic_recv_turn [OF recv(2)]])
    with recv ack_sim_runs [OF assms(2), of C node y] recv_turn_ack_runs [OF recv(2), of node]
    show ?thesis by simp
  next
    case (second t)
    have "ack_sends t = ack_sends (shared x)" by (rule sends_same(2) [OF traffic_second_task [OF second(2)]])
    then show ?thesis by (intro stay) (simp_all add: second(1) second_task_ack_frame [OF second(2)])
  next
    case (send m t)
    show ?thesis by (rule stay) (simp_all add: send(1) send_turn_ack_frame [OF send(3) disjI1 [OF refl]])
  next
    case (send_exit m t)
    show ?thesis by (rule stay) (simp_all add: send_exit(1) send_turn_ack_frame [OF send_exit(3) disjI2 [OF refl]])
  next
    case (ack m t)
    with assms(2) have v: "ack_views (shared x) p" "sender p = T_idle" "acker p = A_idle"
      "ack_sends (shared x) = b @ map data (acks_sent p)" by (simp_all add: ack_sim_def)
    from ack_step_sim [OF s v(1,2) ack(3)] obtain q n where "(ack_step C node)\<^sup>*\<^sup>* p q"
      "ack_views t q" "sender q = T_idle" "acker q = acker p" "acks_sent q = acks_sent p @ [n]"
      "ack_sends t = ack_sends (shared x) @ [data n]" by blast
    with v ack(1) show ?thesis by (intro exI [of _ q]) (simp add: ack_sim_def)
  next
    case (ack_exit m t)
    with assms(2) have v: "ack_views (shared x) p" "sender p = T_idle" "acker p = A_idle"
      "ack_sends (shared x) = b @ map data (acks_sent p)" by (simp_all add: ack_sim_def)
    from ack_exit_sim [OF s v(1,2) ack_exit(3)] obtain q where "(ack_step C node)\<^sup>*\<^sup>* p q"
      "ack_views t q" "acker q = acker p" "acks_sent q = acks_sent p"
      "ack_sends t = ack_sends (shared x)" by blast
    with v ack_exit(1) show ?thesis by (intro exI [of _ q]) (simp add: ack_sim_def)
  next
    case timer
    show ?thesis by (rule stay) (simp_all add: timer signal_handler_def ack_sends_def)
  qed
qed

end

lemma ack_sim_start:
  assumes "sys_start items wfq x"
  shows "\<exists>p. ack_start items wfq p \<and> ack_sim (ack_sends (shared x)) x p"
proof (intro exI conjI)
  let ?p = "\<lparr>ack_q = ack_queue (shared x), acks = 0, acker = A_idle, sender = T_idle, acked = [],
    acks_sent = [], acks_dropped = 0\<rparr>"
  show "ack_start items wfq ?p" "ack_sim (ack_sends (shared x)) x ?p"
    using assms by (simp_all add: sys_start_def ready_def snmp_inv_def ack_start_def ack_sim_def ack_views_def)
qed

sublocale clock_world \<subseteq> acks: forward_simulation
  "\<lambda>x. sys_start items wfq x \<and> ack_sends (shared x) = b" "sys_step E C node q aq" "sys_inv items wfq"
  "ack_start items wfq" "ack_step C node" "ack_sim b" for b
  by unfold_locales (auto intro: start_inv sys_step_keeps ack_sim_step dest: ack_sim_start)

context clock_world
begin

lemma trap_trace:
  assumes "reach (\<lambda>x. sys_start items wfq x \<and> trap_sends (shared x) = b) (sys_step E C node q aq) y"
  obtains p where "reach (pipe_start items wfq) (pipe_step C node) p" and "trap_sim b y p"
  using assms by (rule traps.simulated)

lemma ack_trace:
  assumes "reach (\<lambda>x. sys_start items wfq x \<and> ack_sends (shared x) = b) (sys_step E C node q aq) y"
  obtains p where "reach (ack_start items wfq) (ack_step C node) p" and "ack_sim b y p"
  using assms by (rule acks.simulated)

end

subsection \<open>Properties\<close>

text \<open>
  C9. The program refines the machine of the trap queue: in every state that the threads reach, in
  whatever order they take their turns, there is a reachable state of \<open>Trap_Pipeline\<close> with the
  same queue and the same values of the two semaphores, both threads between two turns (the
  sender unless it has ended), and the trap messages handed to the kernel since the start are
  those the machine has sent, in order.
\<close>

theorem system_refines_trap_pipeline:
  assumes "clock_world C items wfq E rq"
    and "reach (\<lambda>x. sys_start items wfq x \<and> trap_sends (shared x) = b) (sys_step E C node rq aq) y"
  shows "\<exists>p. reach (pipe_start items wfq) (pipe_step C node) p \<and> trap_q p = send_queue (shared y) \<and>
     mutex p = sem_mutex (shared y) \<and> full p = sem_full (shared y) \<and>
     prod p = P_idle \<and> (send_alive y \<longrightarrow> cons p = S_idle) \<and>
     trap_sends (shared y) = b @ map data (sent p)"
proof -
  obtain p where "reach (pipe_start items wfq) (pipe_step C node) p" "trap_sim b y p"
    using clock_world.trap_trace [OF assms] .
  then show ?thesis by (auto simp: trap_sim_def views_def)
qed

theorem system_refines_trap_pipeline_witness:
  "\<exists>p. reach (pipe_start (\<lambda>q. q) (\<lambda>q. True)) (pipe_step list_cstl sample_node) p \<and>
     trap_q p = Some [] \<and> mutex p = 1 \<and> sent p = []"
proof -
  have "reach (\<lambda>x. sys_start (\<lambda>q. q) (\<lambda>q. True) x \<and> trap_sends (shared x) = [])
      (sys_step (recv_env CMD_GET (short_text 0x60)) list_cstl sample_node 0 0) start_system"
    by (rule reach_init) (simp add: start_system_starts start_system_sends)
  from system_refines_trap_pipeline [OF mode_world.clock_world_axioms this] show ?thesis
    by (auto simp: start_system_sends) (auto simp: start_system_simps)
qed

text \<open>
  C10. The program refines the machine of the acknowledgement queue in the same way: queue and
  semaphore agree, and the acknowledgements handed to the kernel since the start are those the
  machine has sent, in order.
\<close>

theorem system_refines_ack_pipeline:
  assumes "clock_world C items wfq E rq"
    and "reach (\<lambda>x. sys_start items wfq x \<and> ack_sends (shared x) = b) (sys_step E C node rq aq) y"
  shows "\<exists>p. reach (ack_start items wfq) (ack_step C node) p \<and> ack_q p = ack_queue (shared y) \<and>
     acks p = ack_sem (shared y) \<and> acker p = A_idle \<and> (ack_alive y \<longrightarrow> sender p = T_idle) \<and>
     ack_sends (shared y) = b @ map data (acks_sent p)"
proof -
  obtain p where "reach (ack_start items wfq) (ack_step C node) p" "ack_sim b y p"
    using clock_world.ack_trace [OF assms] .
  then show ?thesis by (auto simp: ack_sim_def ack_views_def)
qed

theorem system_refines_ack_pipeline_witness:
  "\<exists>p. reach (ack_start (\<lambda>q. q) (\<lambda>q. True)) (ack_step list_cstl sample_node) p \<and>
     ack_q p = Some [] \<and> acks p = 0 \<and> acks_sent p = []"
proof -
  have "reach (\<lambda>x. sys_start (\<lambda>q. q) (\<lambda>q. True) x \<and> ack_sends (shared x) = [])
      (sys_step (recv_env CMD_GET (short_text 0x60)) list_cstl sample_node 0 0) start_system"
    by (rule reach_init) (simp add: start_system_starts start_system_sends)
  from system_refines_ack_pipeline [OF mode_world.clock_world_axioms this] show ?thesis
    by (auto simp: start_system_sends) (auto simp: start_system_simps)
qed

end
