(* ===== verification/System_Overflow.thy ===== *)
theory System_Overflow
  imports System_Progress
begin

text \<open>
  The end of the sending threads. Each of them returns from its loop when it has been woken and
  finds its queue empty, and an overflow brings that about: a push onto a full queue posts its
  semaphore as every push does, but it has dropped a message (\<open>SN_Free_Lock_Queue_Push\<close>), so
  from then on there are more tokens than messages. Here is exactly when the threads end, that an
  ended thread leaves its kernel queue silent for ever, and that the overflow can come about
  in every state: the agent need only leave its queue unread for a while, so that the sender
  waits in \<open>msgsnd\<close> while traps or answers go on being queued.
\<close>

subsection \<open>An ended thread stays ended\<close>

lemma sends_signal [simp]:
  "trap_sends (signal_handler s) = trap_sends s" "ack_sends (signal_handler s) = ack_sends s"
  "hist (signal_handler s) = hist s"
  by (simp_all add: signal_handler_def trap_sends_def ack_sends_def)

lemma no_traps_step:
  assumes "sys_step E C node q aq x y" and "\<not> send_alive x"
  shows "\<not> send_alive y \<and> trap_sends (shared y) = trap_sends (shared x)"
  using assms
  by cases (auto simp: sends_same(1) [OF traffic_check_gps] trap_sends_ack_turn
      dest!: traffic_ptp_turn [THEN sends_same(1)] traffic_recv_turn [THEN sends_same(1)]
        traffic_second_task [THEN sends_same(1)])

lemma no_acks_step:
  assumes "sys_step E C node q aq x y" and "\<not> ack_alive x"
  shows "\<not> ack_alive y \<and> ack_sends (shared y) = ack_sends (shared x)"
  using assms
  by cases (auto simp: sends_same(2) [OF traffic_check_gps] ack_sends_send_turn
      dest!: traffic_ptp_turn [THEN sends_same(2)] traffic_recv_turn [THEN sends_same(2)]
        traffic_second_task [THEN sends_same(2)])

interpretation silent_traps: step_invariant "\<lambda>x. \<not> send_alive x \<and> trap_sends (shared x) = b"
  "sys_step E C node q aq" "\<lambda>x. \<not> send_alive x \<and> trap_sends (shared x) = b" for E C node q aq b
  by unfold_locales (auto dest: no_traps_step)

interpretation silent_acks: step_invariant "\<lambda>x. \<not> ack_alive x \<and> ack_sends (shared x) = b"
  "sys_step E C node q aq" "\<lambda>x. \<not> ack_alive x \<and> ack_sends (shared x) = b" for E C node q aq b
  by unfold_locales (auto dest: no_acks_step)

subsection \<open>When a thread ends\<close>

context cstl_queue
begin

lemma ack_turn_empty:
  assumes "queue_ok items wfq (ack_queue s)" and "queue_content items (ack_queue s) = []"
    and "ack_sem s = Suc k"
  shows "snmp_send_ack_turn E C aq node msg s = Done (Thread_exit (msg, s\<lparr>ack_sem := k\<rparr>))"
proof -
  obtain q where q: "ack_queue s = Some q" "wfq q" "items q = []"
    using assms(1,2) by (auto simp: queue_ok_def split: option.splits)
  have "s\<lparr>ack_sem := k, ack_queue := Some q\<rparr> = s\<lparr>ack_sem := k\<rparr>" using q(1) by (cases s) simp
  with q assms(3) get_Some [OF q(2)] pop_Some [OF q(2)] show ?thesis
    by (simp add: snmp_send_ack_turn_def sem_wait_def Let_def)
qed

end

context clock_world
begin

lemma send_turn_ends_iff:
  assumes "sys_inv items wfq y"
  shows "(\<exists>m s. snmp_send_turn E C node (send_msg y) (shared y) = Done (Thread_exit (m, s))) \<longleftrightarrow>
     e_msgget E (hist (shared y)) KEY_ID_SEND IPC_EXCL < 0 \<or>
     0 < sem_full (shared y) \<and> queue_content items (send_queue (shared y)) = []"
proof (cases "e_msgget E (hist (shared y)) KEY_ID_SEND IPC_EXCL < 0")
  case True
  then show ?thesis by (simp add: snmp_send_turn_def sys_msgget_def emit_def)
next
  case False
  let ?s = "shared y"
  have ok: "queue_ok items wfq (send_queue ?s)" "sem_mutex ?s = Suc 0" "length (send_msg y) = QUEUE_LEN"
      "list_all node_ok (queue_content items (send_queue ?s))"
    using assms by (simp_all add: sys_inv_def shared_inv_def traps_ok_def)
  show ?thesis
  proof (cases "sem_full ?s")
    case 0
    with False show ?thesis by (simp add: snmp_send_turn_def sys_msgget_def emit_def sem_wait_def)
  next
    case (Suc f)
    show ?thesis
    proof (cases "queue_content items (send_queue ?s)")
      case Nil
      from send_turn_empty [OF ok(1) Nil refl _ Suc ok(2), of E node "send_msg y"] False Nil Suc
      show ?thesis by auto
    next
      case (Cons n ns)
      with ok(4) have "node_ok n" by simp
      from send_turn_sends [OF ok(1) Cons this ok(3) _ Suc ok(2), of E node] False Cons
      show ?thesis by (metis list.discI not_le outcome.inject turn.distinct(1))
    qed
  qed
qed

lemma ack_turn_ends_iff:
  assumes "sys_inv items wfq y"
  shows "(\<exists>m s. snmp_send_ack_turn E C aq node (ack_msg_buf y) (shared y) = Done (Thread_exit (m, s))) \<longleftrightarrow>
     0 < ack_sem (shared y) \<and> queue_content items (ack_queue (shared y)) = []"
proof -
  let ?s = "shared y"
  have ok: "queue_ok items wfq (ack_queue ?s)" "length (ack_msg_buf y) = QUEUE_LEN"
      "list_all node_ok (queue_content items (ack_queue ?s))"
    using assms by (simp_all add: sys_inv_def shared_inv_def acks_ok_def)
  show ?thesis
  proof (cases "ack_sem ?s")
    case 0
    then show ?thesis by (simp add: ack_turn_waits)
  next
    case (Suc k)
    show ?thesis
    proof (cases "queue_content items (ack_queue ?s)")
      case Nil
      with ack_turn_empty [OF ok(1) Nil Suc] Suc show ?thesis by auto
    next
      case (Cons n ns)
      with ok(3) have "node_ok n" by simp
      from ack_turn_sends [OF ok(1) Cons this ok(2) Suc, of E aq node] Cons
      show ?thesis by (metis list.discI outcome.inject turn.distinct(1))
    qed
  qed
qed

end

subsection \<open>More tokens than messages\<close>

text \<open>Any number of timer signals, or of requests, while the sender has no turn.\<close>

context clock_world
begin

lemma ticks:
  assumes "sys_inv items wfq y" and "flag_trap (shared y)"
  shows "\<exists>s. (sys_step E C node q aq)\<^sup>*\<^sup>* y (y\<lparr>shared := s\<rparr>) \<and>
     sem_full s = sem_full (shared y) + 6 * n \<and> flag_trap s"
proof (induction n)
  case 0
  show ?case using assms(2) by (intro exI [of _ "shared y"]) simp
next
  case (Suc n)
  then obtain s where s: "(sys_step E C node q aq)\<^sup>*\<^sup>* y (y\<lparr>shared := s\<rparr>)"
      "sem_full s = sem_full (shared y) + 6 * n" "flag_trap s" by blast
  have "sys_inv items wfq (y\<lparr>shared := s\<rparr>)" using sys.steps_I [OF s(1) assms(1)] .
  from tick_queues_traps [OF this] s(3) obtain u where
    "(sys_step E C node q aq)\<^sup>*\<^sup>* (y\<lparr>shared := s\<rparr>) (y\<lparr>shared := u\<rparr>)" "sem_full u = sem_full s + 6" "flag_trap u"
    by auto
  with s show ?case by (intro exI [of _ u]) (auto intro: rtranclp_trans)
qed

lemma requests_taken:
  assumes "sys_inv items wfq y"
    and "\<And>h. \<exists>ty bs m. e_msgrcv E h q QUEUE_LEN 0 0 = Some (ty, bs) \<and> received_msg ty bs = Some m \<and>
           msg_type m = CMD_GET \<and> oper_code (snmp_msg m) = MSG_CODE_CDD_WORK_MODE"
  shows "\<exists>s. (sys_step E C node q aq)\<^sup>*\<^sup>* y (y\<lparr>shared := s\<rparr>) \<and> ack_sem s = ack_sem (shared y) + n"
proof (induction n)
  case 0
  show ?case by (intro exI [of _ "shared y"]) simp
next
  case (Suc n)
  then obtain s where s: "(sys_step E C node q aq)\<^sup>*\<^sup>* y (y\<lparr>shared := s\<rparr>)" "ack_sem s = ack_sem (shared y) + n"
    by blast
  let ?x = "y\<lparr>shared := s\<rparr>"
  have inv: "sys_inv items wfq ?x" using sys.steps_I [OF s(1) assms(1)] .
  obtain ty bs m where m: "e_msgrcv E (hist (shared ?x)) q QUEUE_LEN 0 0 = Some (ty, bs)"
      "received_msg ty bs = Some m" "msg_type m = CMD_GET" "oper_code (snmp_msg m) = MSG_CODE_CDD_WORK_MODE"
    using assms(2) by blast
  have "answer (shared ?x) (oper_code (snmp_msg m)) = Some (mode_text (device_mode (ClockParameter (shared ?x))))"
    by (simp add: m(4) answer_def code_defs)
  from get_queues_answer [OF inv m(1-3) this] obtain u where
    "sys_step E C node q aq ?x (y\<lparr>shared := u\<rparr>)" "ack_sem u = Suc (ack_sem s)" by auto
  with s show ?case by (intro exI [of _ u]) (auto intro: rtranclp.rtrancl_into_rtrancl)
qed

text \<open>
  With a token to spare, the sender empties its queue and ends.
\<close>

lemma spare_token_ends_traps:
  assumes "sys_inv items wfq y" and "send_alive y"
    and "length (queue_content items (send_queue (shared y))) < sem_full (shared y)"
    and "\<And>h. 0 \<le> e_msgget E h KEY_ID_SEND IPC_EXCL"
  shows "\<exists>z. (sys_step E C node q aq)\<^sup>*\<^sup>* y z \<and> \<not> send_alive z"
proof -
  from drain_traps [OF assms(1,2) refl assms(4)] assms(3) obtain x where
    x: "(sys_step E C node q aq)\<^sup>*\<^sup>* y x" "queue_content items (send_queue (shared x)) = []" "send_alive x"
      "0 < sem_full (shared x)" by fastforce
  from send_turn_ends_iff [OF sys.steps_I [OF x(1) assms(1)]] x(2,4) obtain m s where
    "snmp_send_turn E C node (send_msg x) (shared x) = Done (Thread_exit (m, s))" by blast
  from sys_step.send_exit [OF x(3) this] have "sys_step E C node q aq x (x\<lparr>shared := s, send_alive := False\<rparr>)" .
  with x(1) show ?thesis by (intro exI conjI) (erule (1) rtranclp.rtrancl_into_rtrancl, simp)
qed

lemma spare_token_ends_acks:
  assumes "sys_inv items wfq y" and "ack_alive y"
    and "length (queue_content items (ack_queue (shared y))) < ack_sem (shared y)"
  shows "\<exists>z. (sys_step E C node q aq)\<^sup>*\<^sup>* y z \<and> \<not> ack_alive z"
proof -
  from drain_acks [OF assms(1,2) refl] assms(3) obtain x where
    x: "(sys_step E C node q aq)\<^sup>*\<^sup>* y x" "queue_content items (ack_queue (shared x)) = []" "ack_alive x"
      "0 < ack_sem (shared x)" by fastforce
  from ack_turn_ends_iff [OF sys.steps_I [OF x(1) assms(1)]] x(2,4) obtain m s where
    "snmp_send_ack_turn E C aq node (ack_msg_buf x) (shared x) = Done (Thread_exit (m, s))" by blast
  from sys_step.ack_exit [OF x(3) this] have "sys_step E C node q aq x (x\<lparr>shared := s, ack_alive := False\<rparr>)" .
  with x(1) show ?thesis by (intro exI conjI) (erule (1) rtranclp.rtrancl_into_rtrancl, simp)
qed

end

subsection \<open>Properties\<close>

text \<open>
  C8. When the sending threads end, in every state the threads reach: the trap thread ends in its next
  turn exactly when the kernel does not know its queue or it has a token for an empty queue, and
  the acknowledgement thread exactly when it has a token for an empty queue.
\<close>

theorem sender_threads_end_iff:
  assumes "clock_world C items wfq E rq"
    and "reach (sys_start items wfq) (sys_step E C node rq aq) y"
  shows "((\<exists>m s. snmp_send_turn E C node (send_msg y) (shared y) = Done (Thread_exit (m, s))) \<longleftrightarrow>
      e_msgget E (hist (shared y)) KEY_ID_SEND IPC_EXCL < 0 \<or>
      0 < sem_full (shared y) \<and> queue_content items (send_queue (shared y)) = []) \<and>
    ((\<exists>m s. snmp_send_ack_turn E C aq node (ack_msg_buf y) (shared y) = Done (Thread_exit (m, s))) \<longleftrightarrow>
      0 < ack_sem (shared y) \<and> queue_content items (ack_queue (shared y)) = [])"
  using clock_world.send_turn_ends_iff [OF assms(1)] clock_world.ack_turn_ends_iff [OF assms(1)]
    clock_world.reach_inv [OF assms] by blast

theorem sender_threads_end_iff_witness:
  "\<not> (\<exists>m s. snmp_send_ack_turn (recv_env CMD_GET (short_text 0x60)) list_cstl 0 sample_node (zeros QUEUE_LEN)
       start_st = Done (Thread_exit (m, s)))"
proof -
  from sender_threads_end_iff [OF mode_world.clock_world_axioms start_reach] show ?thesis
    by (simp add: start_system_simps start_system_def)
qed

text \<open>
  C6. An overflow silences the traps: from every state that the threads reach after the first request,
  even if the kernel keeps the queue of the traps at all times, there is a run of timer signals and
  turns after which the trap thread has ended and, whatever happens then, no trap is ever handed
  to the kernel again.
\<close>

theorem overflow_silences_traps:
  assumes "clock_world C items wfq E rq"
    and "reach (sys_start items wfq) (sys_step E C node rq aq) y" and "send_alive y"
    and "flag_trap (shared y)" and "\<And>h. 0 \<le> e_msgget E h KEY_ID_SEND IPC_EXCL"
  shows "\<exists>z. (sys_step E C node rq aq)\<^sup>*\<^sup>* y z \<and>
     (\<forall>w. (sys_step E C node rq aq)\<^sup>*\<^sup>* z w \<longrightarrow>
        \<not> send_alive w \<and> trap_sends (shared w) = trap_sends (shared z))"
proof -
  note inv = clock_world.reach_inv [OF assms(1,2)]
  from clock_world.ticks [OF assms(1) inv assms(4), of node aq 342] obtain s where
    s: "(sys_step E C node rq aq)\<^sup>*\<^sup>* y (y\<lparr>shared := s\<rparr>)" "2052 \<le> sem_full s" by auto
  have inv': "sys_inv items wfq (y\<lparr>shared := s\<rparr>)"
    by (rule clock_world.reach_inv [OF assms(1) reach_rtranclp [OF assms(2) s(1)]])
  then have "length (queue_content items (send_queue s)) \<le> 2048"
    using clock_world.axioms(1) [OF assms(1)] cstl_queue.queue_bound [of C items wfq "send_queue s"]
    by (simp add: sys_inv_def shared_inv_def traps_ok_def snmp_agent_def QUEUE_MAX_SIZE_def)
  with s(2) clock_world.spare_token_ends_traps [OF assms(1) inv' _ _ assms(5), of node aq] assms(3)
  obtain z where z: "(sys_step E C node rq aq)\<^sup>*\<^sup>* (y\<lparr>shared := s\<rparr>) z" "\<not> send_alive z" by auto
  have "\<not> send_alive w \<and> trap_sends (shared w) = trap_sends (shared z)"
    if "(sys_step E C node rq aq)\<^sup>*\<^sup>* z w" for w
    using silent_traps.steps_I [OF that] z(2) by blast
  with rtranclp_trans [OF s(1) z(1)] show ?thesis by blast
qed

theorem overflow_silences_traps_witness:
  "\<exists>y z. (sys_step (recv_env CMD_GET (short_text 0x60)) list_cstl sample_node 0 0)\<^sup>*\<^sup>* start_system y \<and>
     (sys_step (recv_env CMD_GET (short_text 0x60)) list_cstl sample_node 0 0)\<^sup>*\<^sup>* y z \<and> \<not> send_alive z"
proof -
  let ?step = "sys_step (recv_env CMD_GET (short_text 0x60)) list_cstl sample_node 0 0"
  obtain s where s: "?step start_system (start_system\<lparr>shared := s\<rparr>)" "flag_trap s" by (rule start_gate)
  have "send_alive (start_system\<lparr>shared := s\<rparr>)" by (simp add: start_system_def)
  from overflow_silences_traps [OF mode_world.clock_world_axioms reach_step [OF start_reach s(1)] this _ start_keeps_queue]
    s(2) obtain z where "?step\<^sup>*\<^sup>* (start_system\<lparr>shared := s\<rparr>) z" "\<not> send_alive z" by auto
  with r_into_rtranclp [of ?step, OF s(1)] show ?thesis by blast
qed

text \<open>
  C7. An overflow silences the answers: from every state that the threads reach, if the agent goes on
  asking for the mode, there is a run after which the acknowledgement thread has ended and,
  whatever happens then, no request is ever answered again.
\<close>

theorem overflow_silences_answers:
  assumes "clock_world C items wfq E rq"
    and "reach (sys_start items wfq) (sys_step E C node rq aq) y" and "ack_alive y"
    and "\<And>h. \<exists>ty bs m. e_msgrcv E h rq QUEUE_LEN 0 0 = Some (ty, bs) \<and> received_msg ty bs = Some m \<and>
           msg_type m = CMD_GET \<and> oper_code (snmp_msg m) = MSG_CODE_CDD_WORK_MODE"
  shows "\<exists>z. (sys_step E C node rq aq)\<^sup>*\<^sup>* y z \<and>
     (\<forall>w. (sys_step E C node rq aq)\<^sup>*\<^sup>* z w \<longrightarrow>
        \<not> ack_alive w \<and> ack_sends (shared w) = ack_sends (shared z))"
proof -
  note inv = clock_world.reach_inv [OF assms(1,2)]
  from clock_world.requests_taken [OF assms(1) inv assms(4), of node aq 2049] obtain s where
    s: "(sys_step E C node rq aq)\<^sup>*\<^sup>* y (y\<lparr>shared := s\<rparr>)" "2049 \<le> ack_sem s" by auto
  have inv': "sys_inv items wfq (y\<lparr>shared := s\<rparr>)"
    by (rule clock_world.reach_inv [OF assms(1) reach_rtranclp [OF assms(2) s(1)]])
  then have "length (queue_content items (ack_queue s)) \<le> 2048"
    using clock_world.axioms(1) [OF assms(1)] cstl_queue.queue_bound [of C items wfq "ack_queue s"]
    by (simp add: sys_inv_def shared_inv_def acks_ok_def snmp_agent_def QUEUE_MAX_SIZE_def)
  with s(2) clock_world.spare_token_ends_acks [OF assms(1) inv', of node aq] assms(3)
  obtain z where z: "(sys_step E C node rq aq)\<^sup>*\<^sup>* (y\<lparr>shared := s\<rparr>) z" "\<not> ack_alive z" by auto
  have "\<not> ack_alive w \<and> ack_sends (shared w) = ack_sends (shared z)"
    if "(sys_step E C node rq aq)\<^sup>*\<^sup>* z w" for w
    using silent_acks.steps_I [OF that] z(2) by blast
  with rtranclp_trans [OF s(1) z(1)] show ?thesis by blast
qed

theorem overflow_silences_answers_witness:
  "\<exists>z. (sys_step (recv_env CMD_GET (short_text 0x60)) list_cstl sample_node 0 0)\<^sup>*\<^sup>* start_system z \<and>
     \<not> ack_alive z"
proof -
  have "\<exists>ty bs m. e_msgrcv (recv_env CMD_GET (short_text 0x60)) h 0 QUEUE_LEN 0 0 = Some (ty, bs) \<and>
      received_msg ty bs = Some m \<and> msg_type m = CMD_GET \<and> oper_code (snmp_msg m) = MSG_CODE_CDD_WORK_MODE" for h
    by (intro exI conjI, rule start_request(1), rule start_request(2)) (simp_all add: code_defs)
  from overflow_silences_answers [OF mode_world.clock_world_axioms start_reach start_system_simps(6) this]
  show ?thesis by blast
qed

end
