(* ===== verification/Over_Reads.thy ===== *)
theory Over_Reads
  imports System_Overflow
begin

text \<open>
  The one access outside a buffer that the program makes over and over: at each trap it sends,
  the kernel reads four bytes behind \<open>msg\<close>. Here is the account of these reads over whole runs,
  from the start of \<open>main\<close> to any state the threads reach: there are as many as traps sent, four
  bytes each, and no others.
\<close>

subsection \<open>Starting up\<close>

text \<open>\<open>main\<close> sends no message before its threads run.\<close>

lemma traffic_start_parts [simp]:
  "traffic (hist (net_clk_choose c s)) = traffic (hist s)"
  "traffic (hist (fpga_rst_ctl l s)) = traffic (hist s)"
  "traffic (hist (sys_usleep n t)) = traffic (hist t)"
  "traffic (hist (sys_mutex_init lock t)) = traffic (hist t)"
  "traffic (hist (install_handlers t)) = traffic (hist t)"
  "traffic (hist (set_timer t)) = traffic (hist t)"
  "traffic (hist (sys_sigaction sig h t)) = traffic (hist t)"
  by (simp_all add: net_clk_choose_def fpga_rst_ctl_def install_handlers_def set_timer_def sys_defs emit_def)

lemma traffic_open_device: "open_device E s = (r, t) \<Longrightarrow> traffic (hist t) = traffic (hist s)"
  by (auto simp: open_device_def sys_open_def FPGA_disable_def sys_ioctl_def sys_usleep_def emit_def Let_def
      split: if_splits)

lemma traffic_main_config: "main_config E s = (r, t) \<Longrightarrow> traffic (hist t) = traffic (hist s)"
  by (auto simp: main_config_def sys_open_def sys_read_def sys_close_def emit_def Let_def
      split: if_splits option.splits)

lemma traffic_fpga_version:
  "get_fpga_version E b s = Some (r, b', t) \<Longrightarrow> traffic (hist t) = traffic (hist s)"
  by (auto simp: get_fpga_version_def fpga_read_version_def return_rx_def Let_def split: option.splits)

lemma traffic_main_fpga: "main_fpga E s = Some t \<Longrightarrow> traffic (hist t) = traffic (hist s)"
  by (auto simp: main_fpga_def Let_def split: option.splits prod.splits if_splits
      dest!: traffic_fpga_version traffic_read_config)

lemma traffic_open_queue: "open_or_create E key s = (r, t) \<Longrightarrow> traffic (hist t) = traffic (hist s)"
  by (auto simp: open_or_create_def sys_msgget_def emit_def Let_def split: if_splits)

lemma traffic_snmp_init: "snmp_init E C s = (r, t) \<Longrightarrow> traffic (hist t) = traffic (hist s)"
  by (auto simp: snmp_init_def Let_def split: prod.splits if_splits dest!: traffic_open_queue)

lemma traffic_start_threads: "start_threads E ts s = (r, t) \<Longrightarrow> traffic (hist t) = traffic (hist s)"
  by (induction ts arbitrary: s) (auto simp: sys_thread_def emit_def Let_def split: if_splits)

lemma traffic_main_threads: "main_threads E s = (r, t) \<Longrightarrow> traffic (hist t) = traffic (hist s)"
  by (auto simp: main_threads_def sys_thread_def emit_def Let_def split: if_splits
      dest!: traffic_start_threads)

lemma traffic_main_serve: "main_serve E C s = (r, t) \<Longrightarrow> traffic (hist t) = traffic (hist s)"
  by (auto simp: main_serve_def Let_def split: if_splits prod.splits
      dest!: traffic_snmp_init traffic_main_threads)

lemma traffic_clock_main:
  assumes "clock_main E C s = Some (Main_runs, t)"
  shows "traffic (hist t) = traffic (hist s)"
proof -
  obtain r s1 where o: "open_device E (s\<lparr>ArmVersion := arm_version_built\<rparr>) = (r, s1)" by fastforce
  obtain b s2 where b: "main_config E (s1\<lparr>clkid := get_clockid (ptp0_fd s1)\<rparr>) = (b, s2)" by fastforce
  from assms o b obtain conf s3 where "main_fpga E (set_mode conf s2) = Some s3"
      and "main_serve E C s3 = (Main_runs, t)"
    by (auto simp: clock_main_def Let_def split: if_splits option.splits)
  from traffic_main_serve [OF this(2)] traffic_main_fpga [OF this(1)] traffic_main_config [OF b]
    traffic_open_device [OF o]
  show ?thesis by (simp add: set_mode_def Let_def)
qed

subsection \<open>The account\<close>

text \<open>Between two histories, each trap sent came with one read of four bytes.\<close>

definition four_each :: "history \<Rightarrow> history \<Rightarrow> bool" where
  "four_each g h \<longleftrightarrow>
     (\<exists>os. overreads h = overreads g @ os \<and> (\<forall>b \<in> set os. length b = 4) \<and>
           length (sends h QUEUE_LEN) = length (sends g QUEUE_LEN) + length os)"

lemma four_each_same: "traffic h = traffic g \<Longrightarrow> four_each g h"
  using same_traffic [of h g] by (simp add: four_each_def)

lemma four_each_trans:
  assumes "four_each f g" and "four_each g h"
  shows "four_each f h"
proof -
  from assms obtain os ps where
    "overreads g = overreads f @ os" "\<forall>b \<in> set os. length b = 4"
    "length (sends g QUEUE_LEN) = length (sends f QUEUE_LEN) + length os"
    "overreads h = overreads g @ ps" "\<forall>b \<in> set ps. length b = 4"
    "length (sends h QUEUE_LEN) = length (sends g QUEUE_LEN) + length ps"
    unfolding four_each_def by blast
  then show ?thesis unfolding four_each_def by (intro exI [of _ "os @ ps"]) auto
qed

lemma four_each_trap: "four_each h (h @ sent_trap E h m)"
  by (simp add: four_each_def sent_trap_def overreads_append sends_append)

lemma four_each_acks: "four_each h (h @ sent_acks aq ns)"
proof -
  have "overreads (sent_acks aq ns) = [] \<and> sends (sent_acks aq ns) QUEUE_LEN = []"
    by (induction ns) (simp_all add: sent_acks_def, simp add: len_defs)
  then show ?thesis by (simp add: four_each_def overreads_append sends_append)
qed

context clock_world
begin

lemma send_turn_reads:
  assumes "sys_inv items wfq x"
    and "snmp_send_turn E C node (send_msg x) (shared x) = Done r" and "r = Next (m, t) \<or> r = Thread_exit (m, t)"
  shows "four_each (hist (shared x)) (hist t)"
proof -
  let ?s = "shared x"
  have ok: "queue_ok items wfq (send_queue ?s)" "sem_mutex ?s = Suc 0" "length (send_msg x) = QUEUE_LEN"
      "list_all node_ok (queue_content items (send_queue ?s))"
    using assms(1) by (simp_all add: sys_inv_def shared_inv_def traps_ok_def)
  show ?thesis
  proof (cases "e_msgget E (hist ?s) KEY_ID_SEND IPC_EXCL < 0")
    case True
    with assms(2,3) show ?thesis
      by (auto simp: snmp_send_turn_def sys_msgget_def emit_def intro!: four_each_same)
  next
    case False
    with assms(2) obtain f where f: "sem_full ?s = Suc f"
      by (cases "sem_full ?s") (auto simp: snmp_send_turn_def sys_msgget_def emit_def sem_wait_def)
    show ?thesis
    proof (cases "queue_content items (send_queue ?s)")
      case Nil
      from send_turn_empty [OF ok(1) Nil refl _ f ok(2), of E node "send_msg x"] False assms(2,3)
      show ?thesis by (auto intro!: four_each_same)
    next
      case (Cons n ns)
      with ok(4) have "node_ok n" by simp
      from send_turn_sends [OF ok(1) Cons this ok(3) _ f ok(2), of E node] False obtain q where
        "snmp_send_turn E C node (send_msg x) ?s = Done (Next (data n,
          ?s\<lparr>hist := hist ?s @ sent_trap E (hist ?s) (data n), send_queue := q, sem_full := f\<rparr>))"
        by (metis not_le)
      with assms(2,3) show ?thesis by (auto intro: four_each_trap)
    qed
  qed
qed

lemma ack_turn_reads:
  assumes "sys_inv items wfq x"
    and "snmp_send_ack_turn E C aq node (ack_msg_buf x) (shared x) = Done r"
    and "r = Next (m, t) \<or> r = Thread_exit (m, t)"
  shows "four_each (hist (shared x)) (hist t)"
proof -
  let ?s = "shared x"
  have ok: "queue_ok items wfq (ack_queue ?s)" "length (ack_msg_buf x) = QUEUE_LEN"
      "list_all node_ok (queue_content items (ack_queue ?s))"
    using assms(1) by (simp_all add: sys_inv_def shared_inv_def acks_ok_def)
  obtain k where k: "ack_sem ?s = Suc k"
    using assms(2) by (cases "ack_sem ?s") (auto simp: ack_turn_waits)
  show ?thesis
  proof (cases "queue_content items (ack_queue ?s)")
    case Nil
    from ack_turn_empty [OF ok(1) Nil k, of E aq node "ack_msg_buf x"] assms(2,3)
    show ?thesis by (auto intro!: four_each_same)
  next
    case (Cons n ns)
    with ok(3) have "node_ok n" by simp
    from ack_turn_sends [OF ok(1) Cons this ok(2) k, of E aq node] obtain q where
      "snmp_send_ack_turn E C aq node (ack_msg_buf x) ?s = Done (Next (data n,
        ?s\<lparr>hist := hist ?s @ sent_acks aq [n], ack_queue := q, ack_sem := k\<rparr>))" by metis
    with assms(2,3) show ?thesis by (auto intro: four_each_acks)
  qed
qed

lemma step_reads:
  assumes "sys_inv items wfq x" and "sys_step E C node q aq x y"
  shows "four_each (hist (shared x)) (hist (shared y))"
  using assms(2)
proof cases
  case (send m t)
  with send_turn_reads [OF assms(1) send(3) disjI1 [OF refl]] show ?thesis by simp
next
  case (send_exit m t)
  with send_turn_reads [OF assms(1) send_exit(3) disjI2 [OF refl]] show ?thesis by simp
next
  case (ack m t)
  with ack_turn_reads [OF assms(1) ack(3) disjI1 [OF refl]] show ?thesis by simp
next
  case (ack_exit m t)
  with ack_turn_reads [OF assms(1) ack_exit(3) disjI2 [OF refl]] show ?thesis by simp
qed (auto intro!: four_each_same simp: traffic_check_gps
      dest: traffic_ptp_turn traffic_recv_turn traffic_second_task)

lemma run_reads:
  assumes "(sys_step E C node q aq)\<^sup>*\<^sup>* x y" and "sys_inv items wfq x"
  shows "four_each (hist (shared x)) (hist (shared y))"
  using assms
proof (induction rule: rtranclp_induct)
  case base
  show ?case by (rule four_each_same) simp
next
  case (step y z)
  from step_reads [OF sys.steps_I [OF step(1,4)] step(2)] step(3,4) show ?case
    by (blast intro: four_each_trans)
qed

end

end
