(* ===== verification/Fpga_Race.thy ===== *)
theory Fpga_Race
  imports Fpga_Ctl
begin

text \<open>
  The GPS thread and the PTP thread prepare their requests in the same global message
  \<open>fpga_msg\<close>. \<open>main\<close> initialises a mutex \<open>lock\<close>, but no function takes it, so the statements of
  the two threads interleave in every order. Here are the effects of that: what a status read
  can return and where a configuration write can end up.
\<close>

subsection \<open>Interleavings of two threads' statements\<close>

text \<open>The first thread has finished its statements; the second is anywhere in its own.\<close>

definition interleavings :: "fpga_stmt list \<Rightarrow> fpga_stmt list \<Rightarrow> fpga_stmt list set" where
  "interleavings xs ys = (\<Union>n \<le> length ys. shuffles xs (take n ys))"

lemma interleavings_three:
  "interleavings xs [a, b, c] = shuffles xs [] \<union> shuffles xs [a] \<union> shuffles xs [a, b] \<union> shuffles xs [a, b, c]"
proof -
  have "{..length [a, b, c]} = {0, 1, 2, 3 :: nat}" by auto
  then show ?thesis by (simp add: interleavings_def numeral_2_eq_2 numeral_3_eq_3 Un_assoc)
qed

subsection \<open>Properties\<close>

text \<open>
  C26. A status read that races: while the PTP thread reads the work status, the value that
  \<open>fpga_read_logic_status\<close> returns to the GPS thread is the logic status, or the work status,
  or 0, and each of the three happens for some interleaving. A 0 is taken for a lost GPS
  signal.
\<close>

theorem gps_status_race:
  assumes "\<And>h m. e_emifa E h fd EMIFA_READ m = m\<lparr>rx_val := r (addr m)\<rparr>"
  shows "(\<lambda>zs. fst (return_rx (exec_stmts E fd zs s))) `
       interleavings (read_code ADDR_LOGIC_STATUS) (read_code ADDR_WORK_STATUS) =
     {r ADDR_LOGIC_STATUS, r ADDR_WORK_STATUS, 0}"
  by (simp add: read_code_def interleavings_three return_rx_def emifa_ioctl_def emit_def assms
      image_Un image_image insert_commute)

text \<open>A board with the logic status 0x80 (GPS locked) and the work status 0x31.\<close>

definition race_env :: env where
  "race_env = idle_env\<lparr>e_emifa := \<lambda>h fd req m.
     if req = EMIFA_READ then m\<lparr>rx_val := if addr m = ADDR_LOGIC_STATUS then 0x80 else 0x31\<rparr> else m\<rparr>"

definition race_st :: fpga_st where
  "race_st = \<lparr>hist = [], fpga_msg = \<lparr>addr = 0, tx_val = 0, rx_val = 0\<rparr>\<rparr>"

theorem gps_status_race_witness:
  "(\<lambda>zs. fst (return_rx (exec_stmts race_env 3 zs race_st))) `
     interleavings (read_code ADDR_LOGIC_STATUS) (read_code ADDR_WORK_STATUS) = {0x80, 0x31, 0}"
  by (subst gps_status_race [where r = "\<lambda>a. if a = ADDR_LOGIC_STATUS then 0x80 else 0x31"])
    (simp_all add: race_env_def addr_defs)

text \<open>
  C27. A configuration write that races with a status read: the value written is always the one
  the PTP thread computed, but it goes to the configuration register or to the register that
  the GPS thread is reading, and both happen.
\<close>

theorem config_write_race:
  assumes "\<And>h req m. addr (e_emifa E h fd req m) = addr m \<and> tx_val (e_emifa E h fd req m) = tx_val m"
  shows "(\<lambda>zs. emifa_writes (hist (exec_stmts E fd zs s))) `
       shuffles (read_code ADDR_LOGIC_STATUS) (write_code ADDR_CONFIG v) =
     {emifa_writes (hist s) @ [(ADDR_CONFIG, v)], emifa_writes (hist s) @ [(ADDR_LOGIC_STATUS, v)]}"
  by (simp add: read_code_def write_code_def emifa_ioctl_def emit_def assms
      image_Un image_image insert_commute)

theorem config_write_race_witness:
  "(\<lambda>zs. emifa_writes (hist (exec_stmts race_env 3 zs race_st))) `
     shuffles (read_code ADDR_LOGIC_STATUS) (write_code ADDR_CONFIG 0xC000) =
   {[(ADDR_CONFIG, 0xC000)], [(ADDR_LOGIC_STATUS, 0xC000)]}"
  by (subst config_write_race) (simp_all add: race_env_def race_st_def)

end
