(* ===== verification/Param_Race.thy ===== *)
theory Param_Race
  imports Data_Trap
begin

text \<open>
  The PTP thread formats the time into \<open>ClockParameter.ptp_time\<close> and \<open>gps_time\<close> (\<open>sprintf\<close> in
  \<open>thread_send_ptp_time_handle\<close>, \<open>main.c\<close>) while the receiving thread copies the same bytes into an
  answer (\<open>strcpy\<close> in \<open>snmp_data_0x65\<close> and \<open>snmp_data_0x66\<close>, \<open>snmp.c\<close>); no lock keeps the two apart.
  Here the two calls are byte by byte. The bytes of one \<open>sprintf\<close> are stored in any order; the copy
  goes from left to right up to the first NUL that it sees. The other theories take both calls
  as one step (\<open>c_store\<close> and \<open>cstr\<close>); the lemmas relate the two views.
\<close>

record param_race =
  field :: string
  todo :: "nat set"
  got :: string
  ended :: bool

definition race_start :: "string \<Rightarrow> string \<Rightarrow> param_race \<Rightarrow> bool" where
  "race_start b t x \<longleftrightarrow> x = \<lparr>field = b, todo = {..length t}, got = [], ended = False\<rparr>"

text \<open>A copy that has reached the end of the array without a NUL would go on behind it.\<close>

definition overran :: "param_race \<Rightarrow> bool" where
  "overran x \<longleftrightarrow> \<not> ended x \<and> length (field x) \<le> length (got x)"

inductive race_step :: "string \<Rightarrow> param_race \<Rightarrow> param_race \<Rightarrow> bool" for t where
  store: "i \<in> todo x \<Longrightarrow> i < length (field x) \<Longrightarrow>
     race_step t x (x\<lparr>field := (field x)[i := lit t ! i], todo := todo x - {i}\<rparr>)"
| copy: "\<not> ended x \<Longrightarrow> length (got x) < length (field x) \<Longrightarrow> field x ! length (got x) = c \<Longrightarrow>
     c \<noteq> NUL \<Longrightarrow> race_step t x (x\<lparr>got := got x @ [c]\<rparr>)"
| stop: "\<not> ended x \<Longrightarrow> length (got x) < length (field x) \<Longrightarrow> field x ! length (got x) = NUL \<Longrightarrow>
     race_step t x (x\<lparr>ended := True\<rparr>)"

subsection \<open>The field\<close>

text \<open>Each byte is the old one or, once stored, the one of the new text.\<close>

definition field_ok :: "string \<Rightarrow> string \<Rightarrow> param_race \<Rightarrow> bool" where
  "field_ok b t x \<longleftrightarrow>
     length (field x) = length b \<and> todo x \<subseteq> {..length t} \<and>
     (\<forall>i < length b. field x ! i = (if i \<le> length t \<and> i \<notin> todo x then lit t ! i else b ! i))"

lemma field_ok_step: "field_ok b t x \<Longrightarrow> race_step t x y \<Longrightarrow> field_ok b t y"
  by (erule race_step.cases) (auto simp: field_ok_def nth_list_update)

text \<open>
  A byte that the copy can see at a place. The bytes copied so far are such bytes, none of them
  a NUL, and a copy that has ended has seen a NUL.
\<close>

definition mixed :: "string \<Rightarrow> string \<Rightarrow> nat \<Rightarrow> char \<Rightarrow> bool" where
  "mixed b t j c \<longleftrightarrow> c = b ! j \<or> j \<le> length t \<and> c = lit t ! j"

definition race_inv :: "string \<Rightarrow> string \<Rightarrow> param_race \<Rightarrow> bool" where
  "race_inv b t x \<longleftrightarrow>
     field_ok b t x \<and> length (got x) \<le> length b \<and>
     (\<forall>j < length (got x). got x ! j \<noteq> NUL \<and> mixed b t j (got x ! j)) \<and>
     (ended x \<longrightarrow> mixed b t (length (got x)) NUL)"

lemma lit_nth: "i \<le> length t \<Longrightarrow> lit t ! i = (if i < length t then t ! i else NUL)"
  by (auto simp: lit_def nth_append)

lemma field_mixed: "field_ok b t x \<Longrightarrow> j < length b \<Longrightarrow> mixed b t j (field x ! j)"
  by (auto simp: field_ok_def mixed_def)

lemma race_inv_step:
  assumes "race_inv b t x" and "race_step t x y"
  shows "race_inv b t y"
  using assms(2) field_ok_step [OF _ assms(2), of b] field_mixed [of b t x "length (got x)"] assms(1)
  by cases (auto simp: race_inv_def nth_append less_Suc_eq field_ok_def [of b t x])

lemma race_inv_start: "race_start b t x \<Longrightarrow> race_inv b t x"
  by (simp add: race_start_def race_inv_def field_ok_def)

interpretation race: step_invariant "race_start b t" "race_step t" "race_inv b t" for b t
  by unfold_locales (fact race_inv_start, fact race_inv_step)

text \<open>Where both texts have a NUL the field always has one, and the copy stops there.\<close>

lemma guard_stays:
  assumes "race_inv b t x" and "k < length b" and "b ! k = NUL" and "length t \<le> k"
  shows "field x ! k = NUL" and "length (got x) \<le> k"
proof -
  have "c = NUL" if "mixed b t k c" for c
    using that assms(3,4) by (auto simp: mixed_def lit_nth)
  with assms(1,2) show "field x ! k = NUL" "length (got x) \<le> k"
    by (auto simp: race_inv_def field_mixed not_le [symmetric])
qed

text \<open>When every byte is stored, the field is what \<open>sprintf\<close> leaves in one step.\<close>

lemma stored_field:
  assumes "race_inv b t x" and "todo x = {}" and "length t < length b"
  shows "c_store b 0 t = Some (field x)"
proof -
  have "field x = write_at 0 (t @ [NUL]) b"
    using assms by (intro nth_equalityI)
      (auto simp: race_inv_def field_ok_def write_at_def lit_def nth_append)
  then show ?thesis using assms(3) by (simp add: c_store_def)
qed

subsection \<open>What a racing read can see\<close>

lemma no_nul_nth: "NUL \<notin> set s \<Longrightarrow> j < length s \<Longrightarrow> s ! j \<noteq> NUL"
  by (metis nth_mem)

text \<open>
  A run that lets the copy see any byte it likes of the two texts: just before the copy reads
  place \<open>j\<close>, the byte there is stored or not. The bytes are stored in ascending order.
\<close>

lemma race_run:
  assumes "length old = length new" and "length s = length new" and "NUL \<notin> set old" and "NUL \<notin> set new"
    and "\<And>j. j < length s \<Longrightarrow> s ! j = old ! j \<or> s ! j = new ! j" and "j \<le> length s"
  shows "\<exists>x. reach (race_start (old @ NUL # rest) new) (race_step new) x \<and>
           got x = take j s \<and> \<not> ended x \<and> {j..length new} \<subseteq> todo x"
  using assms(6)
proof (induction j)
  case 0
  let ?x = "\<lparr>field = old @ NUL # rest, todo = {..length new}, got = [], ended = False\<rparr>"
  have "reach (race_start (old @ NUL # rest) new) (race_step new) ?x"
    by (rule reach_init) (simp add: race_start_def)
  then show ?case by (intro exI [of _ ?x]) auto
next
  case (Suc j)
  let ?R = "reach (race_start (old @ NUL # rest) new) (race_step new)"
  from Suc obtain x where x: "?R x" "got x = take j s" "\<not> ended x" "{j..length new} \<subseteq> todo x" by auto
  have j: "j < length s" "s ! j \<noteq> NUL" "length (got x) = j" "j \<in> todo x"
    using Suc.prems assms(1,2) assms(5) [of j] x(2,4) no_nul_nth [OF assms(3), of j] no_nul_nth [OF assms(4), of j]
    by auto
  have f: "j < length (field x)" "field x ! j = old ! j"
    using race.reach_I [OF x(1)] j(1,4) assms(1,2) by (auto simp: race_inv_def field_ok_def nth_append)
  have "\<exists>y. ?R y \<and> field y ! j = s ! j \<and> j < length (field y) \<and> got y = got x \<and> \<not> ended y \<and>
      {Suc j..length new} \<subseteq> todo y"
  proof (cases "s ! j = old ! j")
    case True
    then show ?thesis using x f by (intro exI [of _ x]) auto
  next
    case False
    then have "s ! j = lit new ! j" using assms(2) assms(5) [OF j(1)] j(1) by (simp add: lit_nth)
    then show ?thesis
      using reach_step [OF x(1) race_step.store [OF j(4) f(1)]] x(3,4) f
      by (intro exI conjI) (assumption | fastforce)+
  qed
  then obtain y where y: "?R y" "field y ! j = s ! j" "j < length (field y)" "got y = got x" "\<not> ended y"
      "{Suc j..length new} \<subseteq> todo y" by blast
  then have "race_step new y (y\<lparr>got := got y @ [s ! j]\<rparr>)"
    using j(2,3) by (intro race_step.copy) auto
  from reach_step [OF y(1) this] show ?case
    using y x(2) j(1) by (intro exI conjI) (assumption | simp add: take_Suc_conv_app_nth)+
qed

subsection \<open>Properties\<close>

text \<open>
  C29. A read of a time string that races with its update stays in bounds: if both the old contents
  and the new text end at the latest at place \<open>k\<close>, then at every moment the copy has taken at
  most \<open>k\<close> bytes, it has not run over the end of the array, each byte it has taken is the old or
  the new one of its place, and once the update is through, the field is what \<open>c_store\<close> says.
\<close>

theorem racing_read_in_bounds:
  assumes "reach (race_start b t) (race_step t) x"
    and "k < length b" and "b ! k = NUL" and "length t \<le> k"
  shows "length (got x) \<le> k \<and> \<not> overran x \<and> length (field x) = length b \<and>
     (\<forall>j < length (got x). got x ! j = b ! j \<or> j < length t \<and> got x ! j = t ! j) \<and>
     (todo x = {} \<longrightarrow> c_store b 0 t = Some (field x))"
proof -
  note I = race.reach_I [OF assms(1)]
  have "got x ! j = b ! j \<or> j < length t \<and> got x ! j = t ! j" if "j < length (got x)" for j
  proof -
    have "mixed b t j (got x ! j)" "got x ! j \<noteq> NUL" using I that by (auto simp: race_inv_def)
    then show ?thesis by (auto simp: mixed_def lit_nth split: if_splits)
  qed
  moreover have "length (field x) = length b" using I by (simp add: race_inv_def field_ok_def)
  ultimately show ?thesis
    using guard_stays [OF I assms(2-4)] stored_field [OF I] assms(2,4) by (auto simp: overran_def)
qed

text \<open>Two time texts, and the field with the first of them.\<close>

definition old_time :: string where
  "old_time = ''Thu Apr 26 09:59:59 2018''"

definition new_time :: string where
  "new_time = ''Thu Apr 26 10:00:00 2018''"

definition torn_time :: string where
  "torn_time = ''Thu Apr 26 09:00:00 2018''"

lemma time_texts:
  "length old_time = 24" "length new_time = 24" "length torn_time = 24"
  "NUL \<notin> set old_time" "NUL \<notin> set new_time" "torn_time = take 13 old_time @ drop 13 new_time"
  by (simp_all add: old_time_def new_time_def torn_time_def NUL_def)

theorem racing_read_in_bounds_witness:
  "\<exists>x. reach (race_start (lit old_time) new_time) (race_step new_time) x \<and>
     length (got x) \<le> 24 \<and> \<not> overran x"
proof -
  let ?x = "\<lparr>field = lit old_time, todo = {..length new_time}, got = [], ended = False\<rparr>"
  have x: "reach (race_start (lit old_time) new_time) (race_step new_time) ?x"
    by (rule reach_init) (simp add: race_start_def)
  show ?thesis
    using racing_read_in_bounds [OF x, of 24] x by (auto simp: time_texts lit_def nth_append intro!: exI [of _ ?x])
qed

text \<open>
  C28. A time string can be read torn: while a text of the same length is stored over the old one,
  the copy can end with exactly those strings whose every byte is the old or the new one of its
  place, each of these mixtures, not only the two texts.
\<close>

theorem torn_reads:
  assumes "length old = length new" and "NUL \<notin> set old" and "NUL \<notin> set new"
  shows "(\<exists>x. reach (race_start (old @ NUL # rest) new) (race_step new) x \<and> ended x \<and> got x = s) \<longleftrightarrow>
     length s = length new \<and> (\<forall>j < length s. s ! j = old ! j \<or> s ! j = new ! j)"
    (is "?L \<longleftrightarrow> ?R")
proof
  assume ?L
  then obtain x where x: "reach (race_start (old @ NUL # rest) new) (race_step new) x" "ended x" "got x = s"
    by blast
  note I = race.reach_I [OF x(1)]
  have "(old @ NUL # rest) ! length new = NUL" by (simp add: assms(1) [symmetric])
  then have k: "length s \<le> length new" using guard_stays(2) [OF I, of "length new"] assms(1) x(3) by simp
  have nn: "old ! j \<noteq> NUL" "new ! j \<noteq> NUL" if "j < length new" for j
    using assms that by (simp_all add: no_nul_nth)
  have "mixed (old @ NUL # rest) new (length s) NUL" using I x(2,3) by (auto simp: race_inv_def)
  then have "length s = length new"
    using k nn [of "length s"] assms(1) by (auto simp: mixed_def lit_nth nth_append split: if_splits)
  moreover have "s ! j = old ! j \<or> s ! j = new ! j" if "j < length s" for j
    using I that k x(3) assms(1) by (auto simp: race_inv_def mixed_def lit_nth nth_append)
  ultimately show ?R by blast
next
  assume R: ?R
  then obtain x where x: "reach (race_start (old @ NUL # rest) new) (race_step new) x"
      "got x = s" "\<not> ended x" "length new \<in> todo x"
    using race_run [OF assms(1) _ assms(2,3), of s "length s" rest] by auto
  have "field x ! length s = NUL" "length s < length (field x)"
    using race.reach_I [OF x(1)] x(4) R assms(1) by (auto simp: race_inv_def field_ok_def nth_append)
  then have "race_step new x (x\<lparr>ended := True\<rparr>)" using x(2,3) by (intro race_step.stop) auto
  from reach_step [OF x(1) this] show ?L using x(2) by (intro exI conjI) (assumption | simp)+
qed

theorem torn_reads_witness:
  "(\<exists>x. reach (race_start (old_time @ NUL # []) new_time) (race_step new_time) x \<and> ended x \<and>
      got x = torn_time) \<and> torn_time \<noteq> old_time \<and> torn_time \<noteq> new_time"
proof -
  have "\<forall>j < length torn_time. torn_time ! j = old_time ! j \<or> torn_time ! j = new_time ! j"
    by (simp add: time_texts nth_append)
  then show ?thesis
    using torn_reads [of old_time new_time "[]" torn_time] time_texts
    by (auto simp: old_time_def new_time_def torn_time_def)
qed

end
