(* ===== verification/Spec2Isabelle.thy ===== *)
theory Spec2Isabelle
  imports System_Traces Over_Reads Fpga_Race Param_Race
begin

text \<open>
  A verification library for the clock distribution application (\<open>src/clock_distribut_app\<close>), the
  program of a board that distributes time: it takes the time from GPS (as a master) or from
  PTP over the network (as a slave), writes it to an FPGA, and is managed by an SNMP agent
  through System V message queues. All paths below are relative to that directory.

  The program. \<open>main\<close> (\<open>main.c\<close>) opens the devices, reads the mode from a configuration file,
  resets and configures the FPGA, initialises the management side (\<open>snmp_init\<close>, \<open>snmp.c\<close>) and
  starts its threads: on a master the GPS thread, which follows the lock bit of the receiver;
  the PTP thread, which waits for trigger events, sets clocks and FPGA registers, switches
  between master and slave and reboots a slave after outages; the receiving thread, which takes
  requests from the agent and calls a handler from a table; the acknowledgement thread and the
  trap thread, which send what is queued for them; and the second task, which on a timer signal
  queues six traps. They share the parameter block \<open>ClockParameter\<close> (\<open>data_trap.c\<close>), the FPGA
  request buffer \<open>fpga_msg\<close> (\<open>fpga_ctl.c\<close>), two bounded queues (\<open>freeLockQ.c\<close>) and semaphores.

  The theories, bottom up.
    \<^item> \<open>Prelude\<close>: C types as words, rule collections, \<open>reach\<close>, the locales \<open>step_invariant\<close> and
      \<open>forward_simulation\<close>.
    \<^item> \<open>C_Strings\<close>, \<open>C_Inet\<close>, \<open>C_Time\<close>: what the code uses of the C library: buffers with
      out-of-bounds accesses as \<open>None\<close>, number formats, \<open>inet_aton\<close>, \<open>sscanf\<close>, \<open>gmtime\<close>.
    \<^item> \<open>Platform\<close>: kernel and devices as a record \<open>env\<close> of functions of the history of effects,
      each system call as an operation that records its effect in \<open>hist\<close>.
    \<^item> \<open>Fpga_Ctl\<close>: \<open>fpga_ctl.c\<close>, \<open>fpga_ctl.h\<close>, \<open>led_ctl.h\<close>, every function as a list of statements on
      \<open>fpga_msg\<close>; the driver's contract is the locale \<open>emifa_device\<close>, which gives a \<open>register_port\<close>.
    \<^item> \<open>Fpga_Race\<close>: the statements of the GPS and the PTP thread interleaved.
    \<^item> \<open>Data_Trap\<close>: \<open>data_trap.c\<close>, \<open>data_trap.h\<close>: the parameter block, the version texts.
    \<^item> \<open>Param_Race\<close>: a time string of the block, stored by \<open>sprintf\<close> while \<open>strcpy\<close> copies it.
    \<^item> \<open>Free_Lock_Queue\<close>: \<open>freeLockQ.c\<close> over any container of locale \<open>cstl_queue\<close>, and its refinement
      of a bounded list through the locale of the queue's contract.
    \<^item> \<open>Snmp_Types\<close>: \<open>snmp.h\<close>: messages and their memory image.
    \<^item> \<open>Snmp_Net\<close>: address, netmask, MAC and gateway in \<open>snmp.c\<close>.
    \<^item> \<open>Snmp_Handlers\<close>: the handler table, all handlers, the acknowledgements and
      \<open>pthread_snmp_recv\<close>; the state record \<open>snmp_st\<close> and its invariant \<open>snmp_inv\<close>; the locale
      \<open>snmp_agent\<close> states which requests the agent sends.
    \<^item> \<open>Snmp_Threads\<close>: traps, both sending threads, the second task, \<open>snmp_init\<close>, termination.
    \<^item> \<open>Snmp_Delivery\<close>: receiving and acknowledgement thread together.
    \<^item> \<open>Trap_Pipeline\<close>, \<open>Ack_Pipeline\<close>: the two queues with the calls of their threads interleaved.
    \<^item> \<open>Clock_App\<close>: the state \<open>app_st\<close> and the functions of \<open>main.c\<close>; \<open>Clock_Start\<close>: start-up up to
      the endless loop; \<open>Clock_Sync\<close>: writing the time and reporting the source; \<open>Clock_Turns\<close>: what
      a turn leaves alone; \<open>Clock_Modes\<close>: timer, outages and modes over many turns.
    \<^item> \<open>Clock_System\<close>: all threads and the timer as one step relation, its invariant, and that no
      turn is ever undefined.
    \<^item> \<open>Kernel_Sends\<close>: the messages handed to the kernel, read off the history; who sends and who
      does not. \<open>System_Progress\<close>: from every reachable state with the sending threads alive there
      are turns that bring the next message, the whole queue, the answer to a GET or SET request
      and the traps of a timer signal to the kernel. \<open>System_Overflow\<close>: when the sending threads
      end, and that an overflow ends them for good. \<open>Over_Reads\<close>: the kernel's reads behind \<open>msg\<close>
      over whole runs. \<open>System_Traces\<close>: \<open>Clock_System\<close> is simulated by \<open>Trap_Pipeline\<close> and by
      \<open>Ack_Pipeline\<close>, with the same messages sent.
    This theory draws the conclusions about the whole program.

  How the code is modelled. The state records extend each other in the order in which the
  components use each other (\<open>plat\<close>, \<open>fpga_st\<close>, \<open>dt_st\<close>, \<open>snmp_st\<close>, \<open>app_st\<close>), so each function is
  polymorphic in what lies above it. A function keeps its C name. Machine integers are words
  of the target's width (a 32-bit ARM). Undefined behaviour (a null call, an access outside a
  buffer) is \<open>None\<close>, \<open>Inl\<close> of a fault, or \<open>Undefined\<close>; a wait for a semaphore that is 0 is
  \<open>Blocked\<close>; a thread that leaves its loop gives \<open>Thread_exit\<close>. One access outside a buffer happens
  at every trap sent and is not made a stop: the kernel reads four bytes behind \<open>msg\<close> because
  \<open>snmp.c\<close> (line 931) passes it too large a length. It is an effect of its own (\<open>Ev_overread\<close>, with
  the bytes that \<open>env\<close> holds there), and \<open>Over_Reads\<close> counts these effects. The endless loops are
  observed for \<open>n\<close> turns (\<open>snmp_recv_turns\<close>, \<open>run_turns\<close>), and theorems hold for every \<open>n\<close> or reachable state;
  \<open>clean_MsgQueue\<close> is a loop that may not end, and its termination is stated.

  Atomicity. In \<open>Clock_System\<close> a turn is atomic. The places where the threads meet inside a turn
  are refined separately: \<open>Trap_Pipeline\<close> and \<open>Ack_Pipeline\<close> interleave the semaphore and queue
  calls (each of which is atomic there; on the acknowledgement queue, which has no mutex,
  the parts of a push are separate steps), \<open>Fpga_Race\<close> the statements on \<open>fpga_msg\<close>, \<open>Param_Race\<close> the
  bytes of a time string. \<open>System_Traces\<close> proves, by two forward simulations, that every run
  of \<open>Clock_System\<close> is a run of each of the two finer pipelines.

  Hypotheses. They concern code outside the repository only: the container (\<open>cstl_queue\<close>,
  instantiated with lists), the FPGA driver (\<open>emifa_device\<close>, with a register file), the agent
  (\<open>snmp_agent\<close>, with a GET request), the command \<open>ip route\<close>, which delivers at least one line and
  only lines that fit the buffer (\<open>routes_ok\<close>: without a line \<open>get_gateway\<close> is undefined), and
  \<open>ctime\<close> texts that fit theirs. Theorems about a sending thread that goes on assume that it has
  not ended (\<open>send_alive\<close>, \<open>ack_alive\<close>); \<open>System_Overflow\<close> shows that it can. The sender of
  \<open>Trap_Pipeline\<close> ends in \<open>S_dead\<close> behind a failed pop and in \<open>S_lost\<close> when the kernel does not know
  its queue.

  Not modelled: \<open>ptp_clock.h\<close> (a kernel header no code uses), \<open>config.h\<close> (trace macros), the
  printf traces, the operation codes and enums of other products in \<open>snmp.h\<close> and the old queue
  interface declared in \<open>freeLockQ.h\<close> (no code refers to either), build files and git hooks. A
  preemption inside a container call is not refined, nor are the single-word status fields of
  \<open>ClockParameter\<close>, which one thread stores and others load whole. Semaphore counts are natural
  numbers, without the bound \<open>SEM_VALUE_MAX\<close>.
\<close>

subsection \<open>The program as a whole\<close>


text \<open>The board after its start with a configuration of no valid type, and the first timer signal.\<close>

definition board_system :: "sn_msg_param list app_st \<Rightarrow> sn_msg_param list clock_system" where
  "board_system s =
     \<lparr>shared = s, ptp_vars = locals_0, send_msg = zeros QUEUE_LEN, ack_msg_buf = zeros QUEUE_LEN,
      ptp_alive = True, send_alive = True, ack_alive = True\<rparr>"

lemma board_world:
  "routes_ok (board_env conf)" "e_msgrcv (board_env conf) h q n ty f = None"
  "e_ctime (board_env conf) h t = []"
  by (simp_all add: routes_ok_def board_env_def reg_env_def route_env_def idle_env_def MAX_LINE_def NUL_def)


text \<open>
  C2. Nothing is stranded: in every state the threads reach, each queued acknowledgement and each
  queued trap has a token that lets its sender take it, both queues hold at most 2048
  messages, every message has its full size, and between turns the mutex is free. The container,
  the agent, \<open>ip route\<close> and \<open>ctime\<close> are assumed to behave as for C1.
\<close>

theorem no_message_stranded:
  assumes "cstl_queue C items wfq" and "routes_ok E"
    and "\<And>h q ty bs. e_msgrcv E h q QUEUE_LEN 0 0 = Some (ty, bs) \<Longrightarrow>
           \<exists>m. received_msg ty bs = Some m \<and> request_ok m"
    and "\<And>h t. length (e_ctime E h t) < PARAM_LEN"
    and "reach (sys_start items wfq) (sys_step E C node rq aq) y"
    and "ackd = queue_content items (ack_queue (shared y))"
    and "trapd = queue_content items (send_queue (shared y))"
  shows "length ackd \<le> ack_sem (shared y) \<and> length trapd \<le> sem_full (shared y) \<and>
     length ackd \<le> QUEUE_MAX_SIZE \<and> length trapd \<le> QUEUE_MAX_SIZE \<and>
     list_all node_ok (ackd @ trapd) \<and> sem_mutex (shared y) = 1"
proof -
  have "clock_world C items wfq E rq"
    using assms(1-4)
    by (simp add: clock_world_def clock_world_axioms_def snmp_agent_def snmp_agent_axioms_def)
  from clock_world.reach_inv [OF this assms(5)] show ?thesis
    using assms(6,7)
    by (auto simp: sys_inv_def shared_inv_def acks_ok_def traps_ok_def
        intro: cstl_queue.queue_bound [OF assms(1)])
qed

theorem no_message_stranded_witness:
  "\<exists>s. sys_start (\<lambda>q. q) (\<lambda>q. True) (board_system s) \<and> sem_mutex (signal_handler s) = 1"
proof -
  obtain s where s: "clock_main (board_env ''TYPE=X'') list_cstl app_0 = Some (Main_runs, s)"
    by (rule board_runs)
  have start: "sys_start (\<lambda>q. q) (\<lambda>q. True) (board_system s)"
    using lq.main_ready(1) [OF app_0_wf s] by (simp add: sys_start_def board_system_def)
  then have "reach (sys_start (\<lambda>q. q) (\<lambda>q. True))
      (sys_step (board_env ''TYPE=X'') list_cstl sample_node 0 0) (board_system s)"
    by (rule reach_init)
  then have "reach (sys_start (\<lambda>q. q) (\<lambda>q. True))
      (sys_step (board_env ''TYPE=X'') list_cstl sample_node 0 0)
      ((board_system s)\<lparr>shared := signal_handler (shared (board_system s))\<rparr>)"
    by (rule reach_step) (rule sys_step.timer)
  from no_message_stranded [OF lq.cstl_queue_axioms board_world(1) _ _ this refl refl] start
  show ?thesis by (auto simp: board_world PARAM_LEN_def board_system_def)
qed

text \<open>
  C18. The shared state keeps its shape: in every state the threads reach, each of the five strings
  of the parameter block has its 128 bytes and a NUL among them, both queues exist, the
  handler table is the one that \<open>init_SnmpData\<close> built, and both sending threads' buffers hold
  one message exactly. The container, the agent, \<open>ip route\<close> and \<open>ctime\<close> are assumed to behave as
  for C1.
\<close>

theorem state_well_typed:
  assumes "clock_world C items wfq E rq"
    and "reach (sys_start items wfq) (sys_step E C node rq aq) y"
  shows "list_all param_string
       (map (\<lambda>f. f (ClockParameter (shared y))) [fpga_version, device_name, ptp_time, gps_time, recvport]) \<and>
     send_queue (shared y) \<noteq> None \<and> ack_queue (shared y) \<noteq> None \<and>
     SnmpData (shared y) = init_SnmpData SnmpData_0 \<and>
     length (send_msg y) = QUEUE_LEN \<and> length (ack_msg_buf y) = QUEUE_LEN"
  using clock_world.reach_inv [OF assms]
  by (auto simp: sys_inv_def shared_inv_def snmp_inv_def clock_para_wf_def queue_ok_def split: option.splits)

theorem state_well_typed_witness:
  "SnmpData (signal_handler start_st) = init_SnmpData SnmpData_0 \<and>
   param_string (gps_time (ClockParameter (signal_handler start_st)))"
proof -
  have "reach (sys_start (\<lambda>q. q) (\<lambda>q. True))
      (sys_step (recv_env CMD_GET (short_text 0x60)) list_cstl sample_node 0 0)
      (start_system\<lparr>shared := signal_handler start_st\<rparr>)"
    by (rule reach_step, rule reach_init, rule start_system_starts)
      (use sys_step.timer [where x = start_system] in \<open>simp add: start_system_simps\<close>)
  from state_well_typed [OF mode_world.clock_world_axioms this] show ?thesis by simp
qed

end
